(* ===== verification/Pb_Prelude.thy ===== *)
theory Pb_Prelude
  imports Main "HOL-Library.Word"
begin

text \<open>
  Shared vocabulary of the Punchboot development.

  The code is modelled for an LP64 little-endian target (the armv8a port): \<open>uint8_t\<close> to
  \<open>uint64_t\<close> are words of their width, \<open>size_t\<close> and \<open>uintptr_t\<close> are \<open>64 word\<close>,
  \<open>unsigned int\<close> (and so \<open>lba_t\<close>) is \<open>32 word\<close>. A C \<open>int\<close> return code is an
  \<open>int\<close>, so that \<open>rc < 0\<close> and \<open>rc != PB_OK\<close> are written as in the source. A byte
  buffer is a \<open>u8 list\<close>; a packed C struct is a record with an encoder and a decoder
  that satisfy the \<open>codec\<close> interface below.

  The theory holds the numeric types, the result codes of \<open>include/pb/errors.h\<close>, the
  little-endian encoders, the \<open>codec\<close> interface and its array construction, writing a
  buffer over another one, and a byte-addressed memory.
\<close>

unbundle bit_operations_syntax

subsection \<open>Machine types and result codes\<close>

type_synonym u8 = "8 word"
type_synonym u16 = "16 word"
type_synonym u32 = "32 word"
type_synonym u64 = "64 word"

text \<open>The results of \<open>enum pb_errors\<close>, by their values; the code negates them.\<close>

datatype pb_errors =
    PB_ERR | PB_ERR_TIMEOUT | PB_ERR_KEY_REVOKED | PB_ERR_SIGNATURE | PB_ERR_CHECKSUM
  | PB_ERR_MEM | PB_ERR_IO | PB_ERR_NOT_FOUND | PB_ERR_NOT_IMPLEMENTED
  | PB_ERR_BUF_TOO_SMALL | PB_ERR_ABORT | PB_ERR_NOT_AUTHENTICATED
  | PB_ERR_AUTHENTICATION_FAILED | PB_ERR_INVALID_ARGUMENT | PB_ERR_INVALID_COMMAND
  | PB_ERR_PART_NOT_FOUND | PB_ERR_PART_NOT_BOOTABLE | PB_ERR_PARAM | PB_ERR_NOT_SUPPORTED
  | PB_ERR_AGAIN | PB_ERR_STATE | PB_ERR_BAD_HEADER | PB_ERR_BAD_KEYSTORE
  | PB_ERR_KEY_NOT_FOUND | PB_ERR_UNKNOWN_HASH | PB_ERR_BAD_META | PB_ERR_BAD_PAYLOAD
  | PB_ERR_NO_ACTIVE_BOOT_PARTITION | PB_ERR_ASN1 | PB_ERR_ALIGN

abbreviation (input) PB_OK :: int where "PB_OK \<equiv> 0"

fun errno :: "pb_errors \<Rightarrow> int" where
  "errno PB_ERR = 1"
| "errno PB_ERR_TIMEOUT = 2"
| "errno PB_ERR_KEY_REVOKED = 3"
| "errno PB_ERR_SIGNATURE = 4"
| "errno PB_ERR_CHECKSUM = 5"
| "errno PB_ERR_MEM = 6"
| "errno PB_ERR_IO = 7"
| "errno PB_ERR_NOT_FOUND = 8"
| "errno PB_ERR_NOT_IMPLEMENTED = 9"
| "errno PB_ERR_BUF_TOO_SMALL = 10"
| "errno PB_ERR_ABORT = 11"
| "errno PB_ERR_NOT_AUTHENTICATED = 12"
| "errno PB_ERR_AUTHENTICATION_FAILED = 13"
| "errno PB_ERR_INVALID_ARGUMENT = 14"
| "errno PB_ERR_INVALID_COMMAND = 15"
| "errno PB_ERR_PART_NOT_FOUND = 16"
| "errno PB_ERR_PART_NOT_BOOTABLE = 17"
| "errno PB_ERR_PARAM = 18"
| "errno PB_ERR_NOT_SUPPORTED = 19"
| "errno PB_ERR_AGAIN = 20"
| "errno PB_ERR_STATE = 21"
| "errno PB_ERR_BAD_HEADER = 22"
| "errno PB_ERR_BAD_KEYSTORE = 23"
| "errno PB_ERR_KEY_NOT_FOUND = 24"
| "errno PB_ERR_UNKNOWN_HASH = 25"
| "errno PB_ERR_BAD_META = 26"
| "errno PB_ERR_BAD_PAYLOAD = 27"
| "errno PB_ERR_NO_ACTIVE_BOOT_PARTITION = 28"
| "errno PB_ERR_ASN1 = 29"
| "errno PB_ERR_ALIGN = 30"

text \<open>\<open>err e\<close> is the negated code \<open>-e\<close> the functions return.\<close>

abbreviation (input) err :: "pb_errors \<Rightarrow> int" where "err e \<equiv> - errno e"

lemma errno_pos [simp]: "0 < errno e"
  by (cases e) simp_all

lemma errno_inj: "errno a = errno b \<Longrightarrow> a = b"
  by (cases a; cases b) simp_all

named_theorems struct_size \<open>sizes of the packed structs\<close>

subsection \<open>Words\<close>

lemma word_xor_left_cancel: "a XOR b = a XOR c \<longleftrightarrow> b = (c :: 'a::len word)"
  by (metis xor.assoc xor_self_eq xor.left_neutral)

lemma word_xor_right_cancel: "b XOR a = c XOR a \<longleftrightarrow> b = (c :: 'a::len word)"
  by (metis xor.assoc xor_self_eq xor.right_neutral)

lemma ucast_inject: "LENGTH('a) \<le> LENGTH('b) \<Longrightarrow> (ucast a :: 'b::len word) = ucast b \<longleftrightarrow> a = (b :: 'a::len word)"
  by (metis is_up.rep_eq source_size.rep_eq target_size.rep_eq ucast_up_ucast_id)

lemma unat_ucast_up [simp]:
  "LENGTH('a) \<le> LENGTH('b) \<Longrightarrow> unat (ucast w :: 'b::len word) = unat (w :: 'a::len word)"
proof -
  assume le: "LENGTH('a) \<le> LENGTH('b)"
  have "unat w < 2 ^ LENGTH('a)" by (rule unsigned_less)
  also have "(2 :: nat) ^ LENGTH('a) \<le> 2 ^ LENGTH('b)" using le by (simp add: power_increasing)
  finally show ?thesis by (simp add: unsigned_ucast_eq take_bit_nat_eq_self)
qed

lemma unat_plus_no_wrap:
  "unat a + unat b < 2 ^ LENGTH('a) \<Longrightarrow> unat (a + b) = unat a + unat (b :: 'a::len word)"
  by (simp add: unat_add_lem [THEN iffD1])

subsection \<open>Lists\<close>

lemma takeWhile_stops: "x \<in> set xs \<Longrightarrow> \<not> P x \<Longrightarrow> length (takeWhile P xs) < length xs"
  by (induction xs) auto

lemma takeWhile_all: "\<forall>x\<in>set xs. P x \<Longrightarrow> takeWhile P xs = xs"
  by (induction xs) auto

subsection \<open>Writing one buffer over another\<close>

text \<open>
  \<open>overlay buf d\<close> is the buffer after a callee stored the bytes \<open>d\<close> at its start: a
  read that fails half-way leaves the rest of the buffer as it was.
\<close>

definition overlay :: "'a list \<Rightarrow> 'a list \<Rightarrow> 'a list" where
  "overlay buf d = take (length buf) d @ drop (length d) buf"

lemma length_overlay [simp]: "length (overlay buf d) = length buf"
  by (simp add: overlay_def min_def)

lemma overlay_full [simp]: "length d = length buf \<Longrightarrow> overlay buf d = d"
  by (simp add: overlay_def)

lemma overlay_Nil [simp]: "overlay buf [] = buf"
  by (simp add: overlay_def)

text \<open>\<open>blit i d buf\<close> stores \<open>d\<close> at index \<open>i\<close>; what does not fit is dropped.\<close>

definition blit :: "nat \<Rightarrow> 'a list \<Rightarrow> 'a list \<Rightarrow> 'a list" where
  "blit i d buf = take i buf @ overlay (drop i buf) d"

lemma length_blit [simp]: "length (blit i d buf) = length buf"
  by (simp add: blit_def)

lemma nth_blit:
  "k < length buf \<Longrightarrow> i \<le> length buf \<Longrightarrow>
   blit i d buf ! k = (if i \<le> k \<and> k < i + length d then d ! (k - i) else buf ! k)"
  by (auto simp: blit_def overlay_def nth_append min_def)

definition window :: "nat \<Rightarrow> nat \<Rightarrow> 'a list \<Rightarrow> 'a list" where
  "window i n xs = take n (drop i xs)"

lemma length_window [simp]: "i + n \<le> length xs \<Longrightarrow> length (window i n xs) = n"
  by (simp add: window_def)

lemma window_append1: "i + n \<le> length xs \<Longrightarrow> window i n (xs @ ys) = window i n xs"
  by (simp add: window_def)

lemma window_append2: "length xs \<le> i \<Longrightarrow> window i n (xs @ ys) = window (i - length xs) n ys"
  by (simp add: window_def)

lemma window_full [simp]: "length xs = n \<Longrightarrow> window 0 n xs = xs"
  by (simp add: window_def)

lemma window_Cons: "0 < i \<Longrightarrow> window i n (x # xs) = window (i - 1) n xs"
  by (simp add: window_def drop_Cons')

lemmas window_simps = window_append1 window_append2 window_Cons

lemma window_glue: "window i m xs @ window (i + m) n xs = window i (m + n) xs"
  by (simp add: window_def take_add add.commute)

lemma window_1: "i < length bs \<Longrightarrow> [bs ! i] = window i 1 bs"
  by (simp add: window_def take_Suc_conv_app_nth Cons_nth_drop_Suc [symmetric])

lemma window_glues:
  "j = i + m \<Longrightarrow> window i m xs @ window j n xs = window i (m + n) xs"
  "j = i + m \<Longrightarrow> window i m xs @ (window j n xs @ r) = window i (m + n) xs @ r"
  using window_glue [of i m xs n] by (simp_all flip: append_assoc)

subsection \<open>Little-endian integers\<close>

primrec le_bytes :: "nat \<Rightarrow> 'a::len word \<Rightarrow> u8 list" where
  "le_bytes 0 w = []"
| "le_bytes (Suc n) w = ucast w # le_bytes n (drop_bit 8 w)"

primrec le_word :: "u8 list \<Rightarrow> 'a::len word" where
  "le_word [] = 0"
| "le_word (b # bs) = ucast b OR push_bit 8 (le_word bs)"

lemma length_le_bytes [simp]: "length (le_bytes n w) = n"
  by (induction n arbitrary: w) simp_all

lemma bit_le_word:
  "bit (le_word bs :: 'a::len word) k \<longleftrightarrow>
     k < LENGTH('a) \<and> k < 8 * length bs \<and> bit (bs ! (k div 8)) (k mod 8)"
proof (induction bs arbitrary: k)
  case Nil
  then show ?case by simp
next
  case (Cons b bs)
  show ?case
  proof (cases "k < 8")
    case True
    then show ?thesis by (simp add: bit_or_iff bit_word_ucast_iff bit_push_bit_iff)
  next
    case False
    then obtain j where k: "k = 8 + j" by (metis le_add_diff_inverse not_less)
    have "\<not> bit b (8 + j)" using bit_imp_le_length [of b "8 + j"] by auto
    moreover have "(8 + j) div 8 = Suc (j div 8)" by simp
    ultimately show ?thesis
      by (auto simp: k bit_or_iff bit_word_ucast_iff bit_push_bit_iff Cons)
  qed
qed

lemma nth_le_bytes: "i < n \<Longrightarrow> le_bytes n w ! i = ucast (drop_bit (8 * i) w)"
proof (induction n arbitrary: i w)
  case 0
  then show ?case by simp
next
  case (Suc n)
  then show ?case by (cases i) (simp_all add: algebra_simps)
qed

lemma le_word_le_bytes [simp]:
  "LENGTH('a) \<le> 8 * n \<Longrightarrow> le_word (le_bytes n w) = (w :: 'a::len word)"
  by (rule bit_word_eqI)
     (auto simp: bit_le_word nth_le_bytes bit_word_ucast_iff bit_drop_bit_eq
        less_mult_imp_div_less mult.commute)

lemma le_bytes_le_word [simp]:
  assumes "length bs = n" and "8 * n \<le> LENGTH('a)"
  shows "le_bytes n (le_word bs :: 'a::len word) = bs"
proof (rule nth_equalityI)
  show "length (le_bytes n (le_word bs :: 'a word)) = length bs" using assms(1) by simp
next
  fix i assume "i < length (le_bytes n (le_word bs :: 'a word))"
  then have i: "i < n" by simp
  show "le_bytes n (le_word bs :: 'a word) ! i = bs ! i"
  proof (rule bit_word_eqI)
    fix k assume "k < LENGTH(8)"
    then have k: "k < 8" by simp
    with i assms show "bit (le_bytes n (le_word bs :: 'a word) ! i) k = bit (bs ! i) k"
      by (auto simp: nth_le_bytes bit_word_ucast_iff bit_drop_bit_eq bit_le_word)
  qed
qed

subsection \<open>The codec interface of packed structs\<close>

text \<open>
  What every packed struct of the code promises: its encoding has the struct's size,
  decoding it gives the value back, and every buffer of that size is the encoding of
  what it decodes to.
\<close>

locale codec =
  fixes enc :: "'a \<Rightarrow> u8 list" and dec :: "u8 list \<Rightarrow> 'a" and sz :: nat
    and wf :: "'a \<Rightarrow> bool"
  assumes length_enc: "wf x \<Longrightarrow> length (enc x) = sz"
    and dec_enc: "wf x \<Longrightarrow> dec (enc x) = x"
    and wf_dec: "length bs = sz \<Longrightarrow> wf (dec bs)"
    and enc_dec: "length bs = sz \<Longrightarrow> enc (dec bs) = bs"
begin

lemma enc_inject: "wf x \<Longrightarrow> wf y \<Longrightarrow> enc x = enc y \<Longrightarrow> x = y"
  by (metis dec_enc)

lemma dec_inject: "length xs = sz \<Longrightarrow> length ys = sz \<Longrightarrow> dec xs = dec ys \<Longrightarrow> xs = ys"
  by (metis enc_dec)

end

definition enc_array :: "('a \<Rightarrow> u8 list) \<Rightarrow> 'a list \<Rightarrow> u8 list" where
  "enc_array enc xs = concat (map enc xs)"

primrec dec_array :: "(u8 list \<Rightarrow> 'a) \<Rightarrow> nat \<Rightarrow> nat \<Rightarrow> u8 list \<Rightarrow> 'a list" where
  "dec_array dec sz 0 bs = []"
| "dec_array dec sz (Suc n) bs = dec (take sz bs) # dec_array dec sz n (drop sz bs)"

lemma length_dec_array [simp]: "length (dec_array dec sz n bs) = n"
  by (induction n arbitrary: bs) simp_all

context codec
begin

lemma length_enc_array: "list_all wf xs \<Longrightarrow> length (enc_array enc xs) = length xs * sz"
  by (induction xs) (simp_all add: enc_array_def length_enc)

lemma dec_array_enc: "list_all wf xs \<Longrightarrow> dec_array dec sz (length xs) (enc_array enc xs) = xs"
  by (induction xs) (simp_all add: enc_array_def length_enc dec_enc)

lemma wf_dec_array: "length bs = n * sz \<Longrightarrow> list_all wf (dec_array dec sz n bs)"
  by (induction n arbitrary: bs) (simp_all add: wf_dec)

lemma enc_dec_array: "length bs = n * sz \<Longrightarrow> enc_array enc (dec_array dec sz n bs) = bs"
proof (induction n arbitrary: bs)
  case 0
  then show ?case by (simp add: enc_array_def)
next
  case (Suc n)
  then have "enc_array enc (dec_array dec sz n (drop sz bs)) = drop sz bs" by simp
  moreover have "enc (dec (take sz bs)) = take sz bs" using Suc.prems by (simp add: enc_dec)
  ultimately show ?case by (simp add: enc_array_def)
qed

lemma codec_array:
  "codec (enc_array enc) (dec_array dec sz n) (n * sz) (\<lambda>xs. length xs = n \<and> list_all wf xs)"
  by unfold_locales (auto simp: length_enc_array dec_array_enc wf_dec_array enc_dec_array)

end

interpretation le16: codec "le_bytes 2 :: u16 \<Rightarrow> _" le_word 2 "\<lambda>_. True"
  by unfold_locales simp_all

interpretation le32: codec "le_bytes 4 :: u32 \<Rightarrow> _" le_word 4 "\<lambda>_. True"
  by unfold_locales simp_all

interpretation le64: codec "le_bytes 8 :: u64 \<Rightarrow> _" le_word 8 "\<lambda>_. True"
  by unfold_locales simp_all

subsection \<open>Byte-addressed memory\<close>

type_synonym memory = "u64 \<Rightarrow> u8"

definition mem_read :: "memory \<Rightarrow> u64 \<Rightarrow> nat \<Rightarrow> u8 list" where
  "mem_read m a n = map (\<lambda>i. m (a + of_nat i)) [0..<n]"

primrec mem_write :: "memory \<Rightarrow> u64 \<Rightarrow> u8 list \<Rightarrow> memory" where
  "mem_write m a [] = m"
| "mem_write m a (b # bs) = mem_write (m(a := b)) (a + 1) bs"

lemma length_mem_read [simp]: "length (mem_read m a n) = n"
  by (simp add: mem_read_def)

lemma mem_read_0 [simp]: "mem_read m a 0 = []"
  by (simp add: mem_read_def)

lemma mem_read_add: "mem_read m a (i + j) = mem_read m a i @ mem_read m (a + of_nat i) j"
proof (rule nth_equalityI)
  fix k assume "k < length (mem_read m a (i + j))"
  then show "mem_read m a (i + j) ! k = (mem_read m a i @ mem_read m (a + of_nat i) j) ! k"
    by (auto simp: mem_read_def nth_append algebra_simps)
qed simp

text \<open>A range of addresses that does not wrap past the top of the address space.\<close>

definition no_wrap :: "u64 \<Rightarrow> nat \<Rightarrow> bool" where
  "no_wrap a n \<longleftrightarrow> unat a + n \<le> 2 ^ 64"

definition in_range :: "u64 \<Rightarrow> nat \<Rightarrow> u64 \<Rightarrow> bool" where
  "in_range a n x \<longleftrightarrow> unat a \<le> unat x \<and> unat x < unat a + n"

definition disjoint_range :: "u64 \<Rightarrow> nat \<Rightarrow> u64 \<Rightarrow> nat \<Rightarrow> bool" where
  "disjoint_range a n b k \<longleftrightarrow> unat a + n \<le> unat b \<or> unat b + k \<le> unat a"

lemma unat_add_of_nat: "no_wrap a n \<Longrightarrow> i < n \<Longrightarrow> unat (a + of_nat i) = unat a + i"
  unfolding no_wrap_def by (subst unat_add_lem [THEN iffD1]) (simp_all add: unat_of_nat)

lemma mem_read_cong:
  assumes "no_wrap a n" and "\<And>x. in_range a n x \<Longrightarrow> m x = m' x"
  shows "mem_read m a n = mem_read m' a n"
proof -
  have "m (a + of_nat i) = m' (a + of_nat i)" if "i < n" for i
    using assms(2) unat_add_of_nat [OF assms(1) that] that by (simp add: in_range_def)
  then show ?thesis by (simp add: mem_read_def)
qed

lemma mem_write_eq:
  "length bs \<le> 2 ^ 64 \<Longrightarrow>
   mem_write m a bs x = (if unat (x - a) < length bs then bs ! unat (x - a) else m x)"
proof (induction bs arbitrary: m a)
  case (Cons b bs)
  then have len: "length bs \<le> 2 ^ 64" "length bs \<le> 2 ^ 64 - 1" by simp_all
  have IH: "mem_write m a (b # bs) x = (if unat (x - (a + 1)) < length bs then bs ! unat (x - (a + 1)) else (m(a := b)) x)"
    unfolding mem_write.simps by (rule Cons.IH [OF len(1)])
  show ?case
  proof (cases "x = a")
    case True
    have "unat (a - (a + 1)) = 2 ^ 64 - 1" by (simp add: unsigned_minus_1_eq_mask mask_eq_exp_minus_1)
    with True len(2) show ?thesis unfolding IH by simp
  next
    case False
    then have "unat (x - a - 1) = unat (x - a) - 1" "0 < unat (x - a)"
      by (simp_all add: unat_minus_one unat_gt_0)
    with False show ?thesis unfolding IH by (auto simp: nth_Cons' diff_diff_eq)
  qed
qed simp

lemma mem_write_other:
  assumes "no_wrap a (length bs)" and "\<not> in_range a (length bs) x"
  shows "mem_write m a bs x = m x"
proof (cases "unat (x - a) < length bs")
  case True
  then have "unat (a + (x - a)) = unat a + unat (x - a)"
    using assms(1) by (intro unat_plus_no_wrap) (simp add: no_wrap_def)
  with True assms(2) show ?thesis by (simp add: in_range_def)
next
  case False
  with assms(1) show ?thesis by (simp add: mem_write_eq no_wrap_def)
qed

lemma mem_read_mem_write:
  "length bs \<le> 2 ^ 64 \<Longrightarrow> mem_read (mem_write m a bs) a (length bs) = bs"
  by (intro nth_equalityI) (simp_all add: mem_read_def mem_write_eq unat_of_nat)

lemma mem_read_mem_write_disjoint:
  assumes "no_wrap a (length bs)" and "no_wrap c n" and "disjoint_range a (length bs) c n"
  shows "mem_read (mem_write m a bs) c n = mem_read m c n"
proof -
  have "mem_write m a bs (c + of_nat i) = m (c + of_nat i)" if "i < n" for i
  proof (rule mem_write_other [OF assms(1)])
    show "\<not> in_range a (length bs) (c + of_nat i)"
      using assms(3) that unat_add_of_nat [OF assms(2) that]
      by (auto simp: disjoint_range_def in_range_def)
  qed
  then show ?thesis by (simp add: mem_read_def)
qed

end
