(* ===== verification/Libc.thy ===== *)
theory Libc
  imports Pb_Prelude
begin

text \<open>
  The routines of \<open>src/lib/libc\<close> that the modelled code calls. A block of memory of a
  given length is the list of its bytes, so the length argument of \<open>memcmp\<close> is the
  length of the two lists. A C string is the list of the bytes before its terminator: the
  byte a routine reads at the end of the list is the terminating zero.
\<close>

text \<open>\<open>memcmp\<close>: the difference of the first two bytes that differ.\<close>

fun memcmp :: "u8 list \<Rightarrow> u8 list \<Rightarrow> int" where
  "memcmp (sc # s) (dc # d) =
     (if uint sc - uint dc \<noteq> 0 then uint sc - uint dc else memcmp s d)"
| "memcmp _ _ = 0"

lemma memcmp_eq_0: "length s = length d \<Longrightarrow> memcmp s d = 0 \<longleftrightarrow> s = d"
  by (induction s d rule: memcmp.induct) (auto simp: word_uint_eq_iff)

lemma memcmp_self [simp]: "memcmp s s = 0"
  by (simp add: memcmp_eq_0)

lemma memcmp_append:
  "length s = length d \<Longrightarrow>
   memcmp (s @ s') (d @ d') = (if memcmp s d \<noteq> 0 then memcmp s d else memcmp s' d')"
  by (induction s d rule: memcmp.induct) auto

text \<open>
  \<open>strncpy dest src n\<close> with a destination of \<open>n\<close> bytes: the string, cut at \<open>n\<close> bytes,
  and zeros up to \<open>n\<close>.
\<close>

definition strncpy :: "u8 list \<Rightarrow> nat \<Rightarrow> u8 list" where
  "strncpy src n = take n src @ replicate (n - length src) 0"

lemma length_strncpy [simp]: "length (strncpy src n) = n"
  by (simp add: strncpy_def)

text \<open>The string a zero-terminated buffer holds.\<close>

definition c_str :: "u8 list \<Rightarrow> u8 list" where
  "c_str buf = takeWhile (\<lambda>c. c \<noteq> 0) buf"

lemma c_str_strncpy: "0 \<notin> set src \<Longrightarrow> c_str (strncpy src n @ [0]) = take n src"
proof -
  assume "0 \<notin> set src"
  then have "takeWhile (\<lambda>c. c \<noteq> 0) (take n src @ zs) = take n src @ takeWhile (\<lambda>c. c \<noteq> 0) zs" for zs
    by (intro takeWhile_append2) (auto dest: in_set_takeD)
  then show ?thesis 
    by (cases "n - length src") (simp_all add: c_str_def strncpy_def)
qed

end
