(* ===== verification/Uuid.thy ===== *)
theory Uuid
  imports Libc
begin

text \<open>
  The UUID routines of \<open>src/lib/uuid\<close>: packing and unpacking the fields, comparison, the
  null UUID, and the byte order change between a UUID and a GPT GUID. A \<open>uuid_t\<close> is a
  list of 16 bytes. \<open>uuid_compare\<close> decides equality of UUIDs and orders them, packing
  and unpacking are inverse to each other, and the GUID conversion is an involution.
\<close>

type_synonym uuid_t = "u8 list"

definition uuid_ok :: "uuid_t \<Rightarrow> bool" where
  "uuid_ok uu \<longleftrightarrow> length uu = 16"

text \<open>\<open>struct uuid\<close> of \<open>uuidP.h\<close>.\<close>

record uuid_fields =
  time_low :: u32
  time_mid :: u16
  time_hi_and_version :: u16
  clock_seq :: u16
  node :: "u8 list"

text \<open>\<open>tmp = (tmp << 8) | *ptr++\<close>, from the first byte on.\<close>

definition be_bytes_to_u32 :: "u8 list \<Rightarrow> u32" where
  "be_bytes_to_u32 bs = foldl (\<lambda>tmp b. push_bit 8 tmp OR ucast b) 0 bs"

definition uuid_unpack :: "uuid_t \<Rightarrow> uuid_fields" where
  "uuid_unpack ptr =
     \<lparr>time_low = be_bytes_to_u32 (window 0 4 ptr),
      time_mid = ucast (be_bytes_to_u32 (window 4 2 ptr)),
      time_hi_and_version = ucast (be_bytes_to_u32 (window 6 2 ptr)),
      clock_seq = ucast (be_bytes_to_u32 (window 8 2 ptr)),
      node = window 10 6 ptr\<rparr>"

definition uuid_pack :: "uuid_fields \<Rightarrow> uuid_t" where
  "uuid_pack uu =
     (let tl = time_low uu; tm = (ucast (time_mid uu) :: u32);
          th = (ucast (time_hi_and_version uu) :: u32); cs = (ucast (clock_seq uu) :: u32)
      in [ucast (drop_bit 24 tl), ucast (drop_bit 16 tl), ucast (drop_bit 8 tl), ucast tl,
          ucast (drop_bit 8 tm), ucast tm,
          ucast (drop_bit 8 th), ucast th,
          ucast (drop_bit 8 cs), ucast cs] @ node uu)"

text \<open>
  \<open>UUCMP(u1, u2)\<close>: return \<open>-1\<close> or \<open>1\<close> when the fields differ, fall through otherwise.
\<close>

definition uucmp :: "'a::len word \<Rightarrow> 'a word \<Rightarrow> int \<Rightarrow> int" where
  "uucmp u1 u2 rest = (if u1 \<noteq> u2 then (if u1 < u2 then -1 else 1) else rest)"

definition uuid_compare :: "uuid_t \<Rightarrow> uuid_t \<Rightarrow> int" where
  "uuid_compare uu1 uu2 =
     (let uuid1 = uuid_unpack uu1; uuid2 = uuid_unpack uu2 in
      uucmp (time_low uuid1) (time_low uuid2)
       (uucmp (time_mid uuid1) (time_mid uuid2)
        (uucmp (time_hi_and_version uuid1) (time_hi_and_version uuid2)
         (uucmp (clock_seq uuid1) (clock_seq uuid2)
          (memcmp (node uuid1) (node uuid2))))))"

definition uuid_is_null :: "uuid_t \<Rightarrow> bool" where
  "uuid_is_null uu \<longleftrightarrow> list_all (\<lambda>b. b = 0) (take 16 uu)"

definition uuid_copy :: "uuid_t \<Rightarrow> uuid_t" where
  "uuid_copy src = take 16 src"

definition uuid_clear :: uuid_t where
  "uuid_clear = replicate 16 0"

definition uuid_to_guid :: "uuid_t \<Rightarrow> uuid_t" where
  "uuid_to_guid u =
     [u ! 3, u ! 2, u ! 1, u ! 0, u ! 5, u ! 4, u ! 7, u ! 6,
      u ! 8, u ! 9, u ! 10, u ! 11, u ! 12, u ! 13, u ! 14, u ! 15]"

subsection \<open>Unpacking keeps every bit\<close>

lemma uuid_ok_cases:
  assumes "uuid_ok uu"
  obtains b0 b1 b2 b3 b4 b5 b6 b7 b8 b9 b10 b11 b12 b13 b14 b15
  where "uu = [b0, b1, b2, b3, b4, b5, b6, b7, b8, b9, b10, b11, b12, b13, b14, b15]"
proof -
  have "length uu = Suc (Suc (Suc (Suc (Suc (Suc (Suc (Suc (Suc (Suc (Suc (Suc (Suc (Suc (Suc (Suc 0)))))))))))))))"
    using assms by (simp add: uuid_ok_def)
  then show ?thesis
    by (auto simp: length_Suc_conv intro: that)
qed

lemma be_bytes_to_u32_pieces:
  "ucast (drop_bit 24 (be_bytes_to_u32 [a, b, c, d])) = a"
  "ucast (drop_bit 16 (be_bytes_to_u32 [a, b, c, d])) = b"
  "ucast (drop_bit 8 (be_bytes_to_u32 [a, b, c, d])) = c"
  "ucast (be_bytes_to_u32 [a, b, c, d]) = d"
  "ucast (drop_bit 8 (ucast (ucast (be_bytes_to_u32 [a, b]) :: u16) :: u32)) = a"
  "ucast (ucast (ucast (be_bytes_to_u32 [a, b]) :: u16) :: u32) = b"
  by (rule bit_word_eqI; auto simp: be_bytes_to_u32_def bit_simps dest: bit_imp_le_length)+

lemma be_bytes_to_u32_join:
  "be_bytes_to_u32 [ucast (drop_bit 24 w), ucast (drop_bit 16 w), ucast (drop_bit 8 w), ucast w] = w"
proof (rule bit_word_eqI)
  fix n :: nat assume "n < LENGTH(32)"
  then show "bit (be_bytes_to_u32
      [ucast (drop_bit 24 w), ucast (drop_bit 16 w), ucast (drop_bit 8 w), ucast w]) n = bit w n"
    by (cases "n < 8"; cases "n < 16"; cases "n < 24") (auto simp: be_bytes_to_u32_def bit_simps)
qed

lemma be_bytes_to_u16_join:
  "ucast (be_bytes_to_u32 [ucast (drop_bit 8 (ucast v :: u32)), ucast (ucast v :: u32)]) = (v :: u16)"
proof (rule bit_word_eqI)
  fix n :: nat assume "n < LENGTH(16)"
  then show "bit (ucast (be_bytes_to_u32
      [ucast (drop_bit 8 (ucast v :: u32)), ucast (ucast v :: u32)]) :: u16) n = bit v n"
    by (cases "n < 8") (auto simp: be_bytes_to_u32_def bit_simps)
qed

lemma uuid_pack_unpack: "uuid_ok uu \<Longrightarrow> uuid_pack (uuid_unpack uu) = uu"
  by (erule uuid_ok_cases)
     (simp add: uuid_unpack_def uuid_pack_def Let_def be_bytes_to_u32_pieces window_def)

lemma uuid_unpack_pack: "length (node f) = 6 \<Longrightarrow> uuid_unpack (uuid_pack f) = (f :: uuid_fields)"
  by (simp add: uuid_unpack_def uuid_pack_def Let_def be_bytes_to_u32_join be_bytes_to_u16_join
      window_def)

text \<open>
  unpacking a UUID into its fields and packing the fields gives the 16 bytes back, and
  packing fields with a 6 byte node and unpacking them gives the fields back.
\<close>

theorem uuid_pack_unpack_roundtrip:
  "(uuid_ok uu \<longrightarrow> uuid_pack (uuid_unpack uu) = uu) \<and>
   (length (node f) = 6 \<longrightarrow> uuid_unpack (uuid_pack f) = (f :: uuid_fields))"
  by (simp add: uuid_pack_unpack uuid_unpack_pack)

theorem uuid_pack_unpack_roundtrip_witness:
  "uuid_pack (uuid_unpack (replicate 16 7)) = replicate 16 7 \<and>
   uuid_unpack (uuid_pack \<lparr>time_low = 1, time_mid = 2, time_hi_and_version = 3,
     clock_seq = 4, node = replicate 6 5\<rparr>) =
   \<lparr>time_low = 1, time_mid = 2, time_hi_and_version = 3, clock_seq = 4, node = replicate 6 5\<rparr>"
  using uuid_pack_unpack_roundtrip [of "replicate 16 7"
    "\<lparr>time_low = 1, time_mid = 2, time_hi_and_version = 3, clock_seq = 4, node = replicate 6 5\<rparr>"]
  by (simp only: uuid_ok_def length_replicate uuid_fields.simps)

subsection \<open>Comparison\<close>

text \<open>A big-endian field has the value of its bytes as digits, and compares like the bytes.\<close>

definition be_val :: "int \<Rightarrow> u8 list \<Rightarrow> int" where
  "be_val x bs = foldl (\<lambda>t b. 256 * t + uint b) x bs"

lemma uint_u8: "0 \<le> uint (b :: u8)" "uint b < 256"
  using unsigned_less [where 'a = int, of b] by simp_all

lemma uint_be_step:
  assumes "uint w < 2 ^ 24"
  shows "uint (push_bit 8 w OR ucast (b :: u8) :: u32) = 256 * uint w + uint b"
proof -
  have "push_bit 8 w AND ucast b = (0 :: u32)"
    by (rule bit_word_eqI) (auto simp: bit_simps dest: bit_imp_le_length)
  then have "push_bit 8 w OR ucast b = push_bit 8 w + (ucast b :: u32)"
    by (rule disjunctive_add_eq_or [symmetric])
  also have "\<dots> = word_of_int (256 * uint w + uint b)"
    by (simp add: push_bit_eq_mult mult.commute)
  finally have "uint (push_bit 8 w OR ucast b :: u32) = take_bit 32 (256 * uint w + uint b)"
    by (simp only: unsigned_of_int) simp
  also have "\<dots> = 256 * uint w + uint b"
    using assms uint_u8 [of b] by (intro take_bit_int_eq_self) simp_all
  finally show ?thesis .
qed

lemma be_val_bounds: "0 \<le> be_val 0 bs \<and> be_val 0 bs < 256 ^ length bs"
proof (induction bs rule: rev_induct)
  case (snoc b bs)
  then show ?case using uint_u8 [of b] by (simp add: be_val_def)
qed (simp add: be_val_def)

lemma uint_be_bytes: "length bs \<le> 4 \<Longrightarrow> uint (be_bytes_to_u32 bs) = be_val 0 bs"
proof (induction bs rule: rev_induct)
  case (snoc b bs)
  have "be_val 0 bs < 256 ^ 3"
    using be_val_bounds [of bs] snoc.prems power_increasing [of "length bs" 3 "256 :: int"]
    by (simp del: power_increasing_iff)
  with snoc have "uint (be_bytes_to_u32 bs) < 2 ^ 24" by simp
  from uint_be_step [OF this, of b] snoc show ?case
    by (simp add: be_bytes_to_u32_def be_val_def)
qed (simp add: be_bytes_to_u32_def be_val_def)

lemma uint_be_bytes_u16:
  "length bs = 2 \<Longrightarrow> uint (ucast (be_bytes_to_u32 bs) :: u16) = be_val 0 bs"
  using be_val_bounds [of bs] uint_be_bytes [of bs]
  by (simp add: unsigned_ucast_eq take_bit_int_eq_self)

lemma be_digits:
  assumes "0 \<le> p" "p < 256" "0 \<le> q" "q < (256 :: int)"
  shows "256 * x + p = 256 * y + q \<longleftrightarrow> x = y \<and> p = q"
    and "x \<noteq> y \<Longrightarrow> sgn (256 * x + p - (256 * y + q)) = sgn (x - y)"
proof -
  have "256 * x + p = 256 * y + q \<Longrightarrow> x = y" using assms by auto
  then show "256 * x + p = 256 * y + q \<longleftrightarrow> x = y \<and> p = q" by auto
  show "x \<noteq> y \<Longrightarrow> sgn (256 * x + p - (256 * y + q)) = sgn (x - y)"
    using assms by (auto simp: sgn_if)
qed

lemma sgn_be_val:
  "length xs = length ys \<Longrightarrow>
   sgn (be_val x xs - be_val y ys) = (if x \<noteq> y then sgn (x - y) else sgn (memcmp xs ys))"
proof (induction xs ys arbitrary: x y rule: list_induct2)
  case (Cons b bs c cs)
  have "sgn (be_val x (b # bs) - be_val y (c # cs)) =
      sgn (be_val (256 * x + uint b) bs - be_val (256 * y + uint c) cs)"
    by (simp add: be_val_def)
  moreover have "256 * x + uint b = 256 * y + uint c \<longleftrightarrow> x = y \<and> uint b = uint c"
    "x \<noteq> y \<Longrightarrow> sgn (256 * x + uint b - (256 * y + uint c)) = sgn (x - y)"
    using be_digits [OF uint_u8(1) uint_u8(2) uint_u8(1) uint_u8(2)] by auto
  ultimately show ?case using Cons.IH by (auto simp: sgn_if)
qed (simp add: be_val_def)

lemma sgn_uucmp:
  "sgn (uucmp u1 u2 rest) =
   (if sgn (uint u1 - uint u2) \<noteq> 0 then sgn (uint u1 - uint u2) else sgn rest)"
  by (auto simp: uucmp_def word_uint_eq_iff word_less_def sgn_if)

lemma uuid_windows:
  "uuid_ok uu \<Longrightarrow>
   uu = window 0 4 uu @ window 4 2 uu @ window 6 2 uu @ window 8 2 uu @ window 10 6 uu"
  by (erule uuid_ok_cases) (simp add: window_def)

lemma sgn_uuid_compare:
  assumes "uuid_ok a" and "uuid_ok b"
  shows "sgn (uuid_compare a b) = sgn (memcmp a b)"
proof -
  have len: "length a = 16" "length b = 16" using assms by (simp_all add: uuid_ok_def)
  have "sgn (memcmp a b) = sgn (memcmp
     (window 0 4 a @ window 4 2 a @ window 6 2 a @ window 8 2 a @ window 10 6 a)
     (window 0 4 b @ window 4 2 b @ window 6 2 b @ window 8 2 b @ window 10 6 b))"
    using uuid_windows [OF assms(1)] uuid_windows [OF assms(2)] by metis
  also have "\<dots> = sgn (uuid_compare a b)"
    by (simp add: uuid_compare_def uuid_unpack_def Let_def sgn_uucmp len memcmp_append
        uint_be_bytes uint_be_bytes_u16 sgn_be_val sgn_eq_0_iff)
  finally show ?thesis by simp
qed

lemma uuid_compare_eq_0:
  assumes "uuid_ok a" and "uuid_ok b"
  shows "uuid_compare a b = 0 \<longleftrightarrow> a = b"
proof -
  have "memcmp a b = 0 \<longleftrightarrow> a = b" using assms by (intro memcmp_eq_0) (simp add: uuid_ok_def)
  with sgn_uuid_compare [OF assms] show ?thesis by (metis sgn_eq_0_iff)
qed

text \<open>
  \<open>uuid_compare\<close> has the sign of a \<open>memcmp\<close> of the 16 bytes, so that it is 0 only
  for equal UUIDs and orders UUIDs by their bytes.
\<close>

theorem uuid_compare_is_memcmp:
  assumes "uuid_ok a" and "uuid_ok b"
  shows "sgn (uuid_compare a b) = sgn (memcmp a b) \<and> (uuid_compare a b = 0 \<longleftrightarrow> a = b)"
  using assms by (simp add: sgn_uuid_compare uuid_compare_eq_0)

theorem uuid_compare_is_memcmp_witness:
  "sgn (uuid_compare (replicate 16 1) (replicate 16 2)) = sgn (memcmp (replicate 16 1) (replicate 16 2))"
  using uuid_compare_is_memcmp [of "replicate 16 1" "replicate 16 2"] by (simp add: uuid_ok_def)

lemma uuid_is_null_iff: "uuid_ok uu \<Longrightarrow> uuid_is_null uu \<longleftrightarrow> uu = uuid_clear"
  by (erule uuid_ok_cases) (simp add: uuid_is_null_def uuid_clear_def numeral_eq_Suc)

lemma uuid_to_guid_invol: "uuid_ok uu \<Longrightarrow> uuid_to_guid (uuid_to_guid uu) = uu"
  by (erule uuid_ok_cases) (simp add: uuid_to_guid_def)

lemma uuid_ok_uuid_to_guid [simp]: "uuid_ok (uuid_to_guid uu)"
  by (simp add: uuid_to_guid_def uuid_ok_def)

end
