(* ===== verification/Bio.thy ===== *)
theory Bio
  imports Uuid
begin

text \<open>
  The block device layer \<open>src/bio.c\<close>: the pool of devices and partitions, their
  registration, lookup by UUID, the range check of an access and the calls into the
  driver.

  The state of the boot loader is one record that grows along the call graph; it starts
  here with \<open>world\<close>, the state of everything the drivers talk to, \<open>mem\<close>, the main
  memory, and the two static variables of \<open>bio.c\<close>. A driver is a function on the world.
  A driver that reads also returns the bytes it stored from the start of the caller's
  buffer, which may be fewer than asked for when it fails; one that writes gets the
  bytes of the buffer. \<open>CONFIG_BIO_MAX_DEVS\<close> is the length of the pool.
\<close>

record 'w machine =
  world :: 'w
  mem :: memory

type_synonym 'w bio_read_t = "int \<Rightarrow> u32 \<Rightarrow> u64 \<Rightarrow> 'w \<Rightarrow> int \<times> u8 list \<times> 'w"
type_synonym 'w bio_write_t = "int \<Rightarrow> u32 \<Rightarrow> u64 \<Rightarrow> u8 list \<Rightarrow> 'w \<Rightarrow> int \<times> 'w"
type_synonym 'w bio_erase_t = "int \<Rightarrow> u32 \<Rightarrow> u64 \<Rightarrow> 'w \<Rightarrow> int \<times> 'w"

text \<open>
  The only function the code installs as \<open>install_partition_table\<close> callback is the one of
  \<open>drivers/partition/gpt.c\<close>; the pool holds its name.
\<close>

datatype bio_call = GPT_INSTALL_PARTITION_TABLE

record 'w bio_device =
  dev_uu :: uuid_t
  description :: "u8 list"
  first_lba :: u32
  last_lba :: u32
  flags :: u32
  block_sz :: u64
  dev_read :: "'w bio_read_t option"
  dev_write :: "'w bio_write_t option"
  dev_erase :: "'w bio_erase_t option"
  install_partition_table :: "bio_call option"
  dev_private :: u64
  valid :: bool

record 'w bio = "'w machine" +
  bio_pool :: "'w bio_device list"
  n_bios :: nat

text \<open>The device all of whose bytes are zero.\<close>

definition bio_device_zero :: "'w bio_device" where
  "bio_device_zero =
     \<lparr>dev_uu = replicate 16 0, description = replicate 37 0, first_lba = 0, last_lba = 0, flags = 0,
      block_sz = 0, dev_read = None, dev_write = None, dev_erase = None,
      install_partition_table = None, dev_private = 0, valid = False\<rparr>"

definition BIO_FLAG_BOOTABLE :: u16 where "BIO_FLAG_BOOTABLE = 1"
definition BIO_FLAG_WRITABLE :: u16 where "BIO_FLAG_WRITABLE = 4"
definition BIO_FLAG_ERASE_BEFORE_WRITE :: u16 where "BIO_FLAG_ERASE_BEFORE_WRITE = 8"
definition BIO_FLAG_VISIBLE :: u16 where "BIO_FLAG_VISIBLE = 32"
definition BIO_FLAG_READABLE :: u16 where "BIO_FLAG_READABLE = 64"

lemmas bio_flag_defs = BIO_FLAG_BOOTABLE_def BIO_FLAG_WRITABLE_def
  BIO_FLAG_ERASE_BEFORE_WRITE_def BIO_FLAG_VISIBLE_def BIO_FLAG_READABLE_def

text \<open>\<open>bio_pool[dev]\<close> and an assignment to it.\<close>

abbreviation bio_dev :: "('w, 'z) bio_scheme \<Rightarrow> int \<Rightarrow> 'w bio_device" where
  "bio_dev s dev \<equiv> bio_pool s ! nat dev"

definition upd_dev :: "int \<Rightarrow> ('w bio_device \<Rightarrow> 'w bio_device) \<Rightarrow> ('w, 'z) bio_scheme \<Rightarrow> ('w, 'z) bio_scheme" where
  "upd_dev dev f s = s\<lparr>bio_pool := (bio_pool s)[nat dev := f (bio_dev s dev)]\<rparr>"

definition check_dev :: "('w, 'z) bio_scheme \<Rightarrow> int \<Rightarrow> int" where
  "check_dev s dev =
     (if dev < 0 \<or> dev \<ge> int (length (bio_pool s)) then err PB_ERR_PARAM
      else if valid (bio_dev s dev) = False then err PB_ERR_PARAM
      else PB_OK)"

definition bio_allocate ::
  "u32 \<Rightarrow> u32 \<Rightarrow> u64 \<Rightarrow> uuid_t \<Rightarrow> u8 list \<Rightarrow> ('w, 'z) bio_scheme \<Rightarrow> int \<times> ('w, 'z) bio_scheme" where
  "bio_allocate first_blk last_blk block_size uu descr s =
     (if n_bios s = length (bio_pool s) then (err PB_ERR_MEM, s)
      else if block_size = 0 then (err PB_ERR_PARAM, s)
      else if first_blk > last_blk then (err PB_ERR_PARAM, s)
      else
        let d = bio_device_zero\<lparr>first_lba := first_blk, last_lba := last_blk, block_sz := block_size,
              dev_uu := uuid_copy uu, description := strncpy descr 36 @ [0], valid := True\<rparr>
        in (int (n_bios s),
            s\<lparr>bio_pool := (bio_pool s)[n_bios s := d], n_bios := n_bios s + 1\<rparr>))"

definition bio_allocate_parent ::
  "int \<Rightarrow> u32 \<Rightarrow> u32 \<Rightarrow> u64 \<Rightarrow> uuid_t \<Rightarrow> u8 list \<Rightarrow> ('w, 'z) bio_scheme \<Rightarrow> int \<times> ('w, 'z) bio_scheme" where
  "bio_allocate_parent parent first_blk last_blk block_size uu descr s =
     (let rc = check_dev s parent in
      if rc \<noteq> PB_OK then (rc, s)
      else
        case bio_allocate first_blk last_blk block_size uu descr s of (new, s) \<Rightarrow>
          if new < 0 then (new, s)
          else
            let p = bio_dev s parent in
            (new, upd_dev new (\<lambda>d. d\<lparr>flags := flags p, dev_read := dev_read p, dev_write := dev_write p,
                     dev_erase := dev_erase p, dev_private := dev_private p\<rparr>) s))"

definition bio_valid :: "('w, 'z) bio_scheme \<Rightarrow> int \<Rightarrow> bool" where
  "bio_valid s dev = (if check_dev s dev \<noteq> 0 then False else valid (bio_dev s dev))"

definition bio_set_ios ::
  "int \<Rightarrow> 'w bio_read_t option \<Rightarrow> 'w bio_write_t option \<Rightarrow> ('w, 'z) bio_scheme \<Rightarrow> int \<times> ('w, 'z) bio_scheme" where
  "bio_set_ios dev rd wr s =
     (let rc = check_dev s dev in
      if rc \<noteq> PB_OK then (rc, s)
      else (PB_OK, upd_dev dev (\<lambda>d. d\<lparr>dev_read := rd, dev_write := wr\<rparr>) s))"

definition bio_set_ios_erase ::
  "int \<Rightarrow> 'w bio_erase_t option \<Rightarrow> ('w, 'z) bio_scheme \<Rightarrow> int \<times> ('w, 'z) bio_scheme" where
  "bio_set_ios_erase dev er s =
     (let rc = check_dev s dev in
      if rc \<noteq> PB_OK then (rc, s) else (PB_OK, upd_dev dev (\<lambda>d. d\<lparr>dev_erase := er\<rparr>) s))"

definition bio_set_private :: "int \<Rightarrow> u64 \<Rightarrow> ('w, 'z) bio_scheme \<Rightarrow> int \<times> ('w, 'z) bio_scheme" where
  "bio_set_private dev priv s =
     (let rc = check_dev s dev in
      if rc \<noteq> PB_OK then (rc, s) else (PB_OK, upd_dev dev (\<lambda>d. d\<lparr>dev_private := priv\<rparr>) s))"

definition bio_get_private :: "('w, 'z) bio_scheme \<Rightarrow> int \<Rightarrow> u64" where
  "bio_get_private s dev = (if check_dev s dev \<noteq> PB_OK then 0 else dev_private (bio_dev s dev))"

text \<open>\<open>last_lba - first_lba + 1\<close> is computed in 32 bits, the product in 64.\<close>

definition bio_size :: "('w, 'z) bio_scheme \<Rightarrow> int \<Rightarrow> int" where
  "bio_size s dev =
     (let rc = check_dev s dev in
      if rc \<noteq> PB_OK then rc
      else sint (ucast (last_lba (bio_dev s dev) - first_lba (bio_dev s dev) + 1) *
                 block_sz (bio_dev s dev)))"

definition bio_block_size :: "('w, 'z) bio_scheme \<Rightarrow> int \<Rightarrow> int" where
  "bio_block_size s dev =
     (let rc = check_dev s dev in
      if rc \<noteq> PB_OK then rc else sint (block_sz (bio_dev s dev)))"

text \<open>
  \<open>first_lba + lba\<close> is a 32 bit sum, to which the 64 bit number of blocks is added.
\<close>

definition check_lba_range :: "('w, 'z) bio_scheme \<Rightarrow> int \<Rightarrow> u32 \<Rightarrow> u64 \<Rightarrow> int" where
  "check_lba_range s dev lba len =
     (let d = bio_dev s dev;
          n_blocks = len div block_sz d;
          n_blocks = (if len mod block_sz d \<noteq> 0 then n_blocks + 1 else n_blocks)
      in if ucast (first_lba d + lba) + n_blocks - 1 > (ucast (last_lba d) :: u64) then -1 else PB_OK)"

definition bio_read :: "int \<Rightarrow> u32 \<Rightarrow> u64 \<Rightarrow> ('w, 'z) bio_scheme \<Rightarrow> int \<times> u8 list \<times> ('w, 'z) bio_scheme" where
  "bio_read dev lba len s =
     (let rc = check_dev s dev in
      if rc \<noteq> PB_OK then (rc, [], s)
      else case dev_read (bio_dev s dev) of
        None \<Rightarrow> (err PB_ERR_NOT_SUPPORTED, [], s)
      | Some rd \<Rightarrow>
          if check_lba_range s dev lba len \<noteq> 0 then (err PB_ERR_PARAM, [], s)
          else (case rd dev (first_lba (bio_dev s dev) + lba) len (world s) of
                  (rc, data, w) \<Rightarrow> (rc, data, s\<lparr>world := w\<rparr>)))"

definition bio_write :: "int \<Rightarrow> u32 \<Rightarrow> u64 \<Rightarrow> u8 list \<Rightarrow> ('w, 'z) bio_scheme \<Rightarrow> int \<times> ('w, 'z) bio_scheme" where
  "bio_write dev lba len buf s =
     (let rc = check_dev s dev in
      if rc \<noteq> PB_OK then (rc, s)
      else case dev_write (bio_dev s dev) of
        None \<Rightarrow> (err PB_ERR_NOT_SUPPORTED, s)
      | Some wr \<Rightarrow>
          if check_lba_range s dev lba len \<noteq> 0 then (err PB_ERR_IO, s)
          else (case wr dev (first_lba (bio_dev s dev) + lba) len buf (world s) of
                  (rc, w) \<Rightarrow> (rc, s\<lparr>world := w\<rparr>)))"

definition bio_erase :: "int \<Rightarrow> u32 \<Rightarrow> u64 \<Rightarrow> ('w, 'z) bio_scheme \<Rightarrow> int \<times> ('w, 'z) bio_scheme" where
  "bio_erase dev first count s =
     (let rc = check_dev s dev in
      if rc \<noteq> PB_OK then (rc, s)
      else case dev_erase (bio_dev s dev) of
        None \<Rightarrow> (err PB_ERR_NOT_SUPPORTED, s)
      | Some er \<Rightarrow> (case er dev first count (world s) of (rc, w) \<Rightarrow> (rc, s\<lparr>world := w\<rparr>)))"

definition bio_get_hal_flags :: "('w, 'z) bio_scheme \<Rightarrow> int \<Rightarrow> int" where
  "bio_get_hal_flags s dev =
     (let rc = check_dev s dev in
      if rc \<noteq> PB_OK then rc else uint (drop_bit 24 (flags (bio_dev s dev)) AND 0xff))"

definition bio_set_hal_flags :: "int \<Rightarrow> u8 \<Rightarrow> ('w, 'z) bio_scheme \<Rightarrow> int \<times> ('w, 'z) bio_scheme" where
  "bio_set_hal_flags dev fl s =
     (let rc = check_dev s dev in
      if rc \<noteq> PB_OK then (rc, s)
      else (PB_OK, upd_dev dev (\<lambda>d. d\<lparr>flags := (flags d AND NOT 0xff000000) OR push_bit 24 (ucast fl)\<rparr>) s))"

definition bio_get_flags :: "('w, 'z) bio_scheme \<Rightarrow> int \<Rightarrow> int" where
  "bio_get_flags s dev =
     (let rc = check_dev s dev in
      if rc \<noteq> PB_OK then rc else uint (flags (bio_dev s dev) AND 0xffff))"

definition bio_set_flags :: "int \<Rightarrow> u16 \<Rightarrow> ('w, 'z) bio_scheme \<Rightarrow> int \<times> ('w, 'z) bio_scheme" where
  "bio_set_flags dev fl s =
     (let rc = check_dev s dev in
      if rc \<noteq> PB_OK then (rc, s)
      else (PB_OK, upd_dev dev (\<lambda>d. d\<lparr>flags := (flags d AND NOT 0x0000FFFF) OR (ucast fl AND 0xFFFF)\<rparr>) s))"

definition bio_clear_set_flags :: "int \<Rightarrow> u16 \<Rightarrow> u16 \<Rightarrow> ('w, 'z) bio_scheme \<Rightarrow> int \<times> ('w, 'z) bio_scheme" where
  "bio_clear_set_flags dev clear_flags set_flags s =
     (let fl = bio_get_flags s dev in
      if fl < 0 then (fl, s)
      else bio_set_flags dev ((word_of_int fl AND NOT clear_flags) OR set_flags) s)"

definition bio_get_description :: "('w, 'z) bio_scheme \<Rightarrow> int \<Rightarrow> u8 list option" where
  "bio_get_description s dev =
     (if check_dev s dev \<noteq> PB_OK then None else Some (description (bio_dev s dev)))"

definition bio_get_uu :: "('w, 'z) bio_scheme \<Rightarrow> int \<Rightarrow> uuid_t option" where
  "bio_get_uu s dev = (if check_dev s dev \<noteq> PB_OK then None else Some (dev_uu (bio_dev s dev)))"

definition bio_get_last_block :: "('w, 'z) bio_scheme \<Rightarrow> int \<Rightarrow> int" where
  "bio_get_last_block s dev =
     (if check_dev s dev \<noteq> PB_OK then err PB_ERR_PARAM else sint (last_lba (bio_dev s dev)))"

definition bio_get_first_block :: "('w, 'z) bio_scheme \<Rightarrow> int \<Rightarrow> int" where
  "bio_get_first_block s dev =
     (if check_dev s dev \<noteq> PB_OK then err PB_ERR_PARAM else sint (first_lba (bio_dev s dev)))"

definition bio_get_no_of_blocks :: "('w, 'z) bio_scheme \<Rightarrow> int \<Rightarrow> int" where
  "bio_get_no_of_blocks s dev =
     (if check_dev s dev \<noteq> PB_OK then err PB_ERR_PARAM
      else sint (last_lba (bio_dev s dev) - first_lba (bio_dev s dev) + 1))"

text \<open>The loop over the pool, from index \<open>i\<close> on; it stops at the first free entry.\<close>

fun part_by_uu_from :: "uuid_t \<Rightarrow> nat \<Rightarrow> 'w bio_device list \<Rightarrow> int" where
  "part_by_uu_from uu i [] = err PB_ERR_NOT_FOUND"
| "part_by_uu_from uu i (d # ds) =
     (if \<not> valid d then err PB_ERR_NOT_FOUND
      else if uuid_compare uu (dev_uu d) = 0 then int i
      else part_by_uu_from uu (i + 1) ds)"

text \<open>A \<open>NULL\<close> UUID is \<open>None\<close>.\<close>

definition bio_get_part_by_uu :: "uuid_t option \<Rightarrow> ('w, 'z) bio_scheme \<Rightarrow> int" where
  "bio_get_part_by_uu uu s =
     (case uu of None \<Rightarrow> err PB_ERR_NOT_FOUND | Some uu \<Rightarrow> part_by_uu_from uu 0 (bio_pool s))"

text \<open>\<open>call\<close> runs the callback with the device and the variant; it is \<open>None\<close> if it fails to return.\<close>

definition bio_install_partition_table ::
  "(bio_call \<Rightarrow> int \<Rightarrow> int \<Rightarrow> ('w, 'z) bio_scheme \<Rightarrow> (int \<times> ('w, 'z) bio_scheme) option) \<Rightarrow>
   uuid_t option \<Rightarrow> int \<Rightarrow> ('w, 'z) bio_scheme \<Rightarrow> (int \<times> ('w, 'z) bio_scheme) option" where
  "bio_install_partition_table call part_uu variant s =
     (let dev = bio_get_part_by_uu part_uu s in
      if dev < 0 then Some (dev, s)
      else case install_partition_table (bio_dev s dev) of
        Some cb \<Rightarrow> call cb dev variant s
      | None \<Rightarrow> Some (err PB_ERR_NOT_SUPPORTED, s))"

definition bio_set_install_partition_cb ::
  "int \<Rightarrow> bio_call option \<Rightarrow> ('w, 'z) bio_scheme \<Rightarrow> int \<times> ('w, 'z) bio_scheme" where
  "bio_set_install_partition_cb dev cb s =
     (if check_dev s dev \<noteq> PB_OK then (err PB_ERR_PARAM, s)
      else (PB_OK, upd_dev dev (\<lambda>d. d\<lparr>install_partition_table := cb\<rparr>) s))"

subsection \<open>The invariant of the pool\<close>

text \<open>
  The registered devices are the first \<open>n_bios\<close> entries of the pool, and each has a
  16 byte UUID, a zero-terminated description, a non-empty range and a block size.
\<close>

definition dev_inv :: "'w bio_device \<Rightarrow> bool" where
  "dev_inv d \<longleftrightarrow> uuid_ok (dev_uu d) \<and> length (description d) = 37 \<and> description d ! 36 = 0 \<and>
     first_lba d \<le> last_lba d \<and> block_sz d \<noteq> 0"

definition bio_inv :: "('w, 'z) bio_scheme \<Rightarrow> bool" where
  "bio_inv s \<longleftrightarrow> n_bios s \<le> length (bio_pool s) \<and>
     list_all (\<lambda>d. valid d \<and> dev_inv d) (take (n_bios s) (bio_pool s)) \<and>
     list_all (\<lambda>d. \<not> valid d) (drop (n_bios s) (bio_pool s))"

lemma bio_invI:
  assumes "n_bios s \<le> length (bio_pool s)"
    and "\<And>i. i < n_bios s \<Longrightarrow> valid (bio_pool s ! i) \<and> dev_inv (bio_pool s ! i)"
    and "\<And>i. n_bios s \<le> i \<Longrightarrow> i < length (bio_pool s) \<Longrightarrow> \<not> valid (bio_pool s ! i)"
  shows "bio_inv s"
  using assms by (auto simp: bio_inv_def list_all_length)

lemma bio_invD:
  assumes "bio_inv s"
  shows "n_bios s \<le> length (bio_pool s)"
    and "i < n_bios s \<Longrightarrow> valid (bio_pool s ! i)"
    and "i < n_bios s \<Longrightarrow> dev_inv (bio_pool s ! i)"
    and "n_bios s \<le> i \<Longrightarrow> i < length (bio_pool s) \<Longrightarrow> \<not> valid (bio_pool s ! i)"
  using assms by (auto simp: bio_inv_def list_all_length dest: spec [of _ "i - n_bios s"])

lemma check_dev_iff:
  assumes "bio_inv s"
  shows "check_dev s dev = PB_OK \<longleftrightarrow> 0 \<le> dev \<and> nat dev < n_bios s"
  using bio_invD(1) [OF assms] bio_invD(2,4) [OF assms, of "nat dev"]
  by (cases "nat dev < n_bios s") (auto simp: check_dev_def not_less nat_less_iff)

lemma check_dev_cases: "check_dev s dev = PB_OK \<or> check_dev s dev = err PB_ERR_PARAM"
  by (simp add: check_dev_def)

lemma check_dev_nonzero: "check_dev s dev \<noteq> PB_OK \<Longrightarrow> check_dev s dev = err PB_ERR_PARAM"
  using check_dev_cases [of s dev] by blast

lemma upd_dev_sel [simp]:
  "n_bios (upd_dev dev f s) = n_bios s" "length (bio_pool (upd_dev dev f s)) = length (bio_pool s)"
  "world (upd_dev dev f s) = world s" "mem (upd_dev dev f s) = mem s"
  "i < length (bio_pool s) \<Longrightarrow>
     bio_pool (upd_dev dev f s) ! i = (if i = nat dev then f (bio_pool s ! i) else bio_pool s ! i)"
  by (auto simp: upd_dev_def)

lemma bio_inv_upd_dev:
  assumes "bio_inv s" and "check_dev s dev = PB_OK"
    and "\<And>d. valid (f d) = valid d" and "\<And>d. dev_inv (f d) = dev_inv d"
  shows "bio_inv (upd_dev dev f s)"
proof (rule bio_invI)
  note inv = bio_invD [OF assms(1)]
  fix i assume "i < n_bios (upd_dev dev f s)"
  then show "valid (bio_pool (upd_dev dev f s) ! i) \<and> dev_inv (bio_pool (upd_dev dev f s) ! i)"
    using inv(1) inv(2,3) [of i] assms(3,4) by auto
next
  fix i assume "n_bios (upd_dev dev f s) \<le> i" "i < length (bio_pool (upd_dev dev f s))"
  then show "\<not> valid (bio_pool (upd_dev dev f s) ! i)"
    using bio_invD(4) [OF assms(1), of i] assms(3) by auto
qed (use bio_invD(1) [OF assms(1)] in simp)

lemma bio_inv_world [simp]: "bio_inv (s\<lparr>world := w\<rparr>) = bio_inv s"
  by (simp add: bio_inv_def)

lemma bio_inv_mem [simp]: "bio_inv (s\<lparr>mem := m\<rparr>) = bio_inv s"
  by (simp add: bio_inv_def)

lemma description_ok:
  "length (strncpy descr 36 @ [0]) = 37" "(strncpy descr 36 @ [0]) ! 36 = 0"
  by (simp_all add: nth_append)

lemma bio_allocate_cases:
  obtains (fail) rc where "bio_allocate f l bs uu descr s = (rc, s)" "rc < 0"
    "n_bios s = length (bio_pool s) \<or> bs = 0 \<or> l < f"
  | (ok) d where "bio_allocate f l bs uu descr s =
      (int (n_bios s), s\<lparr>bio_pool := (bio_pool s)[n_bios s := d], n_bios := n_bios s + 1\<rparr>)"
    "d = bio_device_zero\<lparr>first_lba := f, last_lba := l, block_sz := bs,
       dev_uu := uuid_copy uu, description := strncpy descr 36 @ [0], valid := True\<rparr>"
    "n_bios s \<noteq> length (bio_pool s)" "bs \<noteq> 0" "f \<le> l"
proof (cases "n_bios s = length (bio_pool s) \<or> bs = 0 \<or> l < f")
  case True
  then show ?thesis by (intro fail [of "fst (bio_allocate f l bs uu descr s)"]) (auto simp: bio_allocate_def)
next
  case False
  then show ?thesis by (intro ok [OF _ refl]) (auto simp: bio_allocate_def Let_def)
qed

lemma bio_inv_allocate:
  assumes "bio_inv s" and "uuid_ok uu"
  shows "bio_inv (snd (bio_allocate f l bs uu descr s))"
proof (cases rule: bio_allocate_cases [of f l bs uu descr s])
  case fail
  with assms show ?thesis by simp
next
  case (ok d)
  note inv = bio_invD [OF assms(1)]
  have d: "valid d" "dev_inv d"
    using ok assms(2) description_ok [of descr]
    by (simp_all add: dev_inv_def uuid_copy_def uuid_ok_def)
  show ?thesis
    unfolding ok(1) snd_conv
  proof (rule bio_invI)
    fix i assume "i < n_bios (s\<lparr>bio_pool := (bio_pool s)[n_bios s := d], n_bios := n_bios s + 1\<rparr>)"
    then show "valid (bio_pool (s\<lparr>bio_pool := (bio_pool s)[n_bios s := d], n_bios := n_bios s + 1\<rparr>) ! i) \<and>
        dev_inv (bio_pool (s\<lparr>bio_pool := (bio_pool s)[n_bios s := d], n_bios := n_bios s + 1\<rparr>) ! i)"
      using d ok(3) inv(1) inv(2,3) [of i] by (cases "i = n_bios s") auto
  qed (use ok(3) inv(1) bio_invD(4) [OF assms(1)] in auto)
qed

lemma check_dev_allocated:
  assumes "bio_inv s" and "fst (bio_allocate f l bs uu descr s) \<ge> 0" and "uuid_ok uu"
  shows "check_dev (snd (bio_allocate f l bs uu descr s)) (fst (bio_allocate f l bs uu descr s)) = PB_OK"
  by (subst check_dev_iff [OF bio_inv_allocate [OF assms(1,3)]],
      cases rule: bio_allocate_cases [of f l bs uu descr s]) (use assms in auto)

lemma bio_inv_allocate_parent:
  assumes "bio_inv s" and "uuid_ok uu"
  shows "bio_inv (snd (bio_allocate_parent parent f l bs uu descr s))"
proof -
  obtain new s' where a: "bio_allocate f l bs uu descr s = (new, s')" by fastforce
  have "bio_inv s'" using bio_inv_allocate [OF assms, of f l bs descr] a by simp
  moreover have "new \<ge> 0 \<Longrightarrow> check_dev s' new = PB_OK"
    using check_dev_allocated [OF assms(1) _ assms(2), of f l bs descr] a by simp
  ultimately show ?thesis
    using assms(1) a by (auto simp: bio_allocate_parent_def Let_def dev_inv_def intro!: bio_inv_upd_dev)
qed

text \<open>What can happen to the pool after reset.\<close>

inductive bio_op :: "('w, 'z) bio_scheme \<Rightarrow> ('w, 'z) bio_scheme \<Rightarrow> bool" where
  allocate: "uuid_ok uu \<Longrightarrow> bio_op s (snd (bio_allocate f l bs uu descr s))"
| allocate_parent: "uuid_ok uu \<Longrightarrow> bio_op s (snd (bio_allocate_parent p f l bs uu descr s))"
| set_ios: "bio_op s (snd (bio_set_ios dev rd wr s))"
| set_ios_erase: "bio_op s (snd (bio_set_ios_erase dev er s))"
| set_private: "bio_op s (snd (bio_set_private dev priv s))"
| set_hal_flags: "bio_op s (snd (bio_set_hal_flags dev hfl s))"
| set_flags: "bio_op s (snd (bio_set_flags dev fl s))"
| clear_set_flags: "bio_op s (snd (bio_clear_set_flags dev cl st s))"
| set_install_cb: "bio_op s (snd (bio_set_install_partition_cb dev cb s))"
| read: "bio_op s (snd (snd (bio_read dev lba len s)))"
| "write": "bio_op s (snd (bio_write dev lba len buf s))"
| erase: "bio_op s (snd (bio_erase dev lba len s))"
| memory: "bio_op s (s\<lparr>mem := m\<rparr>)"

definition bio_reset :: "('w, 'z) bio_scheme \<Rightarrow> bool" where
  "bio_reset s \<longleftrightarrow> n_bios s = 0 \<and> list_all (\<lambda>d. \<not> valid d) (bio_pool s)"

text \<open>The static variables as the C runtime leaves them, with a pool of \<open>n\<close> entries.\<close>

definition bio_statics :: "nat \<Rightarrow> 'w \<Rightarrow> 'w bio" where
  "bio_statics n w = \<lparr>world = w, mem = (\<lambda>_. 0), bio_pool = replicate n bio_device_zero, n_bios = 0\<rparr>"

lemma bio_reset_statics [simp]: "bio_reset (bio_statics n w)"
  by (simp add: bio_reset_def bio_statics_def bio_device_zero_def list_all_length)

lemma bio_inv_setters:
  assumes "bio_inv s"
  shows "bio_inv (snd (bio_set_ios dev rd wr s))"
    and "bio_inv (snd (bio_set_ios_erase dev er s))"
    and "bio_inv (snd (bio_set_private dev priv s))"
    and "bio_inv (snd (bio_set_hal_flags dev hfl s))"
    and "bio_inv (snd (bio_set_flags dev fl s))"
    and "bio_inv (snd (bio_clear_set_flags dev cl st s))"
    and "bio_inv (snd (bio_set_install_partition_cb dev cb s))"
  using assms
  by (auto simp: bio_set_ios_def bio_set_ios_erase_def bio_set_private_def bio_set_hal_flags_def
      bio_set_flags_def bio_clear_set_flags_def bio_set_install_partition_cb_def Let_def dev_inv_def
      intro!: bio_inv_upd_dev)

lemma bio_inv_io:
  assumes "bio_inv s"
  shows "bio_inv (snd (snd (bio_read dev lba len s)))"
    and "bio_inv (snd (bio_write dev lba len buf s))"
    and "bio_inv (snd (bio_erase dev lba len s))"
  using assms
  by (auto simp: bio_read_def bio_write_def bio_erase_def Let_def split: option.split prod.split)

lemmas bio_inv_ops = bio_inv_allocate bio_inv_allocate_parent bio_inv_setters bio_inv_io

lemma bio_inv_op: "bio_op s s' \<Longrightarrow> bio_inv s \<Longrightarrow> bio_inv s'"
  by (induction rule: bio_op.induct) (simp_all add: bio_inv_ops)

text \<open>
  C19: after any sequence of block device operations from reset, the registered devices
  are exactly the first \<open>n_bios\<close> entries of the pool, \<open>n_bios\<close> is at most the size of the
  pool, and every registered device has a UUID of 16 bytes, a terminated description, a
  range with \<open>first_lba \<le> last_lba\<close> and a non-zero block size.
\<close>

theorem bio_pool_well_formed: "bio_op\<^sup>*\<^sup>* s0 s \<Longrightarrow> bio_reset s0 \<Longrightarrow> bio_inv s"
proof (induction rule: rtranclp_induct)
  case base
  then show ?case by (simp add: bio_inv_def bio_reset_def)
next
  case (step y z)
  then show ?case using bio_inv_op by blast
qed

theorem bio_pool_well_formed_witness:
  "bio_inv (snd (bio_allocate 0 9 512 (replicate 16 1) [] (bio_statics 2 ())))"
proof (rule bio_pool_well_formed)
  show "bio_op\<^sup>*\<^sup>* (bio_statics 2 ())
      (snd (bio_allocate 0 9 512 (replicate 16 1) [] (bio_statics 2 ())))"
    by (rule r_into_rtranclp, rule bio_op.allocate) (simp add: uuid_ok_def)
qed simp

subsection \<open>Lookup by UUID\<close>

lemma part_by_uu_from_eq:
  assumes "uuid_ok uu" and "list_all (\<lambda>d. valid d \<and> uuid_ok (dev_uu d)) vs"
    and "list_all (\<lambda>d. \<not> valid d) ds"
  shows "part_by_uu_from uu i (vs @ ds) =
    (if uu \<in> dev_uu ` set vs then int (i + length (takeWhile (\<lambda>d. dev_uu d \<noteq> uu) vs))
     else err PB_ERR_NOT_FOUND)"
  using assms(2)
proof (induction vs arbitrary: i)
  case Nil
  with assms(3) show ?case by (cases ds) simp_all
next
  case (Cons d vs)
  then show ?case using uuid_compare_eq_0 [OF assms(1), of "dev_uu d"] by auto
qed

text \<open>The devices that are registered, in the order of registration.\<close>

abbreviation registered :: "('w, 'z) bio_scheme \<Rightarrow> 'w bio_device list" where
  "registered s \<equiv> take (n_bios s) (bio_pool s)"

lemma bio_get_part_by_uu_eq:
  assumes "bio_inv s" and "uuid_ok uu"
  shows "bio_get_part_by_uu (Some uu) s =
    (if uu \<in> dev_uu ` set (registered s)
     then int (length (takeWhile (\<lambda>d. dev_uu d \<noteq> uu) (registered s)))
     else err PB_ERR_NOT_FOUND)"
proof -
  have v: "list_all (\<lambda>d. valid d \<and> uuid_ok (dev_uu d)) (registered s)"
    and nv: "list_all (\<lambda>d. \<not> valid d) (drop (n_bios s) (bio_pool s))"
    using assms(1) by (auto simp: bio_inv_def dev_inv_def list_all_iff)
  show ?thesis
    using part_by_uu_from_eq [OF assms(2) v nv, of 0]
    by (simp add: bio_get_part_by_uu_def)
qed

lemma bio_get_part_by_uu_range:
  assumes "bio_inv s" and "uuid_ok uu" and "bio_get_part_by_uu (Some uu) s = dev" and "0 \<le> dev"
  shows "check_dev s dev = PB_OK" and "dev_uu (bio_dev s dev) = uu" and "valid (bio_dev s dev)"
proof -
  let ?vs = "registered s" and ?k = "length (takeWhile (\<lambda>d. dev_uu d \<noteq> uu) (registered s))"
  have n: "n_bios s \<le> length (bio_pool s)" using bio_invD(1) [OF assms(1)] .
  have "uu \<in> dev_uu ` set ?vs" and dev: "dev = int ?k"
    using assms by (auto simp: bio_get_part_by_uu_eq split: if_splits)
  then obtain x where "x \<in> set ?vs" "dev_uu x = uu" by blast
  then have k: "?k < length ?vs" by (intro takeWhile_stops [of x]) simp_all
  then have "dev_uu (?vs ! ?k) = uu" using nth_length_takeWhile [OF k] by simp
  with k n dev show "dev_uu (bio_dev s dev) = uu" by simp
  show c: "check_dev s dev = PB_OK" using k n dev by (simp add: check_dev_iff [OF assms(1)])
  show "valid (bio_dev s dev)"
    using c bio_invD(2) [OF assms(1), of "nat dev"] by (simp add: check_dev_iff [OF assms(1)])
qed

lemma registered_allocate:
  assumes "bio_inv s" and "n_bios s < length (bio_pool s)" and "bs \<noteq> 0" and "f \<le> l"
  shows "\<exists>d. bio_allocate f l bs uu descr s = (int (n_bios s), s\<lparr>bio_pool := (bio_pool s)[n_bios s := d],
      n_bios := n_bios s + 1\<rparr>) \<and> dev_uu d = uuid_copy uu \<and>
    registered (snd (bio_allocate f l bs uu descr s)) = registered s @ [d]"
  by (cases rule: bio_allocate_cases [of f l bs uu descr s]) 
     (use assms in \<open>auto simp: take_Suc_conv_app_nth not_le\<close>)

text \<open>
  C20: registering a device and looking UUIDs up. While the pool has room, a device with a
  non-empty range and a block size gets the next free handle; from then on its UUID is
  found (as the handle it got, unless an earlier device has the same UUID), and every
  other UUID is found as before.
\<close>

theorem bio_lookup_after_allocate:
  assumes "bio_inv s" and "uuid_ok uu" and "uuid_ok uu'"
    and "n_bios s < length (bio_pool s)" and "bs \<noteq> 0" and "f \<le> l"
  shows "fst (bio_allocate f l bs uu descr s) = int (n_bios s) \<and>
    bio_get_part_by_uu (Some uu') (snd (bio_allocate f l bs uu descr s)) =
      (if 0 \<le> bio_get_part_by_uu (Some uu') s then bio_get_part_by_uu (Some uu') s
       else if uu' = uu then int (n_bios s)
       else err PB_ERR_NOT_FOUND)"
proof -
  let ?s' = "snd (bio_allocate f l bs uu descr s)"
  obtain d where d: "fst (bio_allocate f l bs uu descr s) = int (n_bios s)" "dev_uu d = uu"
      "registered ?s' = registered s @ [d]"
    using registered_allocate [OF assms(1,4-6), of uu descr] assms(2)
    by (auto simp: uuid_copy_def uuid_ok_def)
  have inv: "bio_inv ?s'" using bio_inv_allocate [OF assms(1,2)] .
  have "length (takeWhile (\<lambda>d. dev_uu d \<noteq> uu') (registered s)) = n_bios s"
    if "uu' \<notin> dev_uu ` set (registered s)"
    using that assms(4) by (subst takeWhile_all) auto
  with d assms(4) show ?thesis
    by (auto simp: bio_get_part_by_uu_eq [OF inv assms(3)] bio_get_part_by_uu_eq [OF assms(1,3)]
        takeWhile_append)
qed

lemma bio_statics_facts [simp]:
  "bio_inv (bio_statics n w)" "n_bios (bio_statics n w) = 0" "length (bio_pool (bio_statics n w)) = n"
  by (simp_all add: bio_inv_def bio_statics_def bio_device_zero_def list_all_length)

lemma bio_statics_empty [simp]:
  "uuid_ok uu \<Longrightarrow> bio_get_part_by_uu (Some uu) (bio_statics n w) = err PB_ERR_NOT_FOUND"
  by (simp add: bio_get_part_by_uu_eq)

theorem bio_lookup_after_allocate_witness:
  "bio_get_part_by_uu (Some (replicate 16 1))
     (snd (bio_allocate 0 9 512 (replicate 16 1) [] (bio_statics 2 ()))) = 0"
  using bio_lookup_after_allocate [of "bio_statics 2 ()" "replicate 16 1" "replicate 16 1" 512 0 9 "[]"]
  by (simp add: uuid_ok_def)

subsection \<open>The range check\<close>

definition blocks_of :: "nat \<Rightarrow> nat \<Rightarrow> nat" where
  "blocks_of n bs = n div bs + (if n mod bs = 0 then 0 else 1)"

lemma blocks_of_covers: "0 < bs \<Longrightarrow> n \<le> blocks_of n bs * bs"
proof -
  assume "0 < bs"
  then have "n mod bs \<le> (if n mod bs = 0 then 0 else bs)" by (simp add: less_imp_le)
  moreover have "n = n div bs * bs + n mod bs" by simp
  moreover have "blocks_of n bs * bs = n div bs * bs + (if n mod bs = 0 then 0 else bs)"
    by (simp add: blocks_of_def add_mult_distrib)
  ultimately show ?thesis by linarith
qed

lemma blocks_of_pos: "0 < bs \<Longrightarrow> 0 < n \<Longrightarrow> 0 < blocks_of n bs"
  using blocks_of_covers [of bs n] by (cases "blocks_of n bs") simp_all

lemma unat_n_blocks:
  fixes len bs :: u64
  assumes "unat len < 2 ^ 63"
  shows "unat (if len mod bs \<noteq> 0 then len div bs + 1 else len div bs) =
    blocks_of (unat len) (unat bs)"
    and "blocks_of (unat len) (unat bs) \<le> 2 ^ 63"
proof -
  have d: "unat len div unat bs < 2 ^ 63"
    using assms by (rule le_less_trans [OF div_le_dividend])
  then have "unat (len div bs + 1) = unat len div unat bs + 1"
    by (subst unat_plus_no_wrap) (simp_all add: unat_div)
  moreover have "len mod bs \<noteq> 0 \<longleftrightarrow> unat len mod unat bs \<noteq> 0"
    by (metis unat_eq_zero unat_mod)
  ultimately show "unat (if len mod bs \<noteq> 0 then len div bs + 1 else len div bs) =
      blocks_of (unat len) (unat bs)"
    by (simp add: blocks_of_def unat_div)
  show "blocks_of (unat len) (unat bs) \<le> 2 ^ 63"
    using d unfolding blocks_of_def by (cases "unat len mod unat bs = 0") simp_all
qed

lemma check_lba_range_iff:
  assumes "block_sz (bio_dev s dev) \<noteq> 0" and "0 < unat len" and "unat len < 2 ^ 63"
    and "unat (first_lba (bio_dev s dev)) + unat lba < 2 ^ 32"
  shows "check_lba_range s dev lba len = PB_OK \<longleftrightarrow>
    unat (first_lba (bio_dev s dev)) + unat lba + blocks_of (unat len) (unat (block_sz (bio_dev s dev)))
      \<le> unat (last_lba (bio_dev s dev)) + 1"
proof -
  define d where "d = bio_dev s dev"
  define n where "n = (if len mod block_sz d \<noteq> 0 then len div block_sz d + 1 else len div block_sz d)"
  define a :: u64 where "a = ucast (first_lba d + lba)"
  let ?b = "blocks_of (unat len) (unat (block_sz d))"
  have n: "unat n = ?b" "?b \<le> 2 ^ 63"
    unfolding n_def by (rule unat_n_blocks [OF assms(3)])+
  have "unat (first_lba d + lba) = unat (first_lba d) + unat lba"
    using assms(4) unfolding d_def by (intro unat_plus_no_wrap) simp
  then have a: "unat a = unat (first_lba d) + unat lba" by (simp add: a_def)
  have "unat (block_sz d) \<noteq> 0" using assms(1) unfolding d_def unat_eq_zero .
  then have pos: "0 < ?b" using assms(2) by (intro blocks_of_pos) simp_all
  have lt: "unat a + unat n < 2 ^ LENGTH(64)"
    using n(2) assms(4) unfolding a n(1) d_def by simp
  have sum: "unat (a + n) = unat (first_lba d) + unat lba + ?b"
    using unat_plus_no_wrap [OF lt] a n(1) by simp
  then have "a + n \<noteq> 0" using pos by (metis add_is_0 less_not_refl unat_0)
  then have "unat (a + n - 1) = unat (a + n) - 1" by (rule unat_minus_one)
  moreover have "check_lba_range s dev lba len =
      (if a + n - 1 > ucast (last_lba d) then -1 else PB_OK)"
    by (simp add: check_lba_range_def Let_def d_def n_def a_def)
  moreover have "unat (ucast (last_lba d) :: u64) = unat (last_lba d)" by simp
  ultimately show ?thesis
    using sum pos unfolding d_def [symmetric] word_less_nat_alt by (simp split: if_split) linarith
qed

text \<open>The bytes of a device, as a range of byte positions of its medium.\<close>

definition dev_bytes :: "'w bio_device \<Rightarrow> nat set" where
  "dev_bytes d = {unat (first_lba d) * unat (block_sz d) ..< (unat (last_lba d) + 1) * unat (block_sz d)}"

definition access_bytes :: "'w bio_device \<Rightarrow> u32 \<Rightarrow> u64 \<Rightarrow> nat set" where
  "access_bytes d lba len =
     {unat (first_lba d + lba) * unat (block_sz d) ..< unat (first_lba d + lba) * unat (block_sz d) + unat len}"

lemma access_bytes_in_range:
  assumes "block_sz (bio_dev s dev) \<noteq> 0" and "0 < unat len" and "unat len < 2 ^ 63"
    and "unat (first_lba (bio_dev s dev)) + unat lba < 2 ^ 32"
    and "check_lba_range s dev lba len = PB_OK"
  shows "access_bytes (bio_dev s dev) lba len \<subseteq> dev_bytes (bio_dev s dev)"
proof -
  define d where "d = bio_dev s dev"
  define bs where "bs = unat (block_sz d)"
  have bs: "0 < bs" using assms(1) by (simp add: bs_def d_def unat_gt_0)
  have a: "unat (first_lba d + lba) = unat (first_lba d) + unat lba"
    using assms(4) unfolding d_def by (intro unat_plus_no_wrap) simp
  have "unat (first_lba d) + unat lba + blocks_of (unat len) bs \<le> unat (last_lba d) + 1"
    using check_lba_range_iff [OF assms(1-4)] assms(5) unfolding bs_def d_def by blast
  then have "(unat (first_lba d) + unat lba + blocks_of (unat len) bs) * bs \<le> (unat (last_lba d) + 1) * bs"
    by (rule mult_le_mono1)
  then have "(unat (first_lba d) + unat lba) * bs + unat len \<le> (unat (last_lba d) + 1) * bs"
    using blocks_of_covers [OF bs, of "unat len"] unfolding add_mult_distrib by linarith
  moreover have "unat (first_lba d) * bs \<le> (unat (first_lba d) + unat lba) * bs" by simp
  ultimately show ?thesis
    unfolding access_bytes_def dev_bytes_def d_def [symmetric] bs_def [symmetric] a
    by (intro subsetI) (simp only: atLeastLessThan_iff, linarith)
qed

lemma bio_write_cases:
  obtains (refused) rc where "bio_write dev lba len buf s = (rc, s)" "rc < 0"
  | (call) wr rc w where "check_dev s dev = PB_OK" "dev_write (bio_dev s dev) = Some wr"
    "check_lba_range s dev lba len = PB_OK"
    "wr dev (first_lba (bio_dev s dev) + lba) len buf (world s) = (rc, w)"
    "bio_write dev lba len buf s = (rc, s\<lparr>world := w\<rparr>)"
proof (cases "check_dev s dev = PB_OK")
  case dev: True
  show ?thesis
  proof (cases "dev_write (bio_dev s dev)")
    case None
    with dev show ?thesis by (intro refused [of "err PB_ERR_NOT_SUPPORTED"]) (simp_all add: bio_write_def)
  next
    case (Some wr)
    obtain rc w where "wr dev (first_lba (bio_dev s dev) + lba) len buf (world s) = (rc, w)" by fastforce
    with dev Some show ?thesis
      by (cases "check_lba_range s dev lba len = PB_OK")
         (auto intro: call refused [of "err PB_ERR_IO"] simp: bio_write_def)
  qed
next
  case False
  then show ?thesis
    by (intro refused [of "err PB_ERR_PARAM"]) (simp_all add: bio_write_def check_dev_nonzero)
qed

lemma bio_read_cases:
  obtains (refused) rc where "bio_read dev lba len s = (rc, [], s)" "rc < 0"
  | (call) rd rc data w where "check_dev s dev = PB_OK" "dev_read (bio_dev s dev) = Some rd"
    "check_lba_range s dev lba len = PB_OK"
    "rd dev (first_lba (bio_dev s dev) + lba) len (world s) = (rc, data, w)"
    "bio_read dev lba len s = (rc, data, s\<lparr>world := w\<rparr>)"
proof (cases "check_dev s dev = PB_OK")
  case dev: True
  show ?thesis
  proof (cases "dev_read (bio_dev s dev)")
    case None
    with dev show ?thesis by (intro refused [of "err PB_ERR_NOT_SUPPORTED"]) (simp_all add: bio_read_def)
  next
    case (Some rd)
    obtain rc data w where "rd dev (first_lba (bio_dev s dev) + lba) len (world s) = (rc, data, w)"
      using prod_cases3 by blast
    with dev Some show ?thesis
      by (cases "check_lba_range s dev lba len = PB_OK")
         (auto intro: call refused [of "err PB_ERR_PARAM"] simp: bio_read_def)
  qed
next
  case False
  then show ?thesis
    by (intro refused [of "err PB_ERR_PARAM"]) (simp_all add: bio_read_def check_dev_nonzero)
qed

subsection \<open>Partitions on a medium\<close>

text \<open>
  What a driver of a medium with bytes \<open>content\<close> promises: a read returns the bytes at
  \<open>lba * bs\<close> and changes none, a write changes only the bytes it is asked to write, and
  they hold the data when it reports success.
\<close>

definition medium_read :: "'w bio_read_t \<Rightarrow> nat \<Rightarrow> ('w \<Rightarrow> nat \<Rightarrow> u8) \<Rightarrow> bool" where
  "medium_read rd bs content \<longleftrightarrow>
     (\<forall>dev lba len w rc data w'. rd dev lba len w = (rc, data, w') \<longrightarrow>
        content w' = content w \<and>
        (rc = PB_OK \<longrightarrow> data = map (\<lambda>k. content w (unat lba * bs + k)) [0..<unat len]))"

definition medium_write :: "'w bio_write_t \<Rightarrow> nat \<Rightarrow> ('w \<Rightarrow> nat \<Rightarrow> u8) \<Rightarrow> bool" where
  "medium_write wr bs content \<longleftrightarrow>
     (\<forall>dev lba len buf w rc w'. wr dev lba len buf w = (rc, w') \<longrightarrow>
        (\<forall>i. i \<notin> {unat lba * bs ..< unat lba * bs + unat len} \<longrightarrow> content w' i = content w i) \<and>
        (rc = PB_OK \<longrightarrow> (\<forall>k < unat len. content w' (unat lba * bs + k) = buf ! k)))"

text \<open>A medium of bytes in the world, with a driver that never fails.\<close>

definition ram_read :: "nat \<Rightarrow> (nat \<Rightarrow> u8) bio_read_t" where
  "ram_read bs dev lba len w = (PB_OK, map (\<lambda>k. w (unat lba * bs + k)) [0..<unat len], w)"

definition ram_write :: "nat \<Rightarrow> (nat \<Rightarrow> u8) bio_write_t" where
  "ram_write bs dev lba len buf w =
     (PB_OK, \<lambda>i. if unat lba * bs \<le> i \<and> i < unat lba * bs + unat len then buf ! (i - unat lba * bs) else w i)"

lemma medium_ram: "medium_read (ram_read bs) bs id" "medium_write (ram_write bs) bs id"
  by (auto simp: medium_read_def medium_write_def ram_read_def ram_write_def)

text \<open>
  A device on a medium whose driver always succeeds, and the bytes such a device holds
  from block \<open>lba\<close> on.
\<close>

definition medium_dev :: "('w \<Rightarrow> nat \<Rightarrow> u8) \<Rightarrow> ('w, 'z) bio_scheme \<Rightarrow> int \<Rightarrow> bool" where
  "medium_dev content s dev \<longleftrightarrow> check_dev s dev = PB_OK \<and>
     (\<exists>rd. dev_read (bio_dev s dev) = Some rd \<and>
        medium_read rd (unat (block_sz (bio_dev s dev))) content \<and>
        (\<forall>d lba len w. fst (rd d lba len w) = PB_OK)) \<and>
     (\<exists>wr. dev_write (bio_dev s dev) = Some wr \<and>
        medium_write wr (unat (block_sz (bio_dev s dev))) content \<and>
        (\<forall>d lba len buf w. fst (wr d lba len buf w) = PB_OK))"

definition dev_content :: "('w \<Rightarrow> nat \<Rightarrow> u8) \<Rightarrow> ('w, 'z) bio_scheme \<Rightarrow> int \<Rightarrow> u32 \<Rightarrow> nat \<Rightarrow> u8 list" where
  "dev_content content s dev lba n =
     map (\<lambda>k. content (world s) (unat (first_lba (bio_dev s dev) + lba) * unat (block_sz (bio_dev s dev)) + k))
       [0..<n]"

lemma length_dev_content [simp]: "length (dev_content content s dev lba n) = n"
  by (simp add: dev_content_def)

text \<open>
  Two states of the pool that differ only in the flags and the callbacks of the devices
  have the same geometry: lookups, range checks and the bytes a device holds agree.
\<close>

definition geometry :: "('w, 'z) bio_scheme \<Rightarrow> 'w bio_device list" where
  "geometry s = map (\<lambda>d. d\<lparr>flags := 0, install_partition_table := None\<rparr>) (bio_pool s)"

lemma geometry_length: "geometry s = geometry t \<Longrightarrow> length (bio_pool s) = length (bio_pool t)"
  unfolding geometry_def by (rule map_eq_imp_length_eq)

lemma geometry_nth:
  assumes "geometry s = geometry t" and "i < length (bio_pool t)"
  shows "first_lba (bio_pool s ! i) = first_lba (bio_pool t ! i)"
    and "last_lba (bio_pool s ! i) = last_lba (bio_pool t ! i)"
    and "block_sz (bio_pool s ! i) = block_sz (bio_pool t ! i)"
    and "dev_read (bio_pool s ! i) = dev_read (bio_pool t ! i)"
    and "dev_write (bio_pool s ! i) = dev_write (bio_pool t ! i)"
    and "valid (bio_pool s ! i) = valid (bio_pool t ! i)"
    and "dev_uu (bio_pool s ! i) = dev_uu (bio_pool t ! i)"
proof -
  have "geometry s ! i = geometry t ! i" using assms(1) by simp
  then have eq: "(bio_pool s ! i)\<lparr>flags := 0, install_partition_table := None\<rparr> =
      (bio_pool t ! i)\<lparr>flags := 0, install_partition_table := None\<rparr>"
    using assms geometry_length [OF assms(1)] by (simp add: geometry_def)
  show "first_lba (bio_pool s ! i) = first_lba (bio_pool t ! i)"
    using arg_cong [OF eq, of first_lba] by simp
  show "last_lba (bio_pool s ! i) = last_lba (bio_pool t ! i)"
    using arg_cong [OF eq, of last_lba] by simp
  show "block_sz (bio_pool s ! i) = block_sz (bio_pool t ! i)"
    using arg_cong [OF eq, of block_sz] by simp
  show "dev_read (bio_pool s ! i) = dev_read (bio_pool t ! i)"
    using arg_cong [OF eq, of dev_read] by simp
  show "dev_write (bio_pool s ! i) = dev_write (bio_pool t ! i)"
    using arg_cong [OF eq, of dev_write] by simp
  show "valid (bio_pool s ! i) = valid (bio_pool t ! i)"
    using arg_cong [OF eq, of valid] by simp
  show "dev_uu (bio_pool s ! i) = dev_uu (bio_pool t ! i)"
    using arg_cong [OF eq, of dev_uu] by simp
qed

lemma geometry_pool: "bio_pool s = bio_pool t \<Longrightarrow> geometry s = geometry t"
  by (simp add: geometry_def)

lemma geometry_clear_set_flags: "geometry (snd (bio_clear_set_flags dev c f s)) = geometry s"
proof -
  have "geometry (upd_dev dev (\<lambda>d. d\<lparr>flags := g d\<rparr>) s) = geometry s" for g
    by (cases "nat dev < length (bio_pool s)")
       (simp_all add: geometry_def upd_dev_def map_update list_update_same_conv list_update_beyond)
  then show ?thesis by (simp add: bio_clear_set_flags_def bio_set_flags_def Let_def)
qed

lemma world_clear_set_flags: "world (snd (bio_clear_set_flags dev c f s)) = world s"
  by (simp add: bio_clear_set_flags_def bio_set_flags_def Let_def)

lemma check_dev_range: "check_dev s dev = PB_OK \<Longrightarrow> nat dev < length (bio_pool s)"
  by (auto simp: check_dev_def nat_less_iff split: if_splits)

lemma check_dev_cong:
  assumes "geometry s = geometry t"
  shows "check_dev s dev = check_dev t dev"
  using geometry_length [OF assms] geometry_nth(6) [OF assms, of "nat dev"]
  by (auto simp: check_dev_def nat_less_iff)

lemma check_lba_range_cong:
  assumes "geometry s = geometry t" and "check_dev t dev = PB_OK"
  shows "check_lba_range s dev lba len = check_lba_range t dev lba len"
  using geometry_nth(1-3) [OF assms(1) check_dev_range [OF assms(2)]] by (simp add: check_lba_range_def Let_def)

lemma medium_dev_cong:
  assumes "geometry s = geometry t"
  shows "medium_dev content s dev = medium_dev content t dev"
  using geometry_nth [OF assms, OF check_dev_range] check_dev_cong [OF assms, of dev]
  by (auto simp: medium_dev_def)

lemma access_bytes_cong:
  assumes "geometry s = geometry t" and "check_dev t dev = PB_OK"
  shows "access_bytes (bio_dev s dev) lba len = access_bytes (bio_dev t dev) lba len"
  using geometry_nth(1-3) [OF assms(1) check_dev_range [OF assms(2)]] by (simp add: access_bytes_def)

lemma dev_content_cong:
  assumes "geometry s = geometry t" and "check_dev t dev = PB_OK"
    and "\<And>i. i \<in> access_bytes (bio_dev t dev) lba (of_nat n) \<Longrightarrow> content (world s) i = content (world t) i"
    and "n < 2 ^ 64"
  shows "dev_content content s dev lba n = dev_content content t dev lba n"
  using geometry_nth(1-3) [OF assms(1) check_dev_range [OF assms(2)]] assms(3,4)
  by (simp add: dev_content_def access_bytes_def unat_of_nat)

lemma part_by_uu_from_cong:
  "length xs = length ys \<Longrightarrow>
   (\<And>i. i < length ys \<Longrightarrow> valid (xs ! i) = valid (ys ! i) \<and> dev_uu (xs ! i) = dev_uu (ys ! i)) \<Longrightarrow>
   part_by_uu_from uu k xs = part_by_uu_from uu k ys"
proof (induction xs ys arbitrary: k rule: list_induct2)
  case (Cons x xs y ys)
  from Cons.prems [of 0] have "valid x = valid y" "dev_uu x = dev_uu y" by simp_all
  moreover have "part_by_uu_from uu (k + 1) xs = part_by_uu_from uu (k + 1) ys"
    using Cons.prems [of "Suc i" for i] by (intro Cons.IH) auto
  ultimately show ?case by simp
qed simp

lemma bio_get_part_by_uu_cong:
  assumes "geometry s = geometry t"
  shows "bio_get_part_by_uu uu s = bio_get_part_by_uu uu t"
  using geometry_length [OF assms] geometry_nth(6,7) [OF assms]
  by (auto simp: bio_get_part_by_uu_def intro!: part_by_uu_from_cong split: option.split)

lemma bio_read_medium:
  assumes "medium_dev content s dev" and "check_lba_range s dev lba len = PB_OK"
  obtains w where "bio_read dev lba len s = (PB_OK, dev_content content s dev lba (unat len), s\<lparr>world := w\<rparr>)"
    "content w = content (world s)"
proof -
  obtain rd where rd: "check_dev s dev = PB_OK" "dev_read (bio_dev s dev) = Some rd"
      "medium_read rd (unat (block_sz (bio_dev s dev))) content" "\<And>d lba len w. fst (rd d lba len w) = PB_OK"
    using assms(1) by (auto simp: medium_dev_def)
  obtain rc data w where r: "rd dev (first_lba (bio_dev s dev) + lba) len (world s) = (rc, data, w)"
    using prod_cases3 by blast
  moreover have "rc = PB_OK" using rd(4) [of dev "first_lba (bio_dev s dev) + lba" len "world s"] r by simp
  moreover from this have "data = dev_content content s dev lba (unat len)" "content w = content (world s)"
    using rd(3) r unfolding medium_read_def dev_content_def by blast+
  ultimately show ?thesis
    using that rd(1,2) assms(2) by (auto simp: bio_read_def)
qed

lemma bio_write_effect:
  assumes "bio_write dev lba len buf s = (rc, s')"
    and "\<And>wr. dev_write (bio_dev s dev) = Some wr \<Longrightarrow> medium_write wr (unat (block_sz (bio_dev s dev))) content"
  obtains w where "s' = s\<lparr>world := w\<rparr>"
    "\<And>i. i \<notin> access_bytes (bio_dev s dev) lba len \<Longrightarrow> content w i = content (world s) i"
    "rc = PB_OK \<Longrightarrow> length buf = unat len \<Longrightarrow> dev_content content s' dev lba (unat len) = buf"
proof (cases rule: bio_write_cases [of dev lba len buf s])
  case (refused rc')
  then show ?thesis using assms(1) that [of "world s"] by simp
next
  case (call wr rc' w)
  then have eqs: "rc' = rc" "s' = s\<lparr>world := w\<rparr>" using assms(1) by simp_all
  note m = assms(2) [OF call(2), unfolded medium_write_def, rule_format, OF call(4)]
  show ?thesis
  proof (rule that [OF eqs(2)])
    show "content w i = content (world s) i" if "i \<notin> access_bytes (bio_dev s dev) lba len" for i
      using m that by (simp add: access_bytes_def)
    show "dev_content content s' dev lba (unat len) = buf" if "rc = PB_OK" "length buf = unat len"
      using m that eqs by (intro nth_equalityI) (simp_all add: dev_content_def)
  qed
qed

lemma bio_write_medium:
  assumes "medium_dev content s dev" and "check_lba_range s dev lba len = PB_OK" and "length buf = unat len"
  obtains w where "bio_write dev lba len buf s = (PB_OK, s\<lparr>world := w\<rparr>)"
    "dev_content content (s\<lparr>world := w\<rparr>) dev lba (unat len) = buf"
    "\<And>i. i \<notin> access_bytes (bio_dev s dev) lba len \<Longrightarrow> content w i = content (world s) i"
proof -
  obtain wr where wr: "check_dev s dev = PB_OK" "dev_write (bio_dev s dev) = Some wr"
      "medium_write wr (unat (block_sz (bio_dev s dev))) content" "\<And>d lba len buf w. fst (wr d lba len buf w) = PB_OK"
    using assms(1) by (auto simp: medium_dev_def)
  obtain rc w where w: "wr dev (first_lba (bio_dev s dev) + lba) len buf (world s) = (rc, w)" by fastforce
  moreover have "rc = PB_OK" using wr(4) [of dev "first_lba (bio_dev s dev) + lba" len buf "world s"] w by simp
  moreover from this have "dev_content content (s\<lparr>world := w\<rparr>) dev lba (unat len) = buf"
    using wr(3) w assms(3) unfolding medium_write_def dev_content_def
    by (intro nth_equalityI) auto
  moreover have "content w i = content (world s) i" if "i \<notin> access_bytes (bio_dev s dev) lba len" for i
    using wr(3) w that unfolding medium_write_def access_bytes_def by blast
  ultimately show ?thesis
    using that wr(1,2) assms(2) by (auto simp: bio_write_def)
qed


text \<open>A partition of blocks 4 to 7 of a medium with 512 byte blocks.\<close>

definition ram_dev :: "(nat \<Rightarrow> u8) bio_device" where
  "ram_dev = bio_device_zero\<lparr>first_lba := 4, last_lba := 7, block_sz := 512, valid := True,
     dev_read := Some (ram_read 512), dev_write := Some (ram_write 512)\<rparr>"

definition ram_bio :: "(nat \<Rightarrow> u8) bio" where
  "ram_bio = \<lparr>world = (\<lambda>_. 0), mem = (\<lambda>_. 0), bio_pool = [ram_dev], n_bios = 1\<rparr>"

lemma ram_bio_facts [simp]:
  "bio_inv ram_bio" "bio_pool ram_bio = [ram_dev]" "first_lba ram_dev = 4" "last_lba ram_dev = 7"
  "block_sz ram_dev = 512" "dev_write ram_dev = Some (ram_write 512)"
  "dev_read ram_dev = Some (ram_read 512)" "world ram_bio = (\<lambda>_. 0)"
  by (simp_all add: bio_inv_def ram_bio_def ram_dev_def dev_inv_def uuid_ok_def bio_device_zero_def)


text \<open>
  C18: what is written to a partition is what is read back from it. When \<open>bio_write\<close> and a
  following \<open>bio_read\<close> of the same range both report success, the read returns the
  written bytes, also when the two devices are different views of the same medium (a
  partition and the whole device) whose accesses start at the same block.
\<close>

theorem bio_read_after_write:
  assumes "dev_write (bio_dev s dev) = Some wr" and "dev_read (bio_dev s dev') = Some rd"
    and "medium_write wr bs content" and "medium_read rd bs content"
    and "first_lba (bio_dev s dev) + lba = first_lba (bio_dev s dev') + lba'"
    and "length buf = unat len"
    and "bio_write dev lba len buf s = (PB_OK, s')"
    and "bio_read dev' lba' len s' = (PB_OK, data, s'')"
  shows "data = buf \<and> content (world s'') = content (world s')"
proof (cases rule: bio_write_cases [of dev lba len buf s])
  case (refused rc)
  with assms(7) show ?thesis by simp
next
  case w: (call wr' rc w)
  then have s': "s' = s\<lparr>world := w\<rparr>" and ok: "rc = PB_OK" "wr' = wr"
    using assms(1,7) by simp_all
  show ?thesis
  proof (cases rule: bio_read_cases [of dev' lba' len s'])
    case (refused rc)
    with assms(8) show ?thesis by simp
  next
    case (call rd' rc' data' w')
    then have eqs: "rd' = rd" "rc' = PB_OK" "data' = data" "s'' = s'\<lparr>world := w'\<rparr>"
      using assms(2,8) s' by simp_all
    have "content w' = content w \<and> data = map (\<lambda>k. content w (unat (first_lba (bio_dev s dev) + lba) * bs + k)) [0..<unat len]"
      using assms(4,5) call(4) eqs s' unfolding medium_read_def by auto
    moreover have "\<forall>k < unat len. content w (unat (first_lba (bio_dev s dev) + lba) * bs + k) = buf ! k"
      using assms(3) w(4) ok unfolding medium_write_def by blast
    ultimately show ?thesis
      using assms(6) s' eqs by (auto intro: nth_equalityI)
  qed
qed

theorem bio_read_after_write_witness:
  "\<exists>s' data s''. bio_write 0 1 512 (replicate 512 9) ram_bio = (PB_OK, s') \<and>
     bio_read 0 1 512 s' = (PB_OK, data, s'') \<and> data = replicate 512 9"
proof -
  obtain s' where w: "bio_write 0 1 512 (replicate 512 9) ram_bio = (PB_OK, s')"
    by (simp add: bio_write_def check_dev_def check_lba_range_def ram_write_def ram_dev_def Let_def)
  obtain data s'' where r: "bio_read 0 1 512 s' = (PB_OK, data, s'')"
    using w by (auto simp: bio_write_def bio_read_def check_dev_def check_lba_range_def ram_write_def
        ram_read_def ram_dev_def Let_def)
  have "data = replicate 512 9"
    using bio_read_after_write [of ram_bio 0 "ram_write 512" 0 "ram_read 512" 512 id 1 1 "replicate 512 9" 512,
        OF _ _ _ _ _ _ w r] medium_ram [of 512] by simp
  with w r show ?thesis by blast
qed


end
