(* ===== verification/Fuse.thy ===== *)
theory Fuse
  imports Bio
begin

text \<open>
  The fuse box emulation \<open>drivers/fuse/test_fuse_bio.c\<close> of the test platform: 128 words
  kept in the first sector of a block device. A write can only set bits; a successful write
  survives a restart, because \<open>test_fuse_init\<close> reads the words back.
\<close>

record 'w fuse = "'w bio" +
  fuse_box :: "u32 list"
  fuse_dev :: int

abbreviation (input) TEST_FUSE_ADDR_MAX :: nat where "TEST_FUSE_ADDR_MAX \<equiv> 128"

text \<open>The array \<open>uint32_t fuse_box[]\<close> in memory.\<close>

abbreviation enc_fuse_box :: "u32 list \<Rightarrow> u8 list" where
  "enc_fuse_box \<equiv> enc_array (le_bytes 4)"

abbreviation dec_fuse_box :: "u8 list \<Rightarrow> u32 list" where
  "dec_fuse_box \<equiv> dec_array le_word 4 128"

interpretation fuse_words: codec "enc_fuse_box" "dec_fuse_box" 512
    "\<lambda>xs :: u32 list. length xs = 128 \<and> list_all (\<lambda>_. True) xs"
  using le32.codec_array [of 128] by simp

definition test_fuse_init :: "int \<Rightarrow> ('w, 'z) fuse_scheme \<Rightarrow> int \<times> ('w, 'z) fuse_scheme" where
  "test_fuse_init dev s =
     (case bio_read dev 0 512 (s\<lparr>fuse_dev := dev\<rparr>) of
        (rc, data, s) \<Rightarrow>
          let s = s\<lparr>fuse_box := dec_fuse_box (overlay (enc_fuse_box (fuse_box s)) data)\<rparr> in
          if rc < 0 then (rc, s) else (PB_OK, s))"

definition test_fuse_write :: "u16 \<Rightarrow> u32 \<Rightarrow> ('w, 'z) fuse_scheme \<Rightarrow> int \<times> ('w, 'z) fuse_scheme" where
  "test_fuse_write addr val s =
     (if unat addr \<ge> TEST_FUSE_ADDR_MAX then (err PB_ERR_PARAM, s)
      else
        let s = s\<lparr>fuse_box := (fuse_box s)[unat addr := fuse_box s ! unat addr OR val]\<rparr> in
        bio_write (fuse_dev s) 0 512 (enc_fuse_box (fuse_box s)) s)"

definition test_fuse_read :: "u16 \<Rightarrow> ('w, 'z) fuse_scheme \<Rightarrow> int" where
  "test_fuse_read addr s =
     (if unat addr \<ge> TEST_FUSE_ADDR_MAX then err PB_ERR_PARAM
      else sint (fuse_box s ! unat addr))"

subsection \<open>Fuses are one-time programmable\<close>

lemma fuse_box_bio_write [simp]: "fuse_box (snd (bio_write dev lba len buf s)) = fuse_box s"
  by (cases rule: bio_write_cases [of dev lba len buf s]) simp_all

lemma fuse_dev_bio_write [simp]: "fuse_dev (snd (bio_write dev lba len buf s)) = fuse_dev s"
  by (cases rule: bio_write_cases [of dev lba len buf s]) simp_all

lemma fuse_box_write:
  "fuse_box (snd (test_fuse_write addr val s)) =
   (if unat addr \<ge> 128 then fuse_box s
    else (fuse_box s)[unat addr := fuse_box s ! unat addr OR val])"
  by (simp add: test_fuse_write_def Let_def)

lemma length_fuse_box_write [simp]:
  "length (fuse_box (snd (test_fuse_write addr val s))) = length (fuse_box s)"
  by (simp add: fuse_box_write)

lemma word_sint [simp]: "(word_of_int (sint w) :: 'a::len word) = w"
  by simp

lemma test_fuse_read_word:
  "unat addr < 128 \<Longrightarrow> word_of_int (test_fuse_read addr s) = fuse_box s ! unat addr"
  by (simp add: test_fuse_read_def)

lemma fuse_bits_monotone:
  assumes "length (fuse_box s) = 128" and "bit (fuse_box s ! i) n"
  shows "bit (fuse_box (snd (test_fuse_write addr val s)) ! i) n"
  using assms by (cases "i < 128") (auto simp: fuse_box_write nth_list_update bit_or_iff)


definition ram_fuse :: "(nat \<Rightarrow> u8) fuse" where
  "ram_fuse = \<lparr>world = (\<lambda>_. 0), mem = (\<lambda>_. 0), bio_pool = [ram_dev], n_bios = 1,
     fuse_box = replicate 128 0, fuse_dev = 0\<rparr>"

lemma ram_fuse_facts [simp]:
  "bio_pool ram_fuse = [ram_dev]" "fuse_box ram_fuse = replicate 128 0" "fuse_dev ram_fuse = 0"
  by (simp_all add: ram_fuse_def)

lemma check_ram:
  "bio_pool s = [ram_dev] \<Longrightarrow> check_dev s 0 = PB_OK"
  "bio_pool s = [ram_dev] \<Longrightarrow> check_lba_range s 0 0 512 = PB_OK"
  by (simp_all add: check_dev_def check_lba_range_def Let_def ram_dev_def)

lemma ram_io:
  assumes "bio_pool s = [ram_dev]"
  shows "bio_write 0 0 512 buf s = (PB_OK, s\<lparr>world := snd (ram_write 512 0 4 512 buf (world s))\<rparr>)"
    and "bio_read 0 0 512 s = (PB_OK, fst (snd (ram_read 512 0 4 512 (world s))), s)"
  using assms by (simp_all add: bio_write_def bio_read_def check_ram) (simp_all add: ram_write_def ram_read_def)


end
