(* ===== verification/Crypto.thy ===== *)
theory Crypto
  imports Fuse
begin

text \<open>
  The hash and signature front end \<open>src/crypto.c\<close>: the tables of registered drivers, the
  active hash context and the calls into the drivers.

  A driver is a record of functions on the world. The bytes a driver writes to an output
  buffer are part of its result; they are stored from the start of the buffer. An
  asynchronous update gets the bytes of its buffer when it is started: the callers leave
  a buffer alone until the next call. The sizes of the tables, \<open>CONFIG_CRYPTO_MAX_HASH_OPS\<close>
  and \<open>CONFIG_CRYPTO_MAX_DSA_OPS\<close>, are the lengths of the lists.
\<close>

type_synonym hash_t = u32
type_synonym dsa_t = u32
type_synonym key_id_t = u32

abbreviation (input) HASH_MD5 :: hash_t where "HASH_MD5 \<equiv> 1"
abbreviation (input) HASH_SHA256 :: hash_t where "HASH_SHA256 \<equiv> 4"
abbreviation (input) HASH_SHA384 :: hash_t where "HASH_SHA384 \<equiv> 8"
abbreviation (input) HASH_SHA512 :: hash_t where "HASH_SHA512 \<equiv> 16"

abbreviation (input) DSA_EC_SECP256r1 :: dsa_t where "DSA_EC_SECP256r1 \<equiv> 1"
abbreviation (input) DSA_EC_SECP384r1 :: dsa_t where "DSA_EC_SECP384r1 \<equiv> 2"
abbreviation (input) DSA_EC_SECP521r1 :: dsa_t where "DSA_EC_SECP521r1 \<equiv> 4"

record 'w hash_ops =
  ho_name :: string
  ho_alg_bits :: u32
  ho_init :: "hash_t \<Rightarrow> 'w \<Rightarrow> int \<times> 'w"
  ho_update :: "u8 list \<Rightarrow> 'w \<Rightarrow> int \<times> 'w"
  ho_update_async :: "(u8 list \<Rightarrow> 'w \<Rightarrow> int \<times> 'w) option"
  ho_copy_update :: "(u8 list \<Rightarrow> 'w \<Rightarrow> int \<times> u8 list \<times> 'w) option"
  ho_final :: "u64 \<Rightarrow> 'w \<Rightarrow> int \<times> u8 list \<times> 'w"

text \<open>
  \<open>verify\<close> gets the signature, the key, the kind of digest and the digest; it returns
  what it stored to \<open>*verified\<close>, if anything.
\<close>

record 'w dsa_ops =
  do_name :: string
  do_alg_bits :: u32
  do_verify :: "u8 list \<Rightarrow> u8 list \<Rightarrow> hash_t \<Rightarrow> u8 list \<Rightarrow> 'w \<Rightarrow> int \<times> bool option \<times> 'w"

record 'w crypto = "'w fuse" +
  dsa_ops :: "'w dsa_ops option list"
  no_of_dsa_ops :: nat
  hash_ops :: "'w hash_ops option list"
  no_of_hash_ops :: nat
  current_hash_ops :: "'w hash_ops option"

text \<open>The first registered driver with one of the bits \<open>alg\<close>.\<close>

fun find_hash_ops :: "hash_t \<Rightarrow> 'w hash_ops option list \<Rightarrow> 'w hash_ops option" where
  "find_hash_ops alg [] = None"
| "find_hash_ops alg (None # os) = find_hash_ops alg os"
| "find_hash_ops alg (Some ops # os) =
     (if ho_alg_bits ops AND alg \<noteq> 0 then Some ops else find_hash_ops alg os)"

text \<open>The error result is positive in the code.\<close>

definition hash_init :: "hash_t \<Rightarrow> ('w, 'z) crypto_scheme \<Rightarrow> int \<times> ('w, 'z) crypto_scheme" where
  "hash_init alg s =
     (let s = s\<lparr>current_hash_ops := None\<rparr> in
      case find_hash_ops alg (hash_ops s) of
        Some ops \<Rightarrow>
          (case ho_init ops alg (world s) of
             (rc, w) \<Rightarrow> (rc, s\<lparr>current_hash_ops := Some ops, world := w\<rparr>))
      | None \<Rightarrow> (errno PB_ERR_NOT_SUPPORTED, s))"

definition hash_update :: "u8 list \<Rightarrow> ('w, 'z) crypto_scheme \<Rightarrow> int \<times> ('w, 'z) crypto_scheme" where
  "hash_update buf s =
     (case current_hash_ops s of
        None \<Rightarrow> (err PB_ERR_STATE, s)
      | Some ops \<Rightarrow> (case ho_update ops buf (world s) of (rc, w) \<Rightarrow> (rc, s\<lparr>world := w\<rparr>)))"

definition hash_update_async :: "u8 list \<Rightarrow> ('w, 'z) crypto_scheme \<Rightarrow> int \<times> ('w, 'z) crypto_scheme" where
  "hash_update_async buf s =
     (case current_hash_ops s of
        None \<Rightarrow> (err PB_ERR_STATE, s)
      | Some ops \<Rightarrow>
          (case ho_update_async ops of
             Some update_async \<Rightarrow> (case update_async buf (world s) of (rc, w) \<Rightarrow> (rc, s\<lparr>world := w\<rparr>))
           | None \<Rightarrow> (case ho_update ops buf (world s) of (rc, w) \<Rightarrow> (rc, s\<lparr>world := w\<rparr>))))"

text \<open>\<open>dest\<close> is an address; after the copy the bytes are hashed from there.\<close>

definition hash_copy_update :: "u8 list \<Rightarrow> u64 \<Rightarrow> ('w, 'z) crypto_scheme \<Rightarrow> int \<times> ('w, 'z) crypto_scheme" where
  "hash_copy_update src dest s =
     (case current_hash_ops s of
        None \<Rightarrow> (err PB_ERR_STATE, s)
      | Some ops \<Rightarrow>
          (case ho_copy_update ops of
             Some copy_update \<Rightarrow>
               (case copy_update src (world s) of
                  (rc, data, w) \<Rightarrow> (rc, s\<lparr>world := w, mem := mem_write (mem s) dest (take (length src) data)\<rparr>))
           | None \<Rightarrow>
               let m = mem_write (mem s) dest src in
               (case ho_update ops (mem_read m dest (length src)) (world s) of
                  (rc, w) \<Rightarrow> (rc, s\<lparr>world := w, mem := m\<rparr>))))"

definition hash_final :: "u64 \<Rightarrow> ('w, 'z) crypto_scheme \<Rightarrow> int \<times> u8 list \<times> ('w, 'z) crypto_scheme" where
  "hash_final len s =
     (case current_hash_ops s of
        None \<Rightarrow> (err PB_ERR_STATE, [], s)
      | Some ops \<Rightarrow>
          (case ho_final ops len (world s) of
             (rc, digest, w) \<Rightarrow> (rc, digest, s\<lparr>world := w, current_hash_ops := None\<rparr>)))"

definition hash_add_ops :: "'w hash_ops \<Rightarrow> ('w, 'z) crypto_scheme \<Rightarrow> int \<times> ('w, 'z) crypto_scheme" where
  "hash_add_ops ops s =
     (if no_of_hash_ops s \<ge> length (hash_ops s) then (err PB_ERR_MEM, s)
      else (PB_OK, s\<lparr>hash_ops := (hash_ops s)[no_of_hash_ops s := Some ops],
                      no_of_hash_ops := no_of_hash_ops s + 1\<rparr>))"

fun find_dsa_ops :: "dsa_t \<Rightarrow> 'w dsa_ops option list \<Rightarrow> 'w dsa_ops option" where
  "find_dsa_ops alg [] = None"
| "find_dsa_ops alg (None # os) = find_dsa_ops alg os"
| "find_dsa_ops alg (Some ops # os) =
     (if do_alg_bits ops AND alg \<noteq> 0 then Some ops else find_dsa_ops alg os)"

definition dsa_verify ::
  "dsa_t \<Rightarrow> u8 list \<Rightarrow> u8 list \<Rightarrow> hash_t \<Rightarrow> u8 list \<Rightarrow> ('w, 'z) crypto_scheme \<Rightarrow>
   int \<times> bool option \<times> ('w, 'z) crypto_scheme" where
  "dsa_verify alg der_signature der_key md_alg md s =
     (case find_dsa_ops alg (dsa_ops s) of
        None \<Rightarrow> (err PB_ERR_NOT_SUPPORTED, None, s)
      | Some ops \<Rightarrow>
          (case do_verify ops der_signature der_key md_alg md (world s) of
             (rc, verified, w) \<Rightarrow> (rc, verified, s\<lparr>world := w\<rparr>)))"

definition dsa_add_ops :: "'w dsa_ops \<Rightarrow> ('w, 'z) crypto_scheme \<Rightarrow> int \<times> ('w, 'z) crypto_scheme" where
  "dsa_add_ops ops s =
     (if no_of_dsa_ops s \<ge> length (dsa_ops s) then (err PB_ERR_MEM, s)
      else (PB_OK, s\<lparr>dsa_ops := (dsa_ops s)[no_of_dsa_ops s := Some ops],
                      no_of_dsa_ops := no_of_dsa_ops s + 1\<rparr>))"

subsection \<open>What the drivers promise\<close>

text \<open>
  A hash driver for the digest function \<open>H\<close>: \<open>st\<close> gives the algorithm and the message
  hashed so far; calls that report success extend the message by the bytes of the buffer,
  and the last one returns the digest. A signature driver for \<open>V\<close> reports a signature as
  verified only if \<open>V\<close> holds of the key, the digest (the first bytes of the buffer, by the
  kind of digest) and the signature.
\<close>

definition digest_len_of :: "hash_t \<Rightarrow> nat" where
  "digest_len_of alg = (if alg = HASH_SHA256 then 32 else if alg = HASH_SHA384 then 48
     else if alg = HASH_SHA512 then 64 else 16)"

definition hash_driver ::
  "'w hash_ops \<Rightarrow> (hash_t \<Rightarrow> u8 list \<Rightarrow> u8 list) \<Rightarrow> ('w \<Rightarrow> hash_t \<times> u8 list) \<Rightarrow> bool" where
  "hash_driver ops H st \<longleftrightarrow>
     (\<forall>alg w w'. ho_init ops alg w = (PB_OK, w') \<longrightarrow> st w' = (alg, [])) \<and>
     (\<forall>buf w w'. ho_update ops buf w = (PB_OK, w') \<longrightarrow> st w' = (fst (st w), snd (st w) @ buf)) \<and>
     (\<forall>f buf w w'. ho_update_async ops = Some f \<longrightarrow> f buf w = (PB_OK, w') \<longrightarrow>
        st w' = (fst (st w), snd (st w) @ buf)) \<and>
     (\<forall>len w d w'. ho_final ops len w = (PB_OK, d, w') \<longrightarrow>
        d = H (fst (st w)) (snd (st w)) \<and> length d = digest_len_of (fst (st w)))"

definition dsa_driver ::
  "'w dsa_ops \<Rightarrow> (u8 list \<Rightarrow> hash_t \<Rightarrow> u8 list \<Rightarrow> u8 list \<Rightarrow> bool) \<Rightarrow> bool" where
  "dsa_driver ops V \<longleftrightarrow>
     (\<forall>sig key alg md w w'. do_verify ops sig key alg md w = (PB_OK, Some True, w') \<longrightarrow>
        V key alg (take (digest_len_of alg) md) sig)"

definition hash_drivers :: "('w, 'z) crypto_scheme \<Rightarrow> (hash_t \<Rightarrow> u8 list \<Rightarrow> u8 list) \<Rightarrow> ('w \<Rightarrow> hash_t \<times> u8 list) \<Rightarrow> bool" where
  "hash_drivers s H st \<longleftrightarrow> (\<forall>ops. Some ops \<in> set (hash_ops s) \<longrightarrow> hash_driver ops H st)"

definition dsa_drivers :: "('w, 'z) crypto_scheme \<Rightarrow> (u8 list \<Rightarrow> hash_t \<Rightarrow> u8 list \<Rightarrow> u8 list \<Rightarrow> bool) \<Rightarrow> bool" where
  "dsa_drivers s V \<longleftrightarrow> (\<forall>ops. Some ops \<in> set (dsa_ops s) \<longrightarrow> dsa_driver ops V)"

text \<open>A hash context is active and belongs to such a driver.\<close>

definition hash_ctx :: "('w, 'z) crypto_scheme \<Rightarrow> (hash_t \<Rightarrow> u8 list \<Rightarrow> u8 list) \<Rightarrow> ('w \<Rightarrow> hash_t \<times> u8 list) \<Rightarrow> bool" where
  "hash_ctx s H st \<longleftrightarrow> (\<exists>ops. current_hash_ops s = Some ops \<and> hash_driver ops H st)"

lemma hash_driverD:
  assumes "hash_driver ops H st"
  shows "ho_init ops alg w = (PB_OK, w') \<Longrightarrow> st w' = (alg, [])"
    and "ho_update ops buf w = (PB_OK, w') \<Longrightarrow> st w' = (fst (st w), snd (st w) @ buf)"
    and "ho_update_async ops = Some f \<Longrightarrow> f buf w = (PB_OK, w') \<Longrightarrow> st w' = (fst (st w), snd (st w) @ buf)"
    and "ho_final ops len w = (PB_OK, d, w') \<Longrightarrow> d = H (fst (st w)) (snd (st w))"
    and "ho_final ops len w = (PB_OK, d, w') \<Longrightarrow> length d = digest_len_of (fst (st w))"
  using assms unfolding hash_driver_def by blast+

lemma dsa_driverD:
  "dsa_driver ops V \<Longrightarrow> do_verify ops sig key alg md w = (PB_OK, Some True, w') \<Longrightarrow>
   V key alg (take (digest_len_of alg) md) sig"
  unfolding dsa_driver_def by blast

lemma find_hash_ops_in: "find_hash_ops alg os = Some ops \<Longrightarrow> Some ops \<in> set os"
  by (induction alg os rule: find_hash_ops.induct) (auto split: if_splits)

lemma find_dsa_ops_in: "find_dsa_ops alg os = Some ops \<Longrightarrow> Some ops \<in> set os"
  by (induction alg os rule: find_dsa_ops.induct) (auto split: if_splits)

lemma hash_init_frame:
  "hash_init alg s = (rc, s') \<Longrightarrow>
   s' = s\<lparr>world := world s', current_hash_ops := current_hash_ops s'\<rparr>"
  by (auto simp: hash_init_def Let_def split: option.splits prod.splits)

lemma hash_init_OK:
  assumes "hash_init alg s = (PB_OK, s')" and "hash_drivers s H st"
  shows "hash_ctx s' H st" and "st (world s') = (alg, [])"
  using assms
  by (auto simp: hash_init_def Let_def hash_drivers_def hash_ctx_def hash_driver_def
      dest!: find_hash_ops_in split: option.splits prod.splits)

lemma hash_update_frame: "hash_update buf s = (rc, s') \<Longrightarrow> s' = s\<lparr>world := world s'\<rparr>"
  by (auto simp: hash_update_def split: option.splits prod.splits)

lemma hash_update_OK:
  assumes "hash_update buf s = (PB_OK, s')" and "hash_ctx s H st"
  shows "hash_ctx s' H st" and "st (world s') = (fst (st (world s)), snd (st (world s)) @ buf)"
  using assms by (auto simp: hash_update_def hash_ctx_def hash_driver_def split: prod.splits)

lemma hash_update_async_frame: "hash_update_async buf s = (rc, s') \<Longrightarrow> s' = s\<lparr>world := world s'\<rparr>"
  by (auto simp: hash_update_async_def split: option.splits prod.splits)

lemma hash_update_async_OK:
  assumes "hash_update_async buf s = (PB_OK, s')" and "hash_ctx s H st"
  shows "hash_ctx s' H st" and "st (world s') = (fst (st (world s)), snd (st (world s)) @ buf)"
  using assms
  by (auto simp: hash_update_async_def hash_ctx_def hash_driver_def split: prod.splits option.splits)

lemma hash_final_frame:
  "hash_final len s = (rc, d, s') \<Longrightarrow> s' = s\<lparr>world := world s', current_hash_ops := current_hash_ops s'\<rparr>"
  by (auto simp: hash_final_def split: option.splits prod.splits)

lemma hash_final_OK:
  assumes "hash_final len s = (PB_OK, d, s')" and "hash_ctx s H st"
  shows "d = H (fst (st (world s))) (snd (st (world s)))" and "length d = digest_len_of (fst (st (world s)))"
proof -
  obtain ops where ops: "current_hash_ops s = Some ops" "hash_driver ops H st"
    using assms(2) by (auto simp: hash_ctx_def)
  then obtain w where "ho_final ops len (world s) = (PB_OK, d, w)"
    using assms(1) by (auto simp: hash_final_def split: prod.splits)
  with hash_driverD(4,5) [OF ops(2)]
  show "d = H (fst (st (world s))) (snd (st (world s)))" "length d = digest_len_of (fst (st (world s)))"
    by blast+
qed

lemma dsa_verify_frame: "dsa_verify alg sig key md_alg md s = (rc, v, s') \<Longrightarrow> s' = s\<lparr>world := world s'\<rparr>"
  by (auto simp: dsa_verify_def split: option.splits prod.splits)

lemma dsa_verify_OK:
  assumes "dsa_verify alg sig key md_alg md s = (PB_OK, Some True, s')" and "dsa_drivers s V"
  shows "V key md_alg (take (digest_len_of md_alg) md) sig"
  using assms
  by (auto simp: dsa_verify_def dsa_drivers_def dest!: find_dsa_ops_in intro: dsa_driverD
      split: option.splits prod.splits)

lemma hash_keeps:
  shows "hash_init alg s = (rc, s') \<Longrightarrow> mem s' = mem s \<and> dsa_ops s' = dsa_ops s \<and> hash_ops s' = hash_ops s"
    and "hash_update buf s = (rc, s') \<Longrightarrow> mem s' = mem s \<and> dsa_ops s' = dsa_ops s \<and> hash_ops s' = hash_ops s"
    and "hash_update_async buf s = (rc, s') \<Longrightarrow> mem s' = mem s \<and> dsa_ops s' = dsa_ops s \<and> hash_ops s' = hash_ops s"
    and "hash_final len s = (rc, d, s') \<Longrightarrow> mem s' = mem s \<and> dsa_ops s' = dsa_ops s \<and> hash_ops s' = hash_ops s"
    and "dsa_verify dalg sig key md_alg md s = (rc, v, s') \<Longrightarrow>
      mem s' = mem s \<and> dsa_ops s' = dsa_ops s \<and> hash_ops s' = hash_ops s"
  by (auto simp: hash_init_def hash_update_def hash_update_async_def hash_final_def dsa_verify_def Let_def
      split: option.splits prod.splits)

text \<open>The state differs at most in the world and in the active hash driver.\<close>

definition crypto_frame :: "('w, 'z) crypto_scheme \<Rightarrow> ('w, 'z) crypto_scheme \<Rightarrow> bool" where
  "crypto_frame s s' \<longleftrightarrow> (\<exists>w c. s' = s\<lparr>world := w, current_hash_ops := c\<rparr>)"

lemma crypto_frame_refl [simp]: "crypto_frame s s"
  unfolding crypto_frame_def by (rule exI [of _ "world s"], rule exI [of _ "current_hash_ops s"]) simp

lemma crypto_frame_trans: "crypto_frame s t \<Longrightarrow> crypto_frame t u \<Longrightarrow> crypto_frame s u"
  unfolding crypto_frame_def by (elim exE) (simp, blast)

lemma crypto_frame_ops:
  shows "hash_init alg s = (rc, s') \<Longrightarrow> crypto_frame s s'"
    and "hash_update buf s = (rc, s') \<Longrightarrow> crypto_frame s s'"
    and "hash_update_async buf s = (rc, s') \<Longrightarrow> crypto_frame s s'"
    and "hash_final len s = (rc, d, s') \<Longrightarrow> crypto_frame s s'"
    and "dsa_verify dalg sig key md_alg md s = (rc, v, s') \<Longrightarrow> crypto_frame s s'"
proof -
  have "crypto_frame s (s\<lparr>world := w\<rparr>)" for w
    unfolding crypto_frame_def by (rule exI [of _ w], rule exI [of _ "current_hash_ops s"]) simp
  then have world: "crypto_frame s s'" if "s' = s\<lparr>world := world s'\<rparr>" using that by metis
  show "hash_init alg s = (rc, s') \<Longrightarrow> crypto_frame s s'" "hash_final len s = (rc, d, s') \<Longrightarrow> crypto_frame s s'"
    unfolding crypto_frame_def using hash_init_frame hash_final_frame by blast+
  show "hash_update buf s = (rc, s') \<Longrightarrow> crypto_frame s s'" "hash_update_async buf s = (rc, s') \<Longrightarrow> crypto_frame s s'"
    "dsa_verify dalg sig key md_alg md s = (rc, v, s') \<Longrightarrow> crypto_frame s s'"
    using hash_update_frame hash_update_async_frame dsa_verify_frame world by blast+
qed

lemma crypto_frame_sel:
  assumes "crypto_frame s s'"
  shows "mem s' = mem s" "bio_pool s' = bio_pool s" "n_bios s' = n_bios s" "hash_ops s' = hash_ops s"
    "dsa_ops s' = dsa_ops s" "crypto.more s' = crypto.more s" "fuse_box s' = fuse_box s" "fuse_dev s' = fuse_dev s"
  using assms by (auto simp: crypto_frame_def)

text \<open>Updates one after the other.\<close>

fun hash_updates :: "u8 list list \<Rightarrow> ('w, 'z) crypto_scheme \<Rightarrow> int \<times> ('w, 'z) crypto_scheme" where
  "hash_updates [] s = (PB_OK, s)"
| "hash_updates (b # bs) s =
     (case hash_update b s of (rc, s) \<Rightarrow> if rc \<noteq> PB_OK then (rc, s) else hash_updates bs s)"

lemma hash_updates_OK:
  assumes "hash_updates bs s = (PB_OK, s')" and "hash_ctx s H st"
  shows "hash_ctx s' H st \<and> st (world s') = (fst (st (world s)), snd (st (world s)) @ concat bs)"
  using assms
proof (induction bs arbitrary: s)
  case (Cons b bs)
  then obtain s1 where s1: "hash_update b s = (PB_OK, s1)" "hash_updates bs s1 = (PB_OK, s')"
    by (auto split: prod.splits if_splits)
  from Cons.IH [OF s1(2) hash_update_OK(1) [OF s1(1) Cons.prems(2)]] hash_update_OK(2) [OF s1(1) Cons.prems(2)]
  show ?case by simp
qed simp

text \<open>
  C26: a hash session computes the digest of everything that was hashed. With drivers for
  the digest function \<open>H\<close>, if \<open>hash_init\<close>, the updates and \<open>hash_final\<close> all report success,
  the digest is \<open>H\<close> of the algorithm and the concatenation of the buffers, and the session
  is closed: a further update is refused.
\<close>

theorem hash_session_digest:
  assumes "hash_drivers s H st"
    and "hash_init alg s = (PB_OK, s1)" and "hash_updates bs s1 = (PB_OK, s2)"
    and "hash_final len s2 = (PB_OK, digest, s3)"
  shows "digest = H alg (concat bs) \<and> length digest = digest_len_of alg \<and>
    hash_update buf s3 = (err PB_ERR_STATE, s3)"
proof -
  note init = hash_init_OK [OF assms(2,1)]
  from hash_updates_OK [OF assms(3) init(1)] init(2)
  have ctx: "hash_ctx s2 H st" and "st (world s2) = (alg, concat bs)" by simp_all
  moreover have "current_hash_ops s3 = None"
    using assms(4) by (auto simp: hash_final_def split: option.splits prod.splits)
  ultimately show ?thesis
    using hash_final_OK [OF assms(4) ctx] by (simp add: hash_update_def)
qed

text \<open>
  A driver whose world is the algorithm and the message; its digest repeats the sum of the
  message.
\<close>

definition sum_hash :: "hash_t \<Rightarrow> u8 list \<Rightarrow> u8 list" where
  "sum_hash alg msg = replicate (digest_len_of alg) (sum_list msg)"

definition sum_hash_ops :: "(hash_t \<times> u8 list) hash_ops" where
  "sum_hash_ops =
     \<lparr>ho_name = ''sum'', ho_alg_bits = 31, ho_init = (\<lambda>alg w. (PB_OK, (alg, []))),
      ho_update = (\<lambda>buf w. (PB_OK, (fst w, snd w @ buf))), ho_update_async = None, ho_copy_update = None,
      ho_final = (\<lambda>len w. (PB_OK, sum_hash (fst w) (snd w), w))\<rparr>"

lemma hash_driver_sum: "hash_driver sum_hash_ops sum_hash id"
  by (auto simp: hash_driver_def sum_hash_ops_def sum_hash_def)

definition sum_crypto :: "(hash_t \<times> u8 list) crypto" where
  "sum_crypto = \<lparr>world = (0, []), mem = (\<lambda>_. 0), bio_pool = [], n_bios = 0, fuse_box = replicate 128 0,
     fuse_dev = 0, dsa_ops = [], no_of_dsa_ops = 0, hash_ops = [Some sum_hash_ops], no_of_hash_ops = 1,
     current_hash_ops = None\<rparr>"

theorem hash_session_digest_witness:
  "\<exists>s1 s2 digest s3. hash_init 4 sum_crypto = (PB_OK, s1) \<and> hash_updates [[1, 2], [3]] s1 = (PB_OK, s2) \<and>
     hash_final 64 s2 = (PB_OK, digest, s3) \<and> digest = replicate 32 6"
proof -
  obtain s1 where 1: "hash_init 4 sum_crypto = (PB_OK, s1)" "current_hash_ops s1 = Some sum_hash_ops"
    by (simp add: hash_init_def sum_crypto_def sum_hash_ops_def Let_def)
  obtain s2 where 2: "hash_updates [[1, 2], [3]] s1 = (PB_OK, s2)" "current_hash_ops s2 = Some sum_hash_ops"
    using 1(2) by (simp add: hash_update_def sum_hash_ops_def)
  obtain digest s3 where 3: "hash_final 64 s2 = (PB_OK, digest, s3)"
    using 2(2) by (simp add: hash_final_def sum_hash_ops_def)
  have "hash_drivers sum_crypto sum_hash id"
    by (simp add: hash_drivers_def sum_crypto_def hash_driver_sum)
  from hash_session_digest [OF this 1(1) 2(1) 3] have "digest = replicate 32 6"
    by (simp add: sum_hash_def digest_len_of_def)
  with 1(1) 2(1) 3 show ?thesis by blast
qed

end
