(* ===== verification/Rot.thy ===== *)
theory Rot
  imports Crypto
begin

text \<open>
  The root of trust \<open>src/rot.c\<close>: the key map of the board, the key store that is linked
  into the boot loader, and key revocation; and the revocation of the test platform,
  \<open>plat/qemu/rot_helpers.c\<close>, which keeps one fuse bit per key.

  The key store is generated by the build; it is the argument \<open>keystore_pb\<close>. The static
  pointer \<open>cfg\<close> is an argument too: \<open>None\<close> before \<open>rot_init\<close> has accepted a
  configuration. The callbacks of the configuration act on the state \<open>'s\<close>.
\<close>

datatype bpak_key_kind =
    BPAK_KEY_INVALID | BPAK_KEY_PUB_RSA4096 | BPAK_KEY_PUB_PRIME256v1 | BPAK_KEY_PUB_SECP384r1
  | BPAK_KEY_PUB_SECP521r1 | BPAK_KEY_PRI_RSA4096 | BPAK_KEY_PRI_PRIME256v1
  | BPAK_KEY_PRI_SECP384r1 | BPAK_KEY_PRI_SECP521r1

record bpak_key =
  k_kind :: bpak_key_kind
  k_size :: u16
  k_id :: u32
  k_data :: "u8 list"

text \<open>The key store; \<open>no_of_keys\<close> is the length of the list.\<close>

type_synonym bpak_keystore = "bpak_key list"

record rot_key =
  rk_name :: string
  rk_id :: key_id_t
  param1 :: u32
  param2 :: u32

record 's rot_config =
  rc_revoke_key :: "(rot_key \<Rightarrow> 's \<Rightarrow> int \<times> 's) option"
  rc_read_key_status :: "(rot_key \<Rightarrow> 's \<Rightarrow> int \<times> 's) option"
  key_map :: "rot_key list"

text \<open>Returns the result and the new value of the static pointer.\<close>

definition rot_init ::
  "bpak_keystore \<Rightarrow> 's rot_config \<Rightarrow> 's rot_config option \<Rightarrow> int \<times> 's rot_config option" where
  "rot_init keystore_pb cfg' cfg =
     (if length keystore_pb \<noteq> length (key_map cfg') then (err PB_ERR_PARAM, cfg)
      else if list_ex (\<lambda>(k, m). k_id k \<noteq> rk_id m) (zip keystore_pb (key_map cfg'))
      then (err PB_ERR_PARAM, cfg)
      else (PB_OK, Some cfg'))"

text \<open>The loops over the key map: the first entry with the identifier.\<close>

fun find_rot_key :: "key_id_t \<Rightarrow> rot_key list \<Rightarrow> rot_key option" where
  "find_rot_key i [] = None"
| "find_rot_key i (k # ks) = (if rk_id k = i then Some k else find_rot_key i ks)"

definition rot_read_key_status :: "'s rot_config option \<Rightarrow> key_id_t \<Rightarrow> 's \<Rightarrow> int \<times> 's" where
  "rot_read_key_status cfg i s =
     (case cfg of None \<Rightarrow> (err PB_ERR_NOT_SUPPORTED, s)
      | Some cfg \<Rightarrow>
          (case rc_read_key_status cfg of None \<Rightarrow> (err PB_ERR_NOT_SUPPORTED, s)
           | Some status \<Rightarrow>
               (case find_rot_key i (key_map cfg) of
                  Some k \<Rightarrow> status k s
                | None \<Rightarrow> (err PB_ERR_KEY_NOT_FOUND, s))))"

text \<open>The result type is \<open>size_t\<close>: the error code is converted.\<close>

definition rot_no_of_keys :: "'s rot_config option \<Rightarrow> u64" where
  "rot_no_of_keys cfg =
     (case cfg of None \<Rightarrow> word_of_int (err PB_ERR_NOT_SUPPORTED)
      | Some cfg \<Rightarrow> of_nat (length (key_map cfg)))"

definition rot_read_key_status_by_idx :: "'s rot_config option \<Rightarrow> u32 \<Rightarrow> 's \<Rightarrow> int \<times> 's" where
  "rot_read_key_status_by_idx cfg index s =
     (case cfg of None \<Rightarrow> (err PB_ERR_NOT_SUPPORTED, s)
      | Some cfg \<Rightarrow>
          (case rc_read_key_status cfg of None \<Rightarrow> (err PB_ERR_NOT_SUPPORTED, s)
           | Some status \<Rightarrow>
               if \<not> unat index < length (key_map cfg) then (err PB_ERR_PARAM, s)
               else status (key_map cfg ! unat index) s))"

definition rot_key_idx_to_id :: "'s rot_config option \<Rightarrow> u32 \<Rightarrow> key_id_t" where
  "rot_key_idx_to_id cfg index =
     (case cfg of None \<Rightarrow> word_of_int (err PB_ERR_NOT_SUPPORTED)
      | Some cfg \<Rightarrow>
          if \<not> unat index < length (key_map cfg) then word_of_int (err PB_ERR_PARAM)
          else rk_id (key_map cfg ! unat index))"

definition rot_revoke_key :: "'s rot_config option \<Rightarrow> key_id_t \<Rightarrow> 's \<Rightarrow> int \<times> 's" where
  "rot_revoke_key cfg i s =
     (case cfg of None \<Rightarrow> (err PB_ERR_NOT_SUPPORTED, s)
      | Some cfg \<Rightarrow>
          (case rc_revoke_key cfg of None \<Rightarrow> (err PB_ERR_NOT_SUPPORTED, s)
           | Some revoke \<Rightarrow>
               (case find_rot_key i (key_map cfg) of
                  Some k \<Rightarrow> revoke k s
                | None \<Rightarrow> (err PB_ERR_KEY_NOT_FOUND, s))))"

fun find_bpak_key :: "key_id_t \<Rightarrow> bpak_keystore \<Rightarrow> bpak_key option" where
  "find_bpak_key i [] = None"
| "find_bpak_key i (k # ks) = (if k_id k = i then Some k else find_bpak_key i ks)"

text \<open>The second component is what is stored to \<open>*dsa_kind\<close> and the key data.\<close>

definition rot_get_dsa_key ::
  "bpak_keystore \<Rightarrow> 's rot_config option \<Rightarrow> key_id_t \<Rightarrow> 's \<Rightarrow> int \<times> (dsa_t \<times> u8 list) option \<times> 's" where
  "rot_get_dsa_key keystore_pb cfg i s =
     (case cfg of None \<Rightarrow> (err PB_ERR_NOT_SUPPORTED, None, s)
      | Some c \<Rightarrow>
          if length (key_map c) = 0 then (err PB_ERR_NOT_SUPPORTED, None, s)
          else (case rot_read_key_status cfg i s of (rc, s) \<Rightarrow>
            if rc \<noteq> PB_OK then (rc, None, s)
            else (case find_bpak_key i keystore_pb of
                    None \<Rightarrow> (err PB_ERR_KEY_NOT_FOUND, None, s)
                  | Some key \<Rightarrow>
                      let data = take (unat (k_size key)) (k_data key) in
                      (case k_kind key of
                         BPAK_KEY_PUB_PRIME256v1 \<Rightarrow> (PB_OK, Some (DSA_EC_SECP256r1, data), s)
                       | BPAK_KEY_PUB_SECP384r1 \<Rightarrow> (PB_OK, Some (DSA_EC_SECP384r1, data), s)
                       | BPAK_KEY_PUB_SECP521r1 \<Rightarrow> (PB_OK, Some (DSA_EC_SECP521r1, data), s)
                       | _ \<Rightarrow> (err PB_ERR_NOT_SUPPORTED, None, s)))))"

subsection \<open>The fuses of the test platform\<close>

abbreviation (input) FUSE_REVOKE :: u16 where "FUSE_REVOKE \<equiv> 8"

definition qemu_revoke_key :: "rot_key \<Rightarrow> ('w, 'z) fuse_scheme \<Rightarrow> int \<times> ('w, 'z) fuse_scheme" where
  "qemu_revoke_key key s = test_fuse_write 8 (push_bit (unat (param1 key)) 1) s"

definition qemu_read_key_status :: "rot_key \<Rightarrow> ('w, 'z) fuse_scheme \<Rightarrow> int \<times> ('w, 'z) fuse_scheme" where
  "qemu_read_key_status key s =
     (let val = test_fuse_read FUSE_REVOKE s in
      if word_of_int val AND push_bit (unat (param1 key)) (1 :: u32) \<noteq> 0
      then (err PB_ERR_KEY_REVOKED, s) else (PB_OK, s))"

subsection \<open>The revocation interface\<close>

text \<open>
  What \<open>rot.c\<close> relies on: reading the status of a key changes nothing, a key that is not
  usable never becomes usable again by a revocation, and a key that was revoked is
  reported as revoked, even if the call reported an error.
\<close>

fun revoke_all :: "(rot_key \<Rightarrow> 's \<Rightarrow> int \<times> 's) \<Rightarrow> rot_key list \<Rightarrow> 's \<Rightarrow> 's" where
  "revoke_all revoke [] s = s"
| "revoke_all revoke (k # ks) s = revoke_all revoke ks (snd (revoke k s))"

locale revocation =
  fixes inv :: "'s \<Rightarrow> bool" and key_ok :: "rot_key \<Rightarrow> bool"
    and revoke :: "rot_key \<Rightarrow> 's \<Rightarrow> int \<times> 's" and status :: "rot_key \<Rightarrow> 's \<Rightarrow> int \<times> 's"
  assumes status_pure: "snd (status k s) = s"
    and inv_revoke: "inv s \<Longrightarrow> inv (snd (revoke k s))"
    and status_revoke_self: "inv s \<Longrightarrow> key_ok k \<Longrightarrow> fst (status k (snd (revoke k s))) = err PB_ERR_KEY_REVOKED"
    and status_monotone: "inv s \<Longrightarrow> fst (status k s) \<noteq> PB_OK \<Longrightarrow> fst (status k (snd (revoke k' s))) = fst (status k s)"
begin

lemma inv_revoke_all: "inv s \<Longrightarrow> inv (revoke_all revoke ks s)"
  by (induction ks arbitrary: s) (simp_all add: inv_revoke)

lemma status_revoke_all:
  "inv s \<Longrightarrow> fst (status k s) \<noteq> PB_OK \<Longrightarrow> fst (status k (revoke_all revoke ks s)) = fst (status k s)"
  by (induction ks arbitrary: s) (simp_all add: status_monotone inv_revoke)

text \<open>A key revoked through \<open>rot_revoke_key\<close> is never handed out again.\<close>

lemma revoked_key_is_refused:
  assumes "inv s" and "find_rot_key i (key_map cfg) = Some k" and "key_ok k"
    and "rc_revoke_key cfg = Some revoke" and "rc_read_key_status cfg = Some status"
    and "s' = revoke_all revoke others (snd (rot_revoke_key (Some cfg) i s))"
  shows "rot_get_dsa_key ks (Some cfg) i s' = (err PB_ERR_KEY_REVOKED, None, s')"
proof -
  have r: "snd (rot_revoke_key (Some cfg) i s) = snd (revoke k s)"
    using assms(2,4) by (simp add: rot_revoke_key_def)
  have "fst (status k s') = err PB_ERR_KEY_REVOKED"
    unfolding assms(6) r
    using status_revoke_all [OF inv_revoke [OF assms(1)]] status_revoke_self [OF assms(1,3)] by simp
  then have "status k s' = (err PB_ERR_KEY_REVOKED, s')"
    using status_pure [of k s'] by (metis prod.collapse)
  then show ?thesis
    using assms(2,5) by (cases "key_map cfg") (simp_all add: rot_get_dsa_key_def rot_read_key_status_def)
qed

end

definition fuse_key_ok :: "rot_key \<Rightarrow> bool" where
  "fuse_key_ok k \<longleftrightarrow> unat (param1 k) < 32"

lemma and_or_nonzero: "a AND m \<noteq> 0 \<Longrightarrow> (a OR v) AND m \<noteq> (0 :: 'a::len word)"
  by (simp add: bit.conj_disj_distrib2 or_eq_0_iff)

lemma or_and_absorb: "(a OR m) AND m = (m :: 'a::len word)"
  by (simp add: and.commute [of _ m] or.commute [of a m])

lemma push_bit_1_nonzero: "n < 32 \<Longrightarrow> push_bit n 1 \<noteq> (0 :: u32)"
  by (simp add: push_bit_of_1 exp_eq_zero_iff)

lemma qemu_read_key_status_eq:
  "qemu_read_key_status k s =
     (if fuse_box s ! 8 AND push_bit (unat (param1 k)) 1 \<noteq> 0 then (err PB_ERR_KEY_REVOKED, s) else (PB_OK, s))"
  by (simp add: qemu_read_key_status_def Let_def test_fuse_read_word)

lemma fuse_box_revoke:
  "fuse_box (snd (qemu_revoke_key k s)) =
   (fuse_box s)[8 := fuse_box s ! 8 OR push_bit (unat (param1 k)) 1]"
  by (simp add: qemu_revoke_key_def fuse_box_write)

interpretation qemu_rot: revocation "\<lambda>s. length (fuse_box s) = 128" fuse_key_ok qemu_revoke_key qemu_read_key_status
proof
  fix k k' :: rot_key and s :: "('a, 'b) fuse_scheme"
  show "snd (qemu_read_key_status k s) = s" by (simp add: qemu_read_key_status_eq)
  assume "length (fuse_box s) = 128"
  then show "length (fuse_box (snd (qemu_revoke_key k s))) = 128" by (simp add: fuse_box_revoke)
  assume len: "length (fuse_box s) = 128"
  {
    assume "fuse_key_ok k"
    with len show "fst (qemu_read_key_status k (snd (qemu_revoke_key k s))) = err PB_ERR_KEY_REVOKED"
      by (simp add: qemu_read_key_status_eq fuse_box_revoke fuse_key_ok_def or_and_absorb push_bit_1_nonzero)
  next
    assume "fst (qemu_read_key_status k s) \<noteq> PB_OK"
    with len show "fst (qemu_read_key_status k (snd (qemu_revoke_key k' s))) = fst (qemu_read_key_status k s)"
      by (auto simp: qemu_read_key_status_eq fuse_box_revoke and_or_nonzero split: if_splits)
  }
qed

text \<open>The root of trust configuration of the test board.\<close>

definition test_key_map :: "rot_key list" where
  "test_key_map =
     [\<lparr>rk_name = ''pb-development'', rk_id = 0xa90f9680, param1 = 0, param2 = 0\<rparr>,
      \<lparr>rk_name = ''pb-development2'', rk_id = 0x25c6dd36, param1 = 1, param2 = 0\<rparr>,
      \<lparr>rk_name = ''pb-development3'', rk_id = 0x52c1eda0, param1 = 2, param2 = 0\<rparr>]"

definition test_rot_config :: "('w, 'z) fuse_scheme rot_config" where
  "test_rot_config =
     \<lparr>rc_revoke_key = Some qemu_revoke_key, rc_read_key_status = Some qemu_read_key_status,
      key_map = test_key_map\<rparr>"

text \<open>
  C15: a revoked key stays revoked. After \<open>rot_revoke_key\<close> was called for one of the
  keys of the test board, and any further keys were revoked, \<open>rot_get_dsa_key\<close> refuses
  the key with \<open>PB_ERR_KEY_REVOKED\<close> and hands out no key data, even if writing the
  fuses to the block device failed.
\<close>

theorem revoked_key_is_never_used:
  assumes "length (fuse_box s) = 128" and "i \<in> rk_id ` set test_key_map"
  shows "rot_get_dsa_key keystore (Some test_rot_config) i
      (revoke_all qemu_revoke_key others (snd (rot_revoke_key (Some test_rot_config) i s))) =
    (err PB_ERR_KEY_REVOKED, None,
     revoke_all qemu_revoke_key others (snd (rot_revoke_key (Some test_rot_config) i s)))"
proof -
  obtain k where k: "find_rot_key i test_key_map = Some k" "fuse_key_ok k"
    using assms(2) by (auto simp: test_key_map_def fuse_key_ok_def)
  show ?thesis
    by (rule qemu_rot.revoked_key_is_refused [OF assms(1) _ k(2) _ _ refl])
       (simp_all add: test_rot_config_def k(1))
qed

theorem revoked_key_is_never_used_witness:
  "fst (rot_get_dsa_key [] (Some test_rot_config) 0xa90f9680
     (snd (rot_revoke_key (Some test_rot_config) 0xa90f9680 ram_fuse))) = err PB_ERR_KEY_REVOKED"
  using revoked_key_is_never_used [where s = ram_fuse and i = "0xa90f9680" and keystore = "[]" and others = "[]"]
  by (simp add: test_key_map_def)

end
