(* ===== verification/Slc.thy ===== *)
theory Slc
  imports Rot
begin

text \<open>
  The security life cycle \<open>src/slc.c\<close> and its implementation on the test platform,
  \<open>plat/qemu/slc_helpers.c\<close>, where two fuse bits hold the state. The static pointer
  \<open>cfg\<close> of \<open>slc.c\<close> is an argument. Calling a \<open>NULL\<close> callback, which the code does
  not rule out in \<open>slc_set_eol\<close>, is the result \<open>None\<close>.
\<close>

abbreviation (input) SLC_INVALID :: int where "SLC_INVALID \<equiv> 0"
abbreviation (input) SLC_NOT_CONFIGURED :: int where "SLC_NOT_CONFIGURED \<equiv> 1"
abbreviation (input) SLC_CONFIGURATION :: int where "SLC_CONFIGURATION \<equiv> 2"
abbreviation (input) SLC_CONFIGURATION_LOCKED :: int where "SLC_CONFIGURATION_LOCKED \<equiv> 3"
abbreviation (input) SLC_EOL :: int where "SLC_EOL \<equiv> 4"

record 's slc_config =
  sc_read_status :: "('s \<Rightarrow> int \<times> 's) option"
  sc_set_configuration :: "('s \<Rightarrow> int \<times> 's) option"
  sc_set_configuration_locked :: "('s \<Rightarrow> int \<times> 's) option"
  sc_set_eol :: "('s \<Rightarrow> int \<times> 's) option"

definition slc_init :: "'s slc_config \<Rightarrow> int \<times> 's slc_config option" where
  "slc_init cfg = (PB_OK, Some cfg)"

definition slc_read_status :: "'s slc_config option \<Rightarrow> 's \<Rightarrow> int \<times> 's" where
  "slc_read_status cfg s =
     (case cfg of None \<Rightarrow> (err PB_ERR_NOT_SUPPORTED, s)
      | Some cfg \<Rightarrow> (case sc_read_status cfg of None \<Rightarrow> (err PB_ERR_NOT_SUPPORTED, s) | Some f \<Rightarrow> f s))"

definition slc_set_configuration :: "'s slc_config option \<Rightarrow> 's \<Rightarrow> int \<times> 's" where
  "slc_set_configuration cfg s =
     (case cfg of None \<Rightarrow> (err PB_ERR_NOT_SUPPORTED, s)
      | Some cfg \<Rightarrow> (case sc_set_configuration cfg of None \<Rightarrow> (err PB_ERR_NOT_SUPPORTED, s) | Some f \<Rightarrow> f s))"

definition slc_set_configuration_locked :: "'s slc_config option \<Rightarrow> 's \<Rightarrow> int \<times> 's" where
  "slc_set_configuration_locked cfg s =
     (case cfg of None \<Rightarrow> (err PB_ERR_NOT_SUPPORTED, s)
      | Some cfg \<Rightarrow>
          (case sc_set_configuration_locked cfg of None \<Rightarrow> (err PB_ERR_NOT_SUPPORTED, s) | Some f \<Rightarrow> f s))"

text \<open>The guard tests \<open>set_configuration_locked\<close>, the call goes to \<open>set_eol\<close>.\<close>

definition slc_set_eol :: "'s slc_config option \<Rightarrow> 's \<Rightarrow> (int \<times> 's) option" where
  "slc_set_eol cfg s =
     (case cfg of None \<Rightarrow> Some (err PB_ERR_NOT_SUPPORTED, s)
      | Some cfg \<Rightarrow>
          (case sc_set_configuration_locked cfg of
             None \<Rightarrow> Some (err PB_ERR_NOT_SUPPORTED, s)
           | Some _ \<Rightarrow> (case sc_set_eol cfg of None \<Rightarrow> None | Some f \<Rightarrow> Some (f s))))"

abbreviation (input) FUSE_SEC :: u16 where "FUSE_SEC \<equiv> 9"
abbreviation (input) SEC_CONF_LOCKED :: u32 where "SEC_CONF_LOCKED \<equiv> 1"
abbreviation (input) SEC_CONF_EOL :: u32 where "SEC_CONF_EOL \<equiv> 2"

definition qemu_slc_read_status :: "('w, 'z) fuse_scheme \<Rightarrow> int \<times> ('w, 'z) fuse_scheme" where
  "qemu_slc_read_status s =
     (let val = word_of_int (test_fuse_read FUSE_SEC s) in
      if val AND SEC_CONF_EOL \<noteq> 0 then (SLC_EOL, s)
      else if val AND SEC_CONF_LOCKED \<noteq> 0 then (SLC_CONFIGURATION_LOCKED, s)
      else (SLC_CONFIGURATION, s))"

definition qemu_slc_set_configuration_locked :: "('w, 'z) fuse_scheme \<Rightarrow> int \<times> ('w, 'z) fuse_scheme" where
  "qemu_slc_set_configuration_locked s = test_fuse_write FUSE_SEC SEC_CONF_LOCKED s"

definition qemu_slc_set_eol :: "('w, 'z) fuse_scheme \<Rightarrow> int \<times> ('w, 'z) fuse_scheme" where
  "qemu_slc_set_eol s = test_fuse_write FUSE_SEC SEC_CONF_EOL s"

subsection \<open>The life cycle only moves forward\<close>

text \<open>
  What the command mode relies on: the status is one of the states of the enumeration,
  reading it changes nothing, and the two transitions never lead to an earlier state and
  reach the state they are named after.
\<close>

locale life_cycle =
  fixes inv :: "'s \<Rightarrow> bool" and status :: "'s \<Rightarrow> int \<times> 's"
    and lock :: "'s \<Rightarrow> int \<times> 's" and eol :: "'s \<Rightarrow> int \<times> 's"
  assumes status_pure: "snd (status s) = s"
    and status_range: "fst (status s) \<in> {SLC_NOT_CONFIGURED .. SLC_EOL}"
    and inv_lock: "inv s \<Longrightarrow> inv (snd (lock s))" and inv_eol: "inv s \<Longrightarrow> inv (snd (eol s))"
    and lock_forward: "inv s \<Longrightarrow> fst (status (snd (lock s))) \<ge> max (fst (status s)) SLC_CONFIGURATION_LOCKED"
    and eol_final: "inv s \<Longrightarrow> fst (status (snd (eol s))) = SLC_EOL"
begin

lemma never_unlocks:
  assumes "inv s" and "fst (status s) \<ge> SLC_CONFIGURATION_LOCKED"
  shows "fst (status (fold (\<lambda>to_eol s. if to_eol then snd (eol s) else snd (lock s)) ts s))
    \<ge> fst (status s)"
  using assms
proof (induction ts arbitrary: s)
  case Nil
  then show ?case by simp
next
  case (Cons t ts)
  let ?s = "if t then snd (eol s) else snd (lock s)"
  have inv: "inv ?s" using Cons.prems(1) by (simp add: inv_lock inv_eol)
  have le: "fst (status s) \<le> fst (status ?s)"
    using lock_forward [OF Cons.prems(1)] eol_final [OF Cons.prems(1)] status_range [of s] by auto
  then have "fst (status ?s) \<le> fst (status (fold (\<lambda>to_eol s. if to_eol then snd (eol s) else snd (lock s)) ts ?s))"
    using Cons.prems(2) by (intro Cons.IH inv) simp
  with le show ?case by (simp only: fold_simps)
qed

end

lemma qemu_slc_read_status_eq:
  "qemu_slc_read_status s =
     (if fuse_box s ! 9 AND 2 \<noteq> 0 then (SLC_EOL, s)
      else if fuse_box s ! 9 AND 1 \<noteq> 0 then (SLC_CONFIGURATION_LOCKED, s) else (SLC_CONFIGURATION, s))"
  by (simp add: qemu_slc_read_status_def Let_def test_fuse_read_word)

interpretation qemu_slc: life_cycle "\<lambda>s. length (fuse_box s) = 128"
    qemu_slc_read_status qemu_slc_set_configuration_locked qemu_slc_set_eol
proof
  fix s :: "('a, 'b) fuse_scheme"
  show "snd (qemu_slc_read_status s) = s" "fst (qemu_slc_read_status s) \<in> {SLC_NOT_CONFIGURED .. SLC_EOL}"
    by (simp_all add: qemu_slc_read_status_eq)
  assume len: "length (fuse_box s) = 128"
  then show "length (fuse_box (snd (qemu_slc_set_configuration_locked s))) = 128"
    "length (fuse_box (snd (qemu_slc_set_eol s))) = 128"
    by (simp_all add: qemu_slc_set_configuration_locked_def qemu_slc_set_eol_def)
  have "(fuse_box s ! 9 OR 1) AND 1 = (1 :: u32)" "(fuse_box s ! 9 OR 2) AND 2 = (2 :: u32)"
    by (rule or_and_absorb)+
  with len show "max (fst (qemu_slc_read_status s)) SLC_CONFIGURATION_LOCKED
      \<le> fst (qemu_slc_read_status (snd (qemu_slc_set_configuration_locked s)))"
    "fst (qemu_slc_read_status (snd (qemu_slc_set_eol s))) = SLC_EOL"
    by (simp_all add: qemu_slc_read_status_eq qemu_slc_set_configuration_locked_def qemu_slc_set_eol_def
        fuse_box_write and_or_nonzero)
qed

text \<open>
  C21: a locked device is never unlocked. Once the life cycle of the test platform is
  \<open>SLC_CONFIGURATION_LOCKED\<close> or \<open>SLC_EOL\<close>, no sequence of the two transitions leads to
  an earlier state, whether or not the fuse writes succeed.
\<close>

theorem locked_device_stays_locked:
  assumes "length (fuse_box s) = 128" and "fst (qemu_slc_read_status s) \<ge> SLC_CONFIGURATION_LOCKED"
  shows "fst (qemu_slc_read_status (fold (\<lambda>to_eol s. if to_eol then snd (qemu_slc_set_eol s)
      else snd (qemu_slc_set_configuration_locked s)) ts s)) \<ge> fst (qemu_slc_read_status s)"
  using assms by (rule qemu_slc.never_unlocks)

theorem locked_device_stays_locked_witness:
  "fst (qemu_slc_read_status (snd (qemu_slc_set_configuration_locked
     (ram_fuse\<lparr>fuse_box := (replicate 128 0)[9 := 2]\<rparr>)))) = SLC_EOL"
proof -
  let ?s = "ram_fuse\<lparr>fuse_box := (replicate 128 0)[9 := 2]\<rparr>"
  have "fst (qemu_slc_read_status ?s) = SLC_EOL" by (simp add: qemu_slc_read_status_eq)
  with locked_device_stays_locked [of ?s "[False]"] qemu_slc.status_range [of "snd (qemu_slc_set_configuration_locked ?s)"]
  show ?thesis by simp
qed


end
