(* ===== verification/Bpak.thy ===== *)
theory Bpak
  imports Pb_Prelude
begin

text \<open>
  The bit packer library \<open>src/lib/bpak.c\<close>: the 4096 byte header of an image with its
  metadata and part tables. The packed structs are records with codecs; a pointer into the
  metadata or part array of a header is an index. An access outside of the \<open>metadata\<close>
  array, which C leaves undefined, is the result \<open>None\<close>.
\<close>

subsection \<open>Data\<close>

datatype bpak_errors =
    BPAK_FAILED | BPAK_NOT_FOUND | BPAK_SIZE_ERROR | BPAK_NO_SPACE_LEFT | BPAK_BAD_ALIGNMENT
  | BPAK_SEEK_ERROR | BPAK_NOT_SUPPORTED | BPAK_NEEDS_MORE_DATA | BPAK_WRITE_ERROR
  | BPAK_DECOMPRESSOR_ERROR | BPAK_COMPRESSOR_ERROR | BPAK_PATCH_READ_ORIGIN_ERROR
  | BPAK_PATCH_WRITE_ERROR | BPAK_READ_ERROR | BPAK_BAD_MAGIC | BPAK_UNSUPPORTED_HASH_ALG
  | BPAK_BUFFER_TOO_SMALL | BPAK_FILE_NOT_FOUND | BPAK_KEY_DECODE | BPAK_VERIFY_FAIL
  | BPAK_SIGN_FAIL | BPAK_UNSUPPORTED_KEY | BPAK_BAD_ROOT_HASH | BPAK_BAD_PAYLOAD_HASH
  | BPAK_MISSING_META_DATA | BPAK_PACKAGE_UUID_MISMATCH | BPAK_UNSUPPORTED_COMPRESSION
  | BPAK_KEY_NOT_FOUND | BPAK_KEYSTORE_ID_MISMATCH | BPAK_EXISTS

fun bpak_errno :: "bpak_errors \<Rightarrow> int" where
  "bpak_errno BPAK_FAILED = 1"
| "bpak_errno BPAK_NOT_FOUND = 2"
| "bpak_errno BPAK_SIZE_ERROR = 3"
| "bpak_errno BPAK_NO_SPACE_LEFT = 4"
| "bpak_errno BPAK_BAD_ALIGNMENT = 5"
| "bpak_errno BPAK_SEEK_ERROR = 6"
| "bpak_errno BPAK_NOT_SUPPORTED = 7"
| "bpak_errno BPAK_NEEDS_MORE_DATA = 8"
| "bpak_errno BPAK_WRITE_ERROR = 9"
| "bpak_errno BPAK_DECOMPRESSOR_ERROR = 10"
| "bpak_errno BPAK_COMPRESSOR_ERROR = 11"
| "bpak_errno BPAK_PATCH_READ_ORIGIN_ERROR = 12"
| "bpak_errno BPAK_PATCH_WRITE_ERROR = 13"
| "bpak_errno BPAK_READ_ERROR = 14"
| "bpak_errno BPAK_BAD_MAGIC = 15"
| "bpak_errno BPAK_UNSUPPORTED_HASH_ALG = 16"
| "bpak_errno BPAK_BUFFER_TOO_SMALL = 17"
| "bpak_errno BPAK_FILE_NOT_FOUND = 18"
| "bpak_errno BPAK_KEY_DECODE = 19"
| "bpak_errno BPAK_VERIFY_FAIL = 20"
| "bpak_errno BPAK_SIGN_FAIL = 21"
| "bpak_errno BPAK_UNSUPPORTED_KEY = 22"
| "bpak_errno BPAK_BAD_ROOT_HASH = 23"
| "bpak_errno BPAK_BAD_PAYLOAD_HASH = 24"
| "bpak_errno BPAK_MISSING_META_DATA = 25"
| "bpak_errno BPAK_PACKAGE_UUID_MISMATCH = 26"
| "bpak_errno BPAK_UNSUPPORTED_COMPRESSION = 27"
| "bpak_errno BPAK_KEY_NOT_FOUND = 28"
| "bpak_errno BPAK_KEYSTORE_ID_MISMATCH = 29"
| "bpak_errno BPAK_EXISTS = 30"

abbreviation (input) BPAK_OK :: int where "BPAK_OK \<equiv> 0"
abbreviation (input) berr :: "bpak_errors \<Rightarrow> int" where "berr e \<equiv> - bpak_errno e"

lemma bpak_errno_pos [simp]: "0 < bpak_errno e"
  by (cases e) simp_all

lemma bpak_errno_inj: "bpak_errno a = bpak_errno b \<Longrightarrow> a = b"
  by (cases a; cases b) simp_all

abbreviation (input) BPAK_HEADER_MAGIC :: u32 where "BPAK_HEADER_MAGIC \<equiv> 0x42504132"
abbreviation (input) BPAK_MAX_PARTS :: nat where "BPAK_MAX_PARTS \<equiv> 32"
abbreviation (input) BPAK_MAX_META :: nat where "BPAK_MAX_META \<equiv> 32"
abbreviation (input) BPAK_METADATA_BYTES :: nat where "BPAK_METADATA_BYTES \<equiv> 1920"
abbreviation (input) BPAK_PART_ALIGN :: u64 where "BPAK_PART_ALIGN \<equiv> 512"
abbreviation (input) BPAK_SIGNATURE_MAX_BYTES :: nat where "BPAK_SIGNATURE_MAX_BYTES \<equiv> 512"
abbreviation (input) BPAK_FLAG_TRANSPORT :: u8 where "BPAK_FLAG_TRANSPORT \<equiv> 2"

abbreviation (input) BPAK_HASH_SHA256 :: u8 where "BPAK_HASH_SHA256 \<equiv> 1"
abbreviation (input) BPAK_HASH_SHA384 :: u8 where "BPAK_HASH_SHA384 \<equiv> 2"
abbreviation (input) BPAK_HASH_SHA512 :: u8 where "BPAK_HASH_SHA512 \<equiv> 3"

abbreviation (input) BPAK_SIGN_RSA4096 :: u8 where "BPAK_SIGN_RSA4096 \<equiv> 1"
abbreviation (input) BPAK_SIGN_PRIME256v1 :: u8 where "BPAK_SIGN_PRIME256v1 \<equiv> 2"
abbreviation (input) BPAK_SIGN_SECP384r1 :: u8 where "BPAK_SIGN_SECP384r1 \<equiv> 3"
abbreviation (input) BPAK_SIGN_SECP521r1 :: u8 where "BPAK_SIGN_SECP521r1 \<equiv> 4"

type_synonym bpak_id_t = u32

record bpak_part_header =
  p_id :: bpak_id_t
  p_size :: u64
  p_offset :: u64
  p_transport_size :: u64
  p_pad_bytes :: u16
  p_flags :: u8
  p_pad :: u8

record bpak_meta_header =
  m_id :: bpak_id_t
  m_size :: u16
  m_offset :: u16
  m_part_id_ref :: bpak_id_t
  m_pad :: "u8 list"

record bpak_header =
  magic :: u32
  pad0 :: "u8 list"
  meta :: "bpak_meta_header list"
  parts :: "bpak_part_header list"
  metadata :: "u8 list"
  hash_kind :: u8
  signature_kind :: u8
  alignment :: u16
  payload_hash :: "u8 list"
  key_id :: u32
  keystore_id :: u32
  pad1 :: "u8 list"
  signature :: "u8 list"
  signature_sz :: u16

text \<open>The structs in memory.\<close>

definition enc_part :: "bpak_part_header \<Rightarrow> u8 list" where
  "enc_part p = le_bytes 4 (p_id p) @ le_bytes 8 (p_size p) @ le_bytes 8 (p_offset p) @
     le_bytes 8 (p_transport_size p) @ le_bytes 2 (p_pad_bytes p) @ [p_flags p] @ [p_pad p]"

definition dec_part :: "u8 list \<Rightarrow> bpak_part_header" where
  "dec_part bs =
     \<lparr>p_id = le_word (window 0 4 bs), p_size = le_word (window 4 8 bs), p_offset = le_word (window 12 8 bs),
      p_transport_size = le_word (window 20 8 bs), p_pad_bytes = le_word (window 28 2 bs),
      p_flags = bs ! 30, p_pad = bs ! 31\<rparr>"

definition enc_meta :: "bpak_meta_header \<Rightarrow> u8 list" where
  "enc_meta m = le_bytes 4 (m_id m) @ le_bytes 2 (m_size m) @ le_bytes 2 (m_offset m) @
     le_bytes 4 (m_part_id_ref m) @ m_pad m"

definition dec_meta :: "u8 list \<Rightarrow> bpak_meta_header" where
  "dec_meta bs =
     \<lparr>m_id = le_word (window 0 4 bs), m_size = le_word (window 4 2 bs), m_offset = le_word (window 6 2 bs),
      m_part_id_ref = le_word (window 8 4 bs), m_pad = window 12 4 bs\<rparr>"

definition enc_header :: "bpak_header \<Rightarrow> u8 list" where
  "enc_header h = le_bytes 4 (magic h) @ pad0 h @ enc_array enc_meta (meta h) @
     enc_array enc_part (parts h) @ metadata h @ [hash_kind h] @ [signature_kind h] @
     le_bytes 2 (alignment h) @ payload_hash h @ le_bytes 4 (key_id h) @ le_bytes 4 (keystore_id h) @
     pad1 h @ signature h @ le_bytes 2 (signature_sz h)"

definition dec_header :: "u8 list \<Rightarrow> bpak_header" where
  "dec_header bs =
     \<lparr>magic = le_word (window 0 4 bs), pad0 = window 4 4 bs,
      meta = dec_array dec_meta 16 32 (window 8 512 bs),
      parts = dec_array dec_part 32 32 (window 520 1024 bs),
      metadata = window 1544 1920 bs, hash_kind = bs ! 3464, signature_kind = bs ! 3465,
      alignment = le_word (window 3466 2 bs), payload_hash = window 3468 64 bs,
      key_id = le_word (window 3532 4 bs), keystore_id = le_word (window 3536 4 bs),
      pad1 = window 3540 42 bs, signature = window 3582 512 bs,
      signature_sz = le_word (window 4094 2 bs)\<rparr>"

definition meta_wf :: "bpak_meta_header \<Rightarrow> bool" where
  "meta_wf m \<longleftrightarrow> length (m_pad m) = 4"

definition header_wf :: "bpak_header \<Rightarrow> bool" where
  "header_wf h \<longleftrightarrow> length (pad0 h) = 4 \<and> (length (meta h) = 32 \<and> list_all meta_wf (meta h)) \<and>
     (length (parts h) = 32 \<and> list_all (\<lambda>_. True) (parts h)) \<and> length (metadata h) = 1920 \<and>
     length (payload_hash h) = 64 \<and> length (pad1 h) = 42 \<and> length (signature h) = 512"

interpretation part: codec enc_part dec_part 32 "\<lambda>_. True"
proof
  fix bs :: "u8 list" assume "length bs = 32"
  then show "enc_part (dec_part bs) = bs"
    by (simp add: enc_part_def dec_part_def window_1 window_glues)
qed (simp_all add: enc_part_def dec_part_def window_simps nth_append)

interpretation metah: codec enc_meta dec_meta 16 meta_wf
proof
  fix bs :: "u8 list" assume "length bs = 16"
  then show "enc_meta (dec_meta bs) = bs"
    by (simp add: enc_meta_def dec_meta_def window_glues)
qed (simp_all add: enc_meta_def dec_meta_def meta_wf_def window_simps)

interpretation part_array: codec "enc_array enc_part" "dec_array dec_part 32 32" 1024
    "\<lambda>xs. length xs = 32 \<and> list_all (\<lambda>_. True) xs"
  using part.codec_array [of 32] by simp

interpretation meta_array: codec "enc_array enc_meta" "dec_array dec_meta 16 32" 512
    "\<lambda>xs. length xs = 32 \<and> list_all meta_wf xs"
  using metah.codec_array [of 32] by simp

lemma enc_header_lengths:
  assumes "header_wf h"
  shows "length (pad0 h) = 4" "length (enc_array enc_meta (meta h)) = 512"
    "length (enc_array enc_part (parts h)) = 1024" "length (metadata h) = 1920"
    "length (payload_hash h) = 64" "length (pad1 h) = 42" "length (signature h) = 512"
    "dec_array dec_meta 16 32 (enc_array enc_meta (meta h)) = meta h"
    "dec_array dec_part 32 32 (enc_array enc_part (parts h)) = parts h"
  using assms meta_array.length_enc [of "meta h"] part_array.length_enc [of "parts h"]
    meta_array.dec_enc [of "meta h"] part_array.dec_enc [of "parts h"]
  by (simp_all add: header_wf_def)

interpretation header: codec enc_header dec_header 4096 header_wf
proof
  fix h assume "header_wf h"
  note len = enc_header_lengths [OF this]
  show "length (enc_header h) = 4096" by (simp add: enc_header_def len)
  show "dec_header (enc_header h) = h"
    by (simp add: enc_header_def dec_header_def len window_simps nth_append)
next
  fix bs :: "u8 list" assume len: "length bs = 4096"
  then have "length (window 8 512 bs) = 512" "length (window 520 1024 bs) = 1024" by simp_all
  note arr = meta_array.enc_dec [OF this(1)] part_array.enc_dec [OF this(2)]
    meta_array.wf_dec [OF this(1)] part_array.wf_dec [OF this(2)]
  show "header_wf (dec_header bs)"
    using len arr(3,4) by (simp add: header_wf_def dec_header_def)
  show "enc_header (dec_header bs) = bs"
    using len by (simp add: enc_header_def dec_header_def arr(1,2) window_1 window_glues)
qed

subsection \<open>Operations\<close>

text \<open>\<open>bpak_foreach_meta\<close> and \<open>bpak_foreach_part\<close> are recursions over the arrays.\<close>

fun get_meta_from :: "bpak_id_t \<Rightarrow> bpak_id_t \<Rightarrow> bool \<Rightarrow> nat \<Rightarrow> bpak_meta_header list \<Rightarrow> int \<times> nat option" where
  "get_meta_from i ref match_partref k [] = (berr BPAK_NOT_FOUND, None)"
| "get_meta_from i ref match_partref k (m # ms) =
     (if m_id m = i then
        (if match_partref then
           (if m_part_id_ref m \<noteq> ref then get_meta_from i ref match_partref (k + 1) ms
            else (BPAK_OK, Some k))
         else (BPAK_OK, Some k))
      else get_meta_from i ref match_partref (k + 1) ms)"

definition bpak_get_meta_int :: "bpak_header \<Rightarrow> bpak_id_t \<Rightarrow> bpak_id_t \<Rightarrow> bool \<Rightarrow> int \<times> nat option" where
  "bpak_get_meta_int hdr i ref match_partref = get_meta_from i ref match_partref 0 (meta hdr)"

definition bpak_get_meta :: "bpak_header \<Rightarrow> bpak_id_t \<Rightarrow> bpak_id_t \<Rightarrow> int \<times> nat option" where
  "bpak_get_meta hdr i ref = bpak_get_meta_int hdr i ref True"

definition bpak_get_meta_anyref :: "bpak_header \<Rightarrow> bpak_id_t \<Rightarrow> int \<times> nat option" where
  "bpak_get_meta_anyref hdr i = bpak_get_meta_int hdr i 0 False"

text \<open>\<open>BPAK_META_ALIGN_SIZE\<close>, assigned to a 16 bit variable.\<close>

definition meta_align_size :: "u16 \<Rightarrow> u16" where
  "meta_align_size x = ucast ((ucast x + 7 :: u32) AND NOT 7)"

fun add_meta_from ::
  "bpak_id_t \<Rightarrow> bpak_id_t \<Rightarrow> u16 \<Rightarrow> nat \<Rightarrow> u16 \<Rightarrow> bpak_meta_header list \<Rightarrow> int \<times> nat option \<times> bpak_meta_header list" where
  "add_meta_from i ref sz k new_offset [] = (berr BPAK_NO_SPACE_LEFT, None, [])"
| "add_meta_from i ref sz k new_offset (m # ms) =
     (if m_id m = 0 then
        (let m = m\<lparr>m_id := i, m_offset := new_offset, m_size := sz, m_part_id_ref := ref\<rparr> in
         if unat (m_offset m) + unat (m_size m) > BPAK_METADATA_BYTES
         then (berr BPAK_NO_SPACE_LEFT, None, m # ms)
         else (BPAK_OK, Some k, m # ms))
      else if m_id m = i \<and> m_part_id_ref m = ref then (berr BPAK_EXISTS, None, m # ms)
      else (case add_meta_from i ref sz (k + 1) (meta_align_size (new_offset + m_size m)) ms of
              (rc, r, ms') \<Rightarrow> (rc, r, m # ms')))"

definition bpak_add_meta ::
  "bpak_header \<Rightarrow> bpak_id_t \<Rightarrow> bpak_id_t \<Rightarrow> u16 \<Rightarrow> int \<times> nat option \<times> bpak_header" where
  "bpak_add_meta hdr i ref sz =
     (case add_meta_from i ref sz 0 0 (meta hdr) of (rc, r, ms) \<Rightarrow> (rc, r, hdr\<lparr>meta := ms\<rparr>))"

definition meta_zero :: bpak_meta_header where
  "meta_zero = \<lparr>m_id = 0, m_size = 0, m_offset = 0, m_part_id_ref = 0, m_pad = replicate 4 0\<rparr>"

definition part_zero :: bpak_part_header where
  "part_zero = \<lparr>p_id = 0, p_size = 0, p_offset = 0, p_transport_size = 0, p_pad_bytes = 0, p_flags = 0, p_pad = 0\<rparr>"

text \<open>
  \<open>memset(next_meta, 0, sizeof *next_meta)\<close>. Behind the last of the 32 metadata headers
  stands the part array, whose first 16 bytes are then the ones cleared.
\<close>

definition clear_meta :: "nat \<Rightarrow> bpak_header \<Rightarrow> bpak_header" where
  "clear_meta k hdr =
     (if k < BPAK_MAX_META then hdr\<lparr>meta := (meta hdr)[k := meta_zero]\<rparr>
      else hdr\<lparr>parts := (parts hdr)[0 := (parts hdr ! 0)
             \<lparr>p_id := 0, p_size := 0, p_offset := p_offset (parts hdr ! 0) AND NOT 0xffffffff\<rparr>]\<rparr>)"

text \<open>The move of one metadata block towards the start of the array.\<close>

definition move_metadata :: "u16 \<Rightarrow> nat \<Rightarrow> bpak_header \<Rightarrow> bpak_header option" where
  "move_metadata adj k hdr =
     (let m = meta hdr ! k; off = unat (m_offset m); n = unat (m_size m) in
      if off < unat adj \<or> off + n > BPAK_METADATA_BYTES then None
      else Some (hdr\<lparr>metadata := blit off (replicate n 0)
                       (blit (off - unat adj) (window off n (metadata hdr)) (metadata hdr)),
                     meta := (meta hdr)[k := m\<lparr>m_offset := m_offset m - adj\<rparr>]\<rparr>))"

text \<open>The loop, with \<open>n\<close> entries behind \<open>meta\<close>: \<open>meta\<close> is entry \<open>31 - n\<close>.\<close>

fun del_meta_loop :: "u16 \<Rightarrow> nat \<Rightarrow> bpak_header \<Rightarrow> bpak_header option" where
  "del_meta_loop adj 0 hdr = Some (clear_meta BPAK_MAX_META hdr)"
| "del_meta_loop adj (Suc n) hdr =
     (let k = 31 - Suc n; next_meta = k + 1 in
      case (if m_id (meta hdr ! next_meta) \<noteq> 0 then move_metadata adj next_meta hdr else Some hdr) of
        None \<Rightarrow> None
      | Some hdr \<Rightarrow>
          let hdr = hdr\<lparr>meta := (meta hdr)[k := meta hdr ! next_meta]\<rparr> in
          if m_id (meta hdr ! k) = 0 then Some (clear_meta next_meta hdr)
          else del_meta_loop adj n hdr)"

definition bpak_del_meta :: "bpak_header \<Rightarrow> nat \<Rightarrow> bpak_header option" where
  "bpak_del_meta hdr k = del_meta_loop (meta_align_size (m_size (meta hdr ! k))) (31 - k) hdr"

fun get_part_from :: "bpak_id_t \<Rightarrow> nat \<Rightarrow> bpak_part_header list \<Rightarrow> int \<times> nat option" where
  "get_part_from i k [] = (berr BPAK_NOT_FOUND, None)"
| "get_part_from i k (p # ps) = (if p_id p = i then (BPAK_OK, Some k) else get_part_from i (k + 1) ps)"

definition bpak_get_part :: "bpak_header \<Rightarrow> bpak_id_t \<Rightarrow> int \<times> nat option" where
  "bpak_get_part hdr i = get_part_from i 0 (parts hdr)"

fun add_part_from ::
  "bpak_id_t \<Rightarrow> nat \<Rightarrow> bpak_part_header list \<Rightarrow> int \<times> nat option \<times> bpak_part_header list" where
  "add_part_from i k [] = (berr BPAK_NO_SPACE_LEFT, None, [])"
| "add_part_from i k (p # ps) =
     (if p_id p = 0 then (BPAK_OK, Some k, p\<lparr>p_id := i\<rparr> # ps)
      else if p_id p = i then (berr BPAK_EXISTS, None, p # ps)
      else (case add_part_from i (k + 1) ps of (rc, r, ps') \<Rightarrow> (rc, r, p # ps')))"

definition bpak_add_part :: "bpak_header \<Rightarrow> bpak_id_t \<Rightarrow> int \<times> nat option \<times> bpak_header" where
  "bpak_add_part hdr i =
     (case add_part_from i 0 (parts hdr) of (rc, r, ps) \<Rightarrow> (rc, r, hdr\<lparr>parts := ps\<rparr>))"

text \<open>The loop, with \<open>n\<close> entries behind \<open>part\<close>.\<close>

fun del_part_loop :: "nat \<Rightarrow> bpak_part_header list \<Rightarrow> bpak_part_header list" where
  "del_part_loop 0 ps = ps[31 := part_zero]"
| "del_part_loop (Suc n) ps =
     (let k = 31 - Suc n; ps = ps[k := ps ! (k + 1)] in
      if p_id (ps ! k) = 0 then ps[k := part_zero] else del_part_loop n ps)"

definition bpak_del_part :: "bpak_header \<Rightarrow> nat \<Rightarrow> bpak_header" where
  "bpak_del_part hdr k = hdr\<lparr>parts := del_part_loop (31 - k) (parts hdr)\<rparr>"

definition bpak_init_header :: bpak_header where
  "bpak_init_header =
     \<lparr>magic = BPAK_HEADER_MAGIC, pad0 = replicate 4 0, meta = replicate 32 meta_zero,
      parts = replicate 32 part_zero, metadata = replicate 1920 0, hash_kind = BPAK_HASH_SHA256,
      signature_kind = BPAK_SIGN_PRIME256v1, alignment = 512, payload_hash = replicate 64 0,
      key_id = 0, keystore_id = 0, pad1 = replicate 42 0, signature = replicate 512 0, signature_sz = 0\<rparr>"

definition bpak_part_size :: "bpak_part_header \<Rightarrow> u64" where
  "bpak_part_size p =
     (if p_flags p AND BPAK_FLAG_TRANSPORT \<noteq> 0 then p_transport_size p
      else p_size p + ucast (p_pad_bytes p))"

definition bpak_part_size_wo_pad :: "bpak_part_header \<Rightarrow> u64" where
  "bpak_part_size_wo_pad p =
     (if p_flags p AND BPAK_FLAG_TRANSPORT \<noteq> 0 then p_transport_size p else p_size p)"

fun part_offset_from :: "bpak_id_t \<Rightarrow> u64 \<Rightarrow> bpak_part_header list \<Rightarrow> u64" where
  "part_offset_from i offset [] = offset"
| "part_offset_from i offset (p # ps) =
     (if p_id p = 0 then offset
      else if p_id p = i then offset
      else part_offset_from i (offset + bpak_part_size p) ps)"

definition bpak_part_offset :: "bpak_header \<Rightarrow> bpak_part_header \<Rightarrow> u64" where
  "bpak_part_offset h p = part_offset_from (p_id p) 4096 (parts h)"

fun parts_aligned :: "bpak_part_header list \<Rightarrow> bool" where
  "parts_aligned [] = True"
| "parts_aligned (p # ps) =
     (if p_id p = 0 then True
      else if (p_size p + ucast (p_pad_bytes p)) mod BPAK_PART_ALIGN \<noteq> 0 then False
      else parts_aligned ps)"

fun metas_in_bounds :: "bpak_meta_header list \<Rightarrow> bool" where
  "metas_in_bounds [] = True"
| "metas_in_bounds (m # ms) =
     (if m_id m = 0 then True
      else if unat (m_size m) + unat (m_offset m) > BPAK_METADATA_BYTES then False
      else metas_in_bounds ms)"

definition bpak_valid_header :: "bpak_header \<Rightarrow> int" where
  "bpak_valid_header hdr =
     (if magic hdr \<noteq> BPAK_HEADER_MAGIC then berr BPAK_BAD_MAGIC
      else if \<not> parts_aligned (parts hdr) then berr BPAK_BAD_ALIGNMENT
      else if \<not> metas_in_bounds (meta hdr) then berr BPAK_SIZE_ERROR
      else if hash_kind hdr = 0 then berr BPAK_NOT_SUPPORTED
      else BPAK_OK)"

text \<open>Returns the bytes copied to \<open>signature\<close> and the new value of \<open>*size\<close>.\<close>

definition bpak_copyz_signature ::
  "bpak_header \<Rightarrow> u64 \<Rightarrow> int \<times> u8 list \<times> u64 \<times> bpak_header" where
  "bpak_copyz_signature h sz =
     (if unat (signature_sz h) > BPAK_SIGNATURE_MAX_BYTES then (berr BPAK_SIZE_ERROR, [], sz, h)
      else if signature_sz h = 0 then (berr BPAK_SIZE_ERROR, [], sz, h)
      else if ucast (signature_sz h) > sz then (berr BPAK_SIZE_ERROR, [], sz, h)
      else (BPAK_OK, take (unat (signature_sz h)) (signature h), ucast (signature_sz h),
            h\<lparr>signature := replicate 512 0, signature_sz := 0\<rparr>))"

text \<open>
  \<open>bpak_get_meta_ptr\<close> to a 64 bit value, read through the pointer. The metadata array
  starts at byte 1544 of the header; a pointer that leaves the header gives \<open>None\<close>.
\<close>

definition bpak_get_meta_u64 :: "bpak_header \<Rightarrow> bpak_meta_header \<Rightarrow> u64 option" where
  "bpak_get_meta_u64 hdr m =
     (let i = 1544 + unat (m_offset m) in
      if i + 8 \<le> 4096 then Some (le_word (window i 8 (enc_header hdr))) else None)"

definition bpak_set_key_id :: "bpak_header \<Rightarrow> u32 \<Rightarrow> int \<times> bpak_header" where
  "bpak_set_key_id hdr k = (BPAK_OK, hdr\<lparr>key_id := k\<rparr>)"

definition bpak_set_keystore_id :: "bpak_header \<Rightarrow> u32 \<Rightarrow> int \<times> bpak_header" where
  "bpak_set_keystore_id hdr k = (BPAK_OK, hdr\<lparr>keystore_id := k\<rparr>)"

text \<open>
  The metadata entry is added with \<open>sizeof(*meta)\<close>, the 16 bytes of a metadata header; the
  two identifiers are its first 8 bytes.
\<close>

definition bpak_add_transport_meta ::
  "bpak_header \<Rightarrow> bpak_id_t \<Rightarrow> u32 \<Rightarrow> u32 \<Rightarrow> int \<times> bpak_header" where
  "bpak_add_transport_meta hdr part_id encoder_id decoder_id =
     (case bpak_add_meta hdr 0x2d44bbfb part_id 16 of
        (rc, r, hdr) \<Rightarrow>
          if rc \<noteq> BPAK_OK then (rc, hdr)
          else case r of None \<Rightarrow> (rc, hdr)
          | Some k \<Rightarrow>
              (BPAK_OK, hdr\<lparr>metadata := blit (unat (m_offset (meta hdr ! k)))
                 (le_bytes 4 encoder_id @ le_bytes 4 decoder_id) (metadata hdr)\<rparr>))"

definition bpak_error_string :: "int \<Rightarrow> string" where
  "bpak_error_string code =
     (if code = BPAK_OK then ''OK''
      else if code = berr BPAK_FAILED then ''Failed''
      else if code = berr BPAK_NOT_FOUND then ''Not found''
      else if code = berr BPAK_SIZE_ERROR then ''Size error''
      else if code = berr BPAK_NO_SPACE_LEFT then ''No space left''
      else if code = berr BPAK_BAD_ALIGNMENT then ''Bad alignment''
      else if code = berr BPAK_SEEK_ERROR then ''Seek error''
      else if code = berr BPAK_NOT_SUPPORTED then ''Not supported''
      else if code = berr BPAK_NEEDS_MORE_DATA then ''Needs more data''
      else if code = berr BPAK_WRITE_ERROR then ''Write error''
      else if code = berr BPAK_DECOMPRESSOR_ERROR then ''Decompressor error''
      else if code = berr BPAK_COMPRESSOR_ERROR then ''Compressor error''
      else if code = berr BPAK_PATCH_READ_ORIGIN_ERROR then ''Patch read origin error''
      else if code = berr BPAK_PATCH_WRITE_ERROR then ''Patch write error''
      else if code = berr BPAK_READ_ERROR then ''Read error''
      else if code = berr BPAK_BAD_MAGIC then ''Bad magic''
      else if code = berr BPAK_UNSUPPORTED_HASH_ALG then ''Unsupported hash algorithm''
      else if code = berr BPAK_BUFFER_TOO_SMALL then ''Buffer too small''
      else if code = berr BPAK_FILE_NOT_FOUND then ''File not found''
      else if code = berr BPAK_KEY_DECODE then ''Could not decode key''
      else if code = berr BPAK_VERIFY_FAIL then ''Verification failed''
      else if code = berr BPAK_SIGN_FAIL then ''Signing failed''
      else if code = berr BPAK_UNSUPPORTED_KEY then ''Unsupported key''
      else if code = berr BPAK_BAD_ROOT_HASH then ''Bad root hash''
      else if code = berr BPAK_BAD_PAYLOAD_HASH then ''Bad payload hash''
      else if code = berr BPAK_MISSING_META_DATA then ''Missing meta data''
      else if code = berr BPAK_PACKAGE_UUID_MISMATCH then ''Package UUID mismatch''
      else if code = berr BPAK_UNSUPPORTED_COMPRESSION then ''Unsupported compression method''
      else if code = berr BPAK_KEY_NOT_FOUND then ''Key not found''
      else if code = berr BPAK_KEYSTORE_ID_MISMATCH then ''Keystore id mismatch''
      else if code = berr BPAK_EXISTS then ''Object exists''
      else ''Unknown'')"

definition bpak_signature_kind :: "u8 \<Rightarrow> string" where
  "bpak_signature_kind k =
     (if k = BPAK_SIGN_PRIME256v1 then ''prime256v1''
      else if k = BPAK_SIGN_SECP384r1 then ''secp384r1''
      else if k = BPAK_SIGN_SECP521r1 then ''secp521r1''
      else if k = BPAK_SIGN_RSA4096 then ''rsa4096''
      else ''Unknown'')"

definition bpak_hash_kind :: "u8 \<Rightarrow> string" where
  "bpak_hash_kind k =
     (if k = BPAK_HASH_SHA256 then ''sha256''
      else if k = BPAK_HASH_SHA384 then ''sha384''
      else if k = BPAK_HASH_SHA512 then ''sha512''
      else ''Unknown'')"

subsection \<open>The header in memory\<close>


lemma header_wf_init: "header_wf bpak_init_header"
  by (simp add: header_wf_def bpak_init_header_def meta_wf_def meta_zero_def list_all_length)


lemma bpak_get_meta_u64_eq:
  assumes "header_wf h" and "unat (m_offset m) + 8 \<le> 1920"
  shows "bpak_get_meta_u64 h m = Some (le_word (window (unat (m_offset m)) 8 (metadata h)))"
  using assms(2) enc_header_lengths [OF assms(1)]
  by (simp add: bpak_get_meta_u64_def Let_def enc_header_def window_simps)

text \<open>Copying the signature out zeroes the last 514 bytes of the header and nothing else.\<close>

lemma enc_header_zero_signature:
  assumes "header_wf h"
  shows "enc_header (h\<lparr>signature := replicate 512 0, signature_sz := 0\<rparr>) =
    take 3582 (enc_header h) @ replicate 514 0"
proof -
  have "le_bytes 2 (0 :: u16) = replicate 2 0" by (simp add: numeral_2_eq_2)
  then have "replicate 512 0 @ le_bytes 2 (0 :: u16) = replicate 514 (0 :: u8)"
    by (simp flip: replicate_add)
  then show ?thesis
    using enc_header_lengths [OF assms] by (simp add: enc_header_def)
qed

lemma bpak_copyz_signature_cases:
  obtains (bad) "bpak_copyz_signature h sz = (berr BPAK_SIZE_ERROR, [], sz, h)"
  | (ok) "bpak_copyz_signature h sz = (BPAK_OK, take (unat (signature_sz h)) (signature h),
      ucast (signature_sz h), h\<lparr>signature := replicate 512 0, signature_sz := 0\<rparr>)"
    "signature_sz h \<noteq> 0" "unat (signature_sz h) \<le> 512" "unat (signature_sz h) \<le> unat sz"
proof (cases "unat (signature_sz h) > 512 \<or> signature_sz h = 0 \<or> unat (signature_sz h) > unat sz")
  case True
  then show ?thesis by (intro bad) (auto simp: bpak_copyz_signature_def word_less_nat_alt)
next
  case False
  then show ?thesis by (intro ok) (auto simp: bpak_copyz_signature_def word_less_nat_alt)
qed

subsection \<open>Part and metadata tables\<close>

lemma get_part_from_eq:
  "get_part_from i k ps =
   (if i \<in> p_id ` set ps then (BPAK_OK, Some (k + length (takeWhile (\<lambda>p. p_id p \<noteq> i) ps)))
    else (berr BPAK_NOT_FOUND, None))"
  by (induction ps arbitrary: k) auto

text \<open>The parts a header lists: the entries before the first free one.\<close>

abbreviation used_parts :: "bpak_part_header list \<Rightarrow> bpak_part_header list" where
  "used_parts \<equiv> takeWhile (\<lambda>p. p_id p \<noteq> 0)"

lemma add_part_from_eq:
  "add_part_from i k ps =
   (if i \<in> p_id ` set (used_parts ps) then (berr BPAK_EXISTS, None, ps)
    else if length (used_parts ps) = length ps then (berr BPAK_NO_SPACE_LEFT, None, ps)
    else (BPAK_OK, Some (k + length (used_parts ps)),
          ps[length (used_parts ps) := (ps ! length (used_parts ps))\<lparr>p_id := i\<rparr>]))"
  by (induction ps arbitrary: k) auto

lemma del_part_loop_eq:
  assumes "length xs + length us + length rest = 31"
    and "list_all (\<lambda>p. p_id p \<noteq> 0) us" and "rest = [] \<or> p_id (hd rest) = 0"
  shows "del_part_loop (length us + length rest) (xs @ p # us @ rest) = xs @ us @ part_zero # rest"
  using assms
proof (induction us arbitrary: xs p)
  case Nil
  show ?case
  proof (cases rest)
    case Nil
    with Nil.prems have "length xs = 31" by simp
    with Nil show ?thesis by (simp add: list_update_append)
  next
    case (Cons q qs)
    with Nil.prems have "31 - Suc (length qs) = length xs" by auto
    with Cons Nil.prems show ?thesis by (simp add: Let_def nth_append list_update_append)
  qed
next
  case (Cons u us)
  then have k: "31 - Suc (length us + length rest) = length xs" by auto
  have "del_part_loop (length (u # us) + length rest) (xs @ p # (u # us) @ rest) =
      del_part_loop (length us + length rest) ((xs @ [u]) @ u # us @ rest)"
    using k Cons.prems by (simp add: Let_def nth_append list_update_append)
  also have "\<dots> = (xs @ [u]) @ us @ part_zero # rest"
    using Cons.prems by (intro Cons.IH) auto
  finally show ?case by simp
qed

lemma used_parts_split:
  obtains rest where "ps = used_parts ps @ rest" "rest = [] \<or> p_id (hd rest) = 0"
    "list_all (\<lambda>p. p_id p \<noteq> 0) (used_parts ps)"
proof
  show "ps = used_parts ps @ dropWhile (\<lambda>p. p_id p \<noteq> 0) ps" by simp
  show "dropWhile (\<lambda>p. p_id p \<noteq> 0) ps = [] \<or> p_id (hd (dropWhile (\<lambda>p. p_id p \<noteq> 0) ps)) = 0"
    using hd_dropWhile [of "\<lambda>p. p_id p \<noteq> 0" ps] by auto
  show "list_all (\<lambda>p. p_id p \<noteq> 0) (used_parts ps)"
    by (auto simp: list_all_iff dest: set_takeWhileD)
qed

text \<open>
  deleting entry \<open>k\<close> of the parts a header lists removes exactly this entry: the
  others keep their order, the freed entry is cleared, and the free entries are as before.
  After that the part is not found any more if its identifier was unique.
\<close>

theorem bpak_del_part_removes:
  assumes "length (parts hdr) = 32" and "k < length (used_parts (parts hdr))"
  shows "parts (bpak_del_part hdr k) =
      take k (used_parts (parts hdr)) @ drop (Suc k) (used_parts (parts hdr)) @
      part_zero # drop (length (used_parts (parts hdr))) (parts hdr) \<and>
    length (parts (bpak_del_part hdr k)) = 32"
proof -
  define us where "us = used_parts (parts hdr)"
  obtain rest where r: "parts hdr = us @ rest" "rest = [] \<or> p_id (hd rest) = 0"
      "list_all (\<lambda>p. p_id p \<noteq> 0) us"
    using used_parts_split [of "parts hdr"] unfolding us_def by metis
  have us: "us = take k us @ us ! k # drop (Suc k) us"
    using assms(2) unfolding us_def [symmetric] by (rule id_take_nth_drop)
  have k: "k < length us" using assms(2) by (simp add: us_def)
  have len: "length us + length rest = 32" using r(1) assms(1) by simp
  have "list_all (\<lambda>p. p_id p \<noteq> 0) (drop (Suc k) us)"
    using r(3) by (auto simp: list_all_iff dest: in_set_dropD)
  then have "del_part_loop (length (drop (Suc k) us) + length rest)
        (take k us @ us ! k # drop (Suc k) us @ rest) = take k us @ drop (Suc k) us @ part_zero # rest"
    using k len r(2) by (intro del_part_loop_eq) auto
  moreover have "parts hdr = take k us @ us ! k # drop (Suc k) us @ rest"
    using r(1) us by (metis append.assoc append_Cons)
  moreover have "length (drop (Suc k) us) + length rest = 31 - k" using k len by simp
  ultimately have "del_part_loop (31 - k) (parts hdr) = take k us @ drop (Suc k) us @ part_zero # rest"
    by metis
  moreover have "drop (length us) (parts hdr) = rest" using r(1) by simp
  ultimately show ?thesis
    unfolding us_def [symmetric] bpak_del_part_def using k len by simp
qed

text \<open>
  A part that was added is found, with the other parts unchanged. \<open>bpak_add_part\<close>
  succeeds exactly when the identifier is not listed and an entry is free; it then fills the
  first free entry, where \<open>bpak_get_part\<close> finds the part.
\<close>

theorem bpak_add_part_get_part:
  "(fst (bpak_add_part hdr i) = BPAK_OK \<longleftrightarrow>
      i \<notin> p_id ` set (used_parts (parts hdr)) \<and> (\<exists>p \<in> set (parts hdr). p_id p = 0)) \<and>
    (fst (bpak_add_part hdr i) = BPAK_OK \<longrightarrow>
      (let k = length (used_parts (parts hdr)); hdr' = snd (snd (bpak_add_part hdr i)) in
       fst (snd (bpak_add_part hdr i)) = Some k \<and>
       parts hdr' = (parts hdr)[k := (parts hdr ! k)\<lparr>p_id := i\<rparr>] \<and>
       bpak_get_part hdr' i = (BPAK_OK, Some k)))"
proof -
  let ?k = "length (used_parts (parts hdr))"
  have free: "(\<exists>p \<in> set (parts hdr). p_id p = 0) \<longleftrightarrow> ?k \<noteq> length (parts hdr)"
    (is "?free \<longleftrightarrow> _")
  proof
    assume ?free
    then obtain p where "p \<in> set (parts hdr)" "\<not> p_id p \<noteq> 0" by blast
    then have "?k < length (parts hdr)" by (rule takeWhile_stops)
    then show "?k \<noteq> length (parts hdr)" by simp
  next
    assume "?k \<noteq> length (parts hdr)"
    then show ?free by (rule contrapos_np) (simp add: takeWhile_all)
  qed
  have "get_part_from i 0 ((parts hdr)[?k := (parts hdr ! ?k)\<lparr>p_id := i\<rparr>]) = (BPAK_OK, Some ?k)"
    if "i \<notin> p_id ` set (used_parts (parts hdr))" and "?k \<noteq> length (parts hdr)"
  proof -
    have k: "?k < length (parts hdr)" using that(2) by (simp add: length_takeWhile_le le_neq_implies_less)
    have split: "(parts hdr)[?k := (parts hdr ! ?k)\<lparr>p_id := i\<rparr>] =
        used_parts (parts hdr) @ (parts hdr ! ?k)\<lparr>p_id := i\<rparr> # drop (Suc ?k) (parts hdr)"
      using upd_conv_take_nth_drop [OF k] takeWhile_eq_take [of "\<lambda>p. p_id p \<noteq> 0" "parts hdr"] by metis
    have "takeWhile (\<lambda>p. p_id p \<noteq> i) (used_parts (parts hdr)) = used_parts (parts hdr)"
      using that(1) by (intro takeWhile_all) auto
    then show ?thesis
      unfolding split get_part_from_eq using that(1) by (auto simp: takeWhile_append2 image_Un)
  qed
  then show ?thesis
    by (auto simp: bpak_add_part_def bpak_get_part_def add_part_from_eq Let_def free)
qed

text \<open>A header with the two parts 7 and 8.\<close>

definition two_parts :: bpak_header where
  "two_parts = bpak_init_header\<lparr>parts := part_zero\<lparr>p_id := 7, p_size := 512\<rparr> #
     part_zero\<lparr>p_id := 8, p_size := 1024\<rparr> # replicate 30 part_zero\<rparr>"

lemma used_parts_two_parts:
  "used_parts (parts two_parts) = [part_zero\<lparr>p_id := 7, p_size := 512\<rparr>, part_zero\<lparr>p_id := 8, p_size := 1024\<rparr>]"
  "length (parts two_parts) = 32"
  by (simp_all add: two_parts_def part_zero_def)

theorem bpak_del_part_removes_witness:
  "parts (bpak_del_part two_parts 0) = part_zero\<lparr>p_id := 8, p_size := 1024\<rparr> # replicate 31 part_zero"
  using bpak_del_part_removes [of two_parts 0]
  by (simp add: used_parts_two_parts) (simp add: two_parts_def flip: replicate_Suc)

theorem bpak_add_part_get_part_witness:
  "bpak_get_part (snd (snd (bpak_add_part two_parts 9))) 9 = (BPAK_OK, Some 2)"
  using bpak_add_part_get_part [of two_parts 9]
  by (auto simp: used_parts_two_parts Let_def) (auto simp: two_parts_def part_zero_def)

text \<open>
  The layout \<open>bpak_add_meta\<close> keeps: the blocks of the listed entries follow each other
  from \<open>o\<close> on, each aligned to 8 bytes, inside of the metadata array.
\<close>

fun packed :: "u16 \<Rightarrow> bpak_meta_header list \<Rightarrow> bool" where
  "packed o' [] = True"
| "packed o' (m # ms) = (m_id m = 0 \<or>
     m_offset m = o' \<and> unat o' + unat (m_size m) \<le> 1920 \<and> packed (meta_align_size (o' + m_size m)) ms)"

abbreviation used_metas :: "bpak_meta_header list \<Rightarrow> bpak_meta_header list" where
  "used_metas \<equiv> takeWhile (\<lambda>m. m_id m \<noteq> 0)"

lemma bit_7: "bit (7 :: u32) n \<longleftrightarrow> n < 3"
proof -
  have "(7 :: u32) = mask 3" by (simp add: mask_eq_exp_minus_1)
  then show ?thesis by (simp only: bit_mask_iff) (auto simp: possible_bit_word)
qed

lemma and_not_7: "w AND NOT 7 = push_bit 3 (drop_bit 3 (w :: u32))"
proof (rule bit_word_eqI)
  fix n assume "n < LENGTH(32)"
  then show "bit (w AND NOT 7) n = bit (push_bit 3 (drop_bit 3 w)) n"
    by (auto simp only: bit_and_iff bit_not_iff bit_7 bit_push_bit_iff bit_drop_bit_eq possible_bit_word o_def) auto
qed

lemma unat_meta_align_size:
  assumes "unat x \<le> 1920"
  shows "unat (meta_align_size x) = (unat x + 7) div 8 * 8"
proof -
  let ?w = "ucast x + 7 :: u32"
  have w: "unat ?w = unat x + 7" using assms by (subst unat_plus_no_wrap) simp_all
  have "unat (push_bit 3 (drop_bit 3 ?w)) = (unat x + 7) div 8 * 8"
  proof -
    have d: "unat (?w div 8) = (unat x + 7) div 8" by (simp add: unat_div w)
    have "unat (?w div 8 * 8) = unat (?w div 8) * unat (8 :: u32)"
      by (rule unat_mult_lem [THEN iffD1]) (use d assms in simp)
    with d show ?thesis by (simp add: push_bit_eq_mult drop_bit_eq_div)
  qed
  then show ?thesis
    unfolding meta_align_size_def and_not_7 unsigned_ucast_eq using assms
    by (simp add: take_bit_nat_eq_self)
qed

lemma packed_next:
  assumes "unat a + unat b \<le> 1920"
  shows "unat a + unat b \<le> unat (meta_align_size (a + b))" and "unat (meta_align_size (a + b)) \<le> 1920"
    and "8 dvd unat (meta_align_size (a + b))"
proof -
  have "unat (a + b) = unat a + unat b" using assms by (subst unat_plus_no_wrap) simp_all
  then have e: "unat (meta_align_size (a + b)) = (unat a + unat b + 7) div 8 * 8"
    using assms by (simp add: unat_meta_align_size)
  show "unat a + unat b \<le> unat (meta_align_size (a + b))" unfolding e by presburger
  show "unat (meta_align_size (a + b)) \<le> 1920" unfolding e using assms by presburger
  show "8 dvd unat (meta_align_size (a + b))" unfolding e by simp
qed

lemma packed_sorted:
  assumes "packed o' ms"
  shows "sorted_wrt (\<lambda>a b. unat (m_offset a) + unat (m_size a) \<le> unat (m_offset b)) (used_metas ms)"
    and "list_all (\<lambda>m. unat o' \<le> unat (m_offset m) \<and> unat (m_offset m) + unat (m_size m) \<le> 1920) (used_metas ms)"
proof -
  have "sorted_wrt (\<lambda>a b. unat (m_offset a) + unat (m_size a) \<le> unat (m_offset b)) (used_metas ms) \<and>
    list_all (\<lambda>m. unat o' \<le> unat (m_offset m) \<and> unat (m_offset m) + unat (m_size m) \<le> 1920) (used_metas ms)"
    using assms
  proof (induction o' ms rule: packed.induct)
    case (2 o' m ms)
    show ?case
    proof (cases "m_id m = 0")
      case False
      then have o': "m_offset m = o'" "unat o' + unat (m_size m) \<le> 1920"
        "packed (meta_align_size (o' + m_size m)) ms"
        using 2(2) by auto
      with 2(1) False packed_next(1) [OF o'(2)] show ?thesis
        by (auto simp: list_all_iff)
    qed simp
  qed simp
  then show "sorted_wrt (\<lambda>a b. unat (m_offset a) + unat (m_size a) \<le> unat (m_offset b)) (used_metas ms)"
    "list_all (\<lambda>m. unat o' \<le> unat (m_offset m) \<and> unat (m_offset m) + unat (m_size m) \<le> 1920) (used_metas ms)"
    by blast+
qed

definition meta_inv :: "bpak_meta_header list \<Rightarrow> bool" where
  "meta_inv ms \<longleftrightarrow> packed 0 ms \<and> list_all (\<lambda>m. m_id m = 0) (dropWhile (\<lambda>m. m_id m \<noteq> 0) ms)"

lemma add_meta_from_OK:
  assumes "add_meta_from i ref sz k o' ms = (BPAK_OK, r, ms')" and "packed o' ms" and "i \<noteq> 0"
    and "list_all (\<lambda>m. m_id m = 0) (dropWhile (\<lambda>m. m_id m \<noteq> 0) ms)" and "8 dvd unat o'"
  shows "\<exists>us m rest. ms = us @ m # rest \<and> list_all (\<lambda>m. m_id m \<noteq> 0) us \<and>
     list_all (\<lambda>m. m_id m = 0) (m # rest) \<and> r = Some (k + length us) \<and>
     (\<exists>off. ms' = us @ m\<lparr>m_id := i, m_offset := off, m_size := sz, m_part_id_ref := ref\<rparr> # rest \<and>
        8 dvd unat off) \<and>
     list_all (\<lambda>m. m_id m \<noteq> i \<or> m_part_id_ref m \<noteq> ref) us \<and> packed o' ms'"
  using assms
proof (induction ms arbitrary: k o' ms')
  case Nil
  then show ?case by simp
next
  case (Cons m ms)
  show ?case
  proof (cases "m_id m = 0")
    case True
    then have m': "ms' = m\<lparr>m_id := i, m_offset := o', m_size := sz, m_part_id_ref := ref\<rparr> # ms"
      "unat o' + unat sz \<le> 1920" "r = Some k"
      using Cons.prems(1) by (auto simp: Let_def split: if_splits)
    moreover have "packed (meta_align_size (o' + sz)) ms"
      using Cons.prems(4) True by (cases ms) simp_all
    ultimately show ?thesis
      using True Cons.prems(3-5) by (intro exI [of _ "[]"] exI [of _ m] exI [of _ ms]) auto
  next
    case False
    let ?o = "meta_align_size (o' + m_size m)"
    from False Cons.prems(1) obtain ms'' where r: "add_meta_from i ref sz (k + 1) ?o ms = (BPAK_OK, r, ms'')"
        "ms' = m # ms''" "m_id m \<noteq> i \<or> m_part_id_ref m \<noteq> ref"
      by (auto split: if_splits prod.splits)
    have p: "m_offset m = o'" "unat o' + unat (m_size m) \<le> 1920" "packed ?o ms"
      using Cons.prems(2) False by auto
    from Cons.IH [OF r(1) p(3) Cons.prems(3) _ packed_next(3) [OF p(2)]] Cons.prems(4) False
    obtain us x rest off where
      *: "ms = us @ x # rest" "list_all (\<lambda>m. m_id m \<noteq> 0) us" "list_all (\<lambda>m. m_id m = 0) (x # rest)"
      "r = Some (k + 1 + length us)"
      "ms'' = us @ x\<lparr>m_id := i, m_offset := off, m_size := sz, m_part_id_ref := ref\<rparr> # rest"
      "8 dvd unat off" "list_all (\<lambda>m. m_id m \<noteq> i \<or> m_part_id_ref m \<noteq> ref) us" "packed ?o ms''"
      by auto
    then show ?thesis
      using r p False by (intro exI [of _ "m # us"] exI [of _ x] exI [of _ rest]) auto
  qed
qed

lemma get_meta_from_skip:
  "list_all (\<lambda>m. m_id m \<noteq> i \<or> m_part_id_ref m \<noteq> ref) us \<Longrightarrow>
   get_meta_from i ref True k (us @ ms) = get_meta_from i ref True (k + length us) ms"
  by (induction us arbitrary: k) auto

lemma used_metas_append:
  assumes "list_all (\<lambda>m. m_id m \<noteq> 0) us"
  shows "used_metas (us @ ms) = us @ used_metas ms"
    and "dropWhile (\<lambda>m. m_id m \<noteq> 0) (us @ ms) = dropWhile (\<lambda>m. m_id m \<noteq> 0) ms"
  using assms by (induction us) auto

text \<open>
  C27: adding metadata keeps the layout of the metadata array. When \<open>bpak_add_meta\<close>
  succeeds, one entry is new and all others are as they were, \<open>bpak_get_meta\<close> finds
  the new entry, its block has the requested size, starts at a multiple of 8, lies within the
  1920 bytes of the array and behind the block of every entry listed before, and the layout
  invariant holds again.
\<close>

theorem bpak_add_meta_layout:
  assumes "meta_inv (meta hdr)" and "i \<noteq> 0" and "bpak_add_meta hdr i ref sz = (BPAK_OK, r, hdr')"
  shows "meta_inv (meta hdr') \<and> (\<exists>k. r = Some k \<and> bpak_get_meta hdr' i ref = (BPAK_OK, Some k) \<and>
     meta hdr' = (meta hdr)[k := meta hdr' ! k] \<and> metadata hdr' = metadata hdr \<and>
     m_size (meta hdr' ! k) = sz \<and> 8 dvd unat (m_offset (meta hdr' ! k)) \<and>
     unat (m_offset (meta hdr' ! k)) + unat sz \<le> 1920 \<and>
     (\<forall>m \<in> set (used_metas (meta hdr)). unat (m_offset m) + unat (m_size m) \<le> unat (m_offset (meta hdr' ! k))))"
proof -
  obtain ms' where a: "add_meta_from i ref sz 0 0 (meta hdr) = (BPAK_OK, r, ms')" "hdr' = hdr\<lparr>meta := ms'\<rparr>"
    using assms(3) by (auto simp: bpak_add_meta_def split: prod.splits)
  obtain us m rest off where
    *: "meta hdr = us @ m # rest" "list_all (\<lambda>m. m_id m \<noteq> 0) us" "list_all (\<lambda>m. m_id m = 0) (m # rest)"
      "r = Some (length us)"
      "ms' = us @ m\<lparr>m_id := i, m_offset := off, m_size := sz, m_part_id_ref := ref\<rparr> # rest"
      "8 dvd unat off" "list_all (\<lambda>m. m_id m \<noteq> i \<or> m_part_id_ref m \<noteq> ref) us" "packed 0 ms'"
    using add_meta_from_OK [OF a(1) _ assms(2)] assms(1) by (auto simp: meta_inv_def)
  let ?m = "m\<lparr>m_id := i, m_offset := off, m_size := sz, m_part_id_ref := ref\<rparr>"
  have rest: "used_metas rest = []" "list_all (\<lambda>m. m_id m = 0) (dropWhile (\<lambda>m. m_id m \<noteq> 0) rest)"
    using *(3) by (cases rest; auto simp: list_all_iff dest: set_dropWhileD)+
  have used: "used_metas (meta hdr) = us" "used_metas ms' = us @ [?m]"
    using *(1-3,5) rest assms(2) by (simp_all add: used_metas_append)
  have "list_all (\<lambda>m. m_id m = 0) (dropWhile (\<lambda>m. m_id m \<noteq> 0) ms')"
    using *(2,5) rest assms(2) by (simp add: used_metas_append)
  then have "meta_inv ms'" using *(8) by (simp add: meta_inv_def)
  moreover have "bpak_get_meta hdr' i ref = (BPAK_OK, Some (length us))"
    using a(2) *(5) get_meta_from_skip [OF *(7), of 0] by (simp add: bpak_get_meta_def bpak_get_meta_int_def)
  moreover have "ms' ! length us = ?m" "ms' = (meta hdr)[length us := ?m]" using *(1,5) by simp_all
  ultimately show ?thesis
    using *(4,6) a(2) used packed_sorted [OF *(8)] by (auto simp: sorted_wrt_append)
qed

lemma meta_init: "meta bpak_init_header = meta_zero # replicate 31 meta_zero"
  by (simp add: bpak_init_header_def flip: replicate_Suc)

lemma meta_inv_init: "meta_inv (meta bpak_init_header)"
  by (simp add: meta_inv_def meta_init) (simp add: meta_zero_def list_all_length)

theorem bpak_add_meta_layout_witness:
  "bpak_get_meta (snd (snd (bpak_add_meta bpak_init_header 5 0 100))) 5 0 = (BPAK_OK, Some 0)"
proof -
  obtain hdr' where a: "bpak_add_meta bpak_init_header 5 0 100 = (BPAK_OK, Some 0, hdr')"
    by (simp add: bpak_add_meta_def meta_init Let_def) (simp add: meta_zero_def)
  from bpak_add_meta_layout [OF meta_inv_init _ a] show ?thesis by (simp add: a)
qed

text \<open>
  \<open>bpak_valid_header\<close> accepts exactly the headers with the magic number, a hash kind,
  part sizes that the padding rounds up to 512 bytes, and listed metadata inside of the
  metadata array.
\<close>

theorem bpak_valid_header_iff:
  "bpak_valid_header hdr = BPAK_OK \<longleftrightarrow>
     magic hdr = BPAK_HEADER_MAGIC \<and> hash_kind hdr \<noteq> 0 \<and>
     (\<forall>p \<in> set (used_parts (parts hdr)). 512 dvd unat (p_size p + ucast (p_pad_bytes p))) \<and>
     (\<forall>m \<in> set (used_metas (meta hdr)). unat (m_offset m) + unat (m_size m) \<le> 1920)"
proof -
  have "x mod 512 = 0 \<longleftrightarrow> 512 dvd unat x" for x :: u64
    by (simp add: dvd_eq_mod_eq_0 unat_eq_zero [symmetric] unat_mod)
  then have "parts_aligned ps \<longleftrightarrow>
      (\<forall>p \<in> set (used_parts ps). 512 dvd unat (p_size p + ucast (p_pad_bytes p)))" for ps
    by (induction ps) auto
  moreover have "metas_in_bounds ms \<longleftrightarrow>
      (\<forall>m \<in> set (used_metas ms). unat (m_offset m) + unat (m_size m) \<le> 1920)" for ms
    by (induction ms) auto
  ultimately show ?thesis by (auto simp: bpak_valid_header_def)
qed

lemma valid_init: "bpak_valid_header bpak_init_header = BPAK_OK"
  by (simp add: bpak_valid_header_def meta_init)
     (simp add: bpak_init_header_def meta_zero_def part_zero_def numeral_eq_Suc)

theorem bpak_valid_header_iff_witness:
  "bpak_valid_header bpak_init_header = BPAK_OK \<and> hash_kind bpak_init_header \<noteq> 0"
  using bpak_valid_header_iff [of bpak_init_header] by (simp add: valid_init)

text \<open>
  C29: the parts of an image follow each other behind the header. For distinct
  identifiers, the offset of a listed part is the size of the header plus the sizes of the
  parts listed before it.
\<close>

theorem bpak_part_offset_contiguous:
  assumes "distinct (map p_id (used_parts (parts hdr)))" and "k < length (used_parts (parts hdr))"
  shows "bpak_part_offset hdr (used_parts (parts hdr) ! k) =
    4096 + sum_list (map bpak_part_size (take k (used_parts (parts hdr))))"
proof -
  have "part_offset_from (p_id (used_parts ps ! k)) off ps =
      off + sum_list (map bpak_part_size (take k (used_parts ps)))"
    if "distinct (map p_id (used_parts ps))" "k < length (used_parts ps)" for off ps
    using that
  proof (induction ps arbitrary: off k)
    case (Cons p ps)
    show ?case
    proof (cases k)
      case 0
      with Cons.prems show ?thesis by (auto split: if_splits)
    next
      case (Suc j)
      with Cons.prems have p: "p_id p \<noteq> 0" and j: "j < length (used_parts ps)" by (auto split: if_splits)
      from j have "p_id (used_parts ps ! j) \<in> p_id ` set (used_parts ps)" by simp
      with Cons.prems p have "p_id (used_parts ps ! j) \<noteq> p_id p" by auto
      with p Suc Cons.prems Cons.IH [of j "off + bpak_part_size p"] j show ?thesis
        by (simp add: add.assoc)
    qed
  qed simp
  from this [OF assms] show ?thesis by (simp add: bpak_part_offset_def)
qed

theorem bpak_part_offset_contiguous_witness:
  "bpak_part_offset two_parts (part_zero\<lparr>p_id := 8, p_size := 1024\<rparr>) = 4608"
  using bpak_part_offset_contiguous [of two_parts 1]
  by (simp add: used_parts_two_parts) (simp add: part_zero_def bpak_part_size_def)


end
