(* ===== verification/Image.thy ===== *)
theory Image
  imports Slc Bpak
begin

text \<open>
  Authentication and loading of an image, \<open>src/boot/image_helpers.c\<close>.

  The header is passed by value and returned when a function changes it. The local buffer
  \<open>header_digest\<close> is not initialised in the code; its contents are the argument \<open>stack\<close>.
  The linker symbols of the boot loader's own memory are the record \<open>mem_layout\<close>. The two
  callbacks act on the state; the bytes a read callback stores to its buffer are part of its
  result, and \<open>None\<close> stands for a callback that does not return. The loop of \<open>boot_image_load_and_hash\<close> ends only if the chunk size is not zero:
  it is a partial function whose value is \<open>None\<close> when it runs forever. A load address
  read from outside of the header is \<open>None\<close> as well.
\<close>

type_synonym 's boot_read_cb_t = "int \<Rightarrow> u64 \<Rightarrow> 's \<Rightarrow> (int \<times> u8 list \<times> 's) option"
type_synonym 's boot_result_cb_t = "int \<Rightarrow> 's \<Rightarrow> (int \<times> 's) option"

record mem_layout =
  code_start :: u64
  code_end :: u64
  data_start :: u64
  data_end :: u64
  stack_start :: u64
  stack_end :: u64
  bss_start :: u64
  bss_end :: u64
  no_init_start :: u64
  no_init_end :: u64

abbreviation (input) BPAK_ID_PB_LOAD_ADDR :: bpak_id_t where "BPAK_ID_PB_LOAD_ADDR \<equiv> 0xd1e64a4b"

text \<open>The switch on \<open>hdr->hash_kind\<close>: the algorithm and the length of its digest.\<close>

definition image_hash_kind :: "u8 \<Rightarrow> (hash_t \<times> nat) option" where
  "image_hash_kind k =
     (if k = BPAK_HASH_SHA256 then Some (HASH_SHA256, 32)
      else if k = BPAK_HASH_SHA384 then Some (HASH_SHA384, 48)
      else if k = BPAK_HASH_SHA512 then Some (HASH_SHA512, 64)
      else None)"

definition boot_image_auth_header ::
  "bpak_keystore \<Rightarrow> ('w, 'z) crypto_scheme rot_config option \<Rightarrow> u8 list \<Rightarrow> bpak_header \<Rightarrow>
   ('w, 'z) crypto_scheme \<Rightarrow> int \<times> bpak_header \<times> ('w, 'z) crypto_scheme" where
  "boot_image_auth_header keystore_pb cfg stack hdr s =
     (if bpak_valid_header hdr \<noteq> BPAK_OK then (err PB_ERR_BAD_HEADER, hdr, s)
      else case rot_read_key_status cfg (key_id hdr) s of (rc, s) \<Rightarrow>
        if rc \<noteq> PB_OK then (rc, hdr, s)
        else case rot_get_dsa_key keystore_pb cfg (key_id hdr) s of (rc, key, s) \<Rightarrow>
          if rc \<noteq> PB_OK then (rc, hdr, s)
          else case image_hash_kind (hash_kind hdr) of
            None \<Rightarrow> (err PB_ERR_UNKNOWN_HASH, hdr, s)
          | Some (hk, _) \<Rightarrow>
              (case hash_init hk s of (rc, s) \<Rightarrow>
                if rc \<noteq> PB_OK then (rc, hdr, s)
                else case bpak_copyz_signature hdr 512 of (rc, sig, _, hdr) \<Rightarrow>
                  if rc \<noteq> BPAK_OK then (err PB_ERR_BUF_TOO_SMALL, hdr, s)
                  else case hash_update (enc_header hdr) s of (rc, s) \<Rightarrow>
                    if rc \<noteq> PB_OK then (rc, hdr, s)
                    else case hash_final 64 s of (rc, digest, s) \<Rightarrow>
                      if rc \<noteq> PB_OK then (rc, hdr, s)
                      else case key of None \<Rightarrow> (rc, hdr, s)
                      | Some (dsa_kind, key_der_data) \<Rightarrow>
                          (case dsa_verify dsa_kind sig key_der_data hk (overlay stack digest) s of
                             (rc, verified, s) \<Rightarrow>
                               if rc = 0 \<and> verified = Some True then (rc, hdr, s)
                               else (err PB_ERR_AUTHENTICATION_FAILED, hdr, s))))"

text \<open>\<open>CHECK_OVERLAP\<close>, with the 64 bit sum of the code.\<close>

definition CHECK_OVERLAP :: "u64 \<Rightarrow> u64 \<Rightarrow> u64 \<Rightarrow> u64 \<Rightarrow> bool" where
  "CHECK_OVERLAP addr len start end' \<longleftrightarrow> addr \<le> end' \<and> addr + len \<ge> start"

text \<open>The load address of a part: \<open>Inl\<close> the error, \<open>Inr\<close> what the pointer reads.\<close>

definition part_load_addr :: "bpak_header \<Rightarrow> bpak_part_header \<Rightarrow> int + u64 option" where
  "part_load_addr hdr p =
     (case bpak_get_meta hdr BPAK_ID_PB_LOAD_ADDR (p_id p) of
        (rc, mh) \<Rightarrow>
          if rc \<noteq> BPAK_OK then Inl (err PB_ERR_BAD_META)
          else case mh of None \<Rightarrow> Inr None | Some k \<Rightarrow> Inr (bpak_get_meta_u64 hdr (meta hdr ! k)))"

fun verify_parts_from :: "mem_layout \<Rightarrow> bpak_header \<Rightarrow> bpak_part_header list \<Rightarrow> int option" where
  "verify_parts_from L hdr [] = Some PB_OK"
| "verify_parts_from L hdr (p # ps) =
     (if p_id p = 0 then Some PB_OK
      else case part_load_addr hdr p of
        Inl rc \<Rightarrow> Some rc
      | Inr None \<Rightarrow> None
      | Inr (Some load_addr) \<Rightarrow>
          let bytes_to_read = bpak_part_size p in
          if CHECK_OVERLAP load_addr bytes_to_read (stack_start L) (stack_end L) then Some (err PB_ERR_MEM)
          else if CHECK_OVERLAP load_addr bytes_to_read (data_start L) (data_end L) then Some (err PB_ERR_MEM)
          else if CHECK_OVERLAP load_addr bytes_to_read (bss_start L) (bss_end L) then Some (err PB_ERR_MEM)
          else if CHECK_OVERLAP load_addr bytes_to_read (code_start L) (code_end L) then Some (err PB_ERR_MEM)
          else if CHECK_OVERLAP load_addr bytes_to_read (no_init_start L) (no_init_end L) then Some (err PB_ERR_MEM)
          else verify_parts_from L hdr ps)"

definition boot_image_verify_parts :: "mem_layout \<Rightarrow> bpak_header \<Rightarrow> int option" where
  "boot_image_verify_parts L hdr =
     (if bpak_valid_header hdr \<noteq> BPAK_OK then Some (err PB_ERR_BAD_HEADER)
      else verify_parts_from L hdr (parts hdr))"

text \<open>One call of the read callback into memory at \<open>addr\<close>; \<open>NULL\<close> reads nothing.\<close>

definition read_chunk ::
  "('w, 'z) crypto_scheme boot_read_cb_t option \<Rightarrow> u64 \<Rightarrow> u64 \<Rightarrow> u64 \<Rightarrow> ('w, 'z) crypto_scheme \<Rightarrow>
   (int \<times> ('w, 'z) crypto_scheme) option" where
  "read_chunk read_f read_lba chunk_size addr s =
     (case read_f of
        None \<Rightarrow> Some (PB_OK, s)
      | Some f \<Rightarrow>
          (case f (sint (ucast read_lba :: u32)) chunk_size s of
             None \<Rightarrow> None
           | Some (rc, data, s) \<Rightarrow>
               Some (rc, s\<lparr>mem := mem_write (mem s) addr (take (unat chunk_size) data)\<rparr>)))"

text \<open>The inner loop; \<open>part_offset\<close> is \<open>bpak_part_offset(hdr, p)\<close>.\<close>

partial_function (option) load_chunks ::
  "('w, 'z) crypto_scheme boot_read_cb_t option \<Rightarrow> u64 \<Rightarrow> u64 \<Rightarrow> u64 \<Rightarrow> u64 \<Rightarrow> u64 \<Rightarrow>
   ('w, 'z) crypto_scheme \<Rightarrow> (int \<times> ('w, 'z) crypto_scheme) option" where
  "load_chunks read_f load_chunk_size part_offset load_addr offset bytes_to_read s =
     (if bytes_to_read = 0 then Some (PB_OK, s)
      else
        let chunk_size = (if bytes_to_read > load_chunk_size then load_chunk_size else bytes_to_read);
            addr = load_addr + offset in
        case read_chunk read_f ((offset + part_offset - 4096) div 512) chunk_size addr s of
          None \<Rightarrow> None
        | Some (rc, s) \<Rightarrow>
          if rc \<noteq> PB_OK then Some (rc, s)
          else case hash_update_async (mem_read (mem s) addr (unat chunk_size)) s of (rc, s) \<Rightarrow>
            if rc \<noteq> PB_OK then Some (rc, s)
            else load_chunks read_f load_chunk_size part_offset load_addr (offset + chunk_size)
                   (bytes_to_read - chunk_size) s)"

fun load_parts_from ::
  "bpak_header \<Rightarrow> u64 \<Rightarrow> ('w, 'z) crypto_scheme boot_read_cb_t option \<Rightarrow>
   ('w, 'z) crypto_scheme boot_result_cb_t option \<Rightarrow> bpak_part_header list \<Rightarrow>
   ('w, 'z) crypto_scheme \<Rightarrow> (int \<times> ('w, 'z) crypto_scheme) option" where
  "load_parts_from hdr load_chunk_size read_f result_f [] s = Some (PB_OK, s)"
| "load_parts_from hdr load_chunk_size read_f result_f (p # ps) s =
     (if p_id p = 0 then Some (PB_OK, s)
      else case part_load_addr hdr p of
        Inl rc \<Rightarrow> Some (rc, s)
      | Inr None \<Rightarrow> None
      | Inr (Some load_addr) \<Rightarrow>
          (case load_chunks read_f load_chunk_size (bpak_part_offset hdr p) load_addr 0 (bpak_part_size p) s of
             None \<Rightarrow> None
           | Some (rc, s) \<Rightarrow>
               (case (case result_f of None \<Rightarrow> Some (rc, s) | Some f \<Rightarrow> f rc s) of
                  None \<Rightarrow> None
                | Some (rc, s) \<Rightarrow>
                    if rc \<noteq> PB_OK then Some (rc, s)
                    else load_parts_from hdr load_chunk_size read_f result_f ps s)))"

text \<open>\<open>digest\<close> is the buffer \<open>payload_digest\<close>; its length is \<open>payload_digest_size\<close>.\<close>

definition boot_image_load_and_hash ::
  "bpak_header \<Rightarrow> u64 \<Rightarrow> ('w, 'z) crypto_scheme boot_read_cb_t option \<Rightarrow>
   ('w, 'z) crypto_scheme boot_result_cb_t option \<Rightarrow> u8 list \<Rightarrow>
   ('w, 'z) crypto_scheme \<Rightarrow> (int \<times> u8 list \<times> ('w, 'z) crypto_scheme) option" where
  "boot_image_load_and_hash hdr load_chunk_size read_f result_f digest s =
     (if bpak_valid_header hdr \<noteq> BPAK_OK then Some (err PB_ERR_BAD_HEADER, digest, s)
      else case image_hash_kind (hash_kind hdr) of
        None \<Rightarrow> Some (err PB_ERR_UNKNOWN_HASH, digest, s)
      | Some (hk, hash_length) \<Rightarrow>
          if length digest < hash_length then Some (err PB_ERR_PARAM, digest, s)
          else case hash_init hk s of (rc, s) \<Rightarrow>
            if rc \<noteq> PB_OK then Some (rc, digest, s)
            else case load_parts_from hdr load_chunk_size read_f result_f (parts hdr) s of
              None \<Rightarrow> None
            | Some (rc, s) \<Rightarrow>
                if rc = PB_OK then
                  (case hash_final (of_nat (length digest)) s of
                     (rc, data, s) \<Rightarrow> Some (rc, overlay digest data, s))
                else Some (rc, digest, s))"

text \<open>\<open>memcpy\<close> between two addresses.\<close>

definition mem_copy :: "memory \<Rightarrow> u64 \<Rightarrow> u64 \<Rightarrow> u64 \<Rightarrow> memory" where
  "mem_copy m dst src n = mem_write m dst (mem_read m src (unat n))"

fun copy_parts_from ::
  "bpak_header \<Rightarrow> u64 \<Rightarrow> u64 \<Rightarrow> bpak_part_header list \<Rightarrow> ('w, 'z) crypto_scheme \<Rightarrow>
   int \<times> ('w, 'z) crypto_scheme" where
  "copy_parts_from hdr source dest [] s = (PB_OK, s)"
| "copy_parts_from hdr source dest (p # ps) s =
     (if p_id p = 0 then (PB_OK, s)
      else
        let bytes_to_copy = bpak_part_size p;
            part_offset = bpak_part_offset hdr p - 4096;
            src_addr = source + part_offset;
            dst_addr = dest + part_offset;
            s = s\<lparr>mem := mem_copy (mem s) dst_addr src_addr bytes_to_copy\<rparr> in
        case hash_update_async (mem_read (mem s) dst_addr (unat bytes_to_copy)) s of (rc, s) \<Rightarrow>
          if rc \<noteq> PB_OK then (rc, s) else copy_parts_from hdr source dest ps s)"

text \<open>The sizes of the source and destination areas are not used by the code.\<close>

definition boot_image_copy_and_hash ::
  "bpak_header \<Rightarrow> u64 \<Rightarrow> u64 \<Rightarrow> u8 list \<Rightarrow> ('w, 'z) crypto_scheme \<Rightarrow>
   int \<times> u8 list \<times> ('w, 'z) crypto_scheme" where
  "boot_image_copy_and_hash hdr source dest digest s =
     (if bpak_valid_header hdr \<noteq> BPAK_OK then (err PB_ERR_BAD_HEADER, digest, s)
      else case image_hash_kind (hash_kind hdr) of
        None \<Rightarrow> (err PB_ERR_UNKNOWN_HASH, digest, s)
      | Some (hk, hash_length) \<Rightarrow>
          if length digest < hash_length then (err PB_ERR_PARAM, digest, s)
          else case hash_init hk s of (rc, s) \<Rightarrow>
            if rc \<noteq> PB_OK then (rc, digest, s)
            else case copy_parts_from hdr source dest (parts hdr) s of (rc, s) \<Rightarrow>
              if rc = PB_OK then
                (case hash_final (of_nat (length digest)) s of
                   (rc, data, s) \<Rightarrow> (rc, overlay digest data, s))
              else (rc, digest, s))"

definition boot_image_verify_payload :: "bpak_header \<Rightarrow> u8 list \<Rightarrow> int" where
  "boot_image_verify_payload hdr payload_digest =
     (if bpak_valid_header hdr \<noteq> BPAK_OK then err PB_ERR_BAD_HEADER
      else case image_hash_kind (hash_kind hdr) of
        None \<Rightarrow> err PB_ERR_UNKNOWN_HASH
      | Some (_, digest_length) \<Rightarrow>
          if memcmp (take digest_length (payload_hash hdr)) (take digest_length payload_digest) \<noteq> 0
          then err PB_ERR_BAD_PAYLOAD
          else PB_OK)"

subsection \<open>Authentication of the header\<close>

lemma find_bpak_key_in: "find_bpak_key i ks = Some k \<Longrightarrow> k \<in> set ks \<and> k_id k = i"
  by (induction ks) (auto split: if_splits)

text \<open>Reading the status of a key does not change the state.\<close>

definition rot_status_pure :: "'s rot_config option \<Rightarrow> bool" where
  "rot_status_pure cfg \<longleftrightarrow> (\<forall>c f k s. cfg = Some c \<longrightarrow> rc_read_key_status c = Some f \<longrightarrow> snd (f k s) = s)"

lemma rot_read_key_status_pure:
  "rot_status_pure cfg \<Longrightarrow> rot_read_key_status cfg i s = (rc, s') \<Longrightarrow> s' = s"
  unfolding rot_status_pure_def rot_read_key_status_def
  by (auto split: option.splits) (metis snd_conv)+

lemma rot_get_dsa_key_OK:
  assumes "rot_get_dsa_key ks cfg i s = (PB_OK, key, s')" and "rot_status_pure cfg"
  obtains k d where "k \<in> set ks" "k_id k = i" "key = Some (d, take (unat (k_size k)) (k_data k))"
    "s' = s" "rot_read_key_status cfg i s = (PB_OK, s)"
proof -
  obtain c where c: "cfg = Some c" using assms(1) by (cases cfg) (auto simp: rot_get_dsa_key_def)
  obtain rc s1 where st: "rot_read_key_status cfg i s = (rc, s1)" by fastforce
  have [simp]: "s1 = s" using rot_read_key_status_pure [OF assms(2) st] .
  have rc: "rc = PB_OK" using assms(1) st c by (auto simp: rot_get_dsa_key_def split: if_splits)
  show thesis
  proof (cases "find_bpak_key i ks")
    case None
    with assms(1) st c rc show thesis by (auto simp: rot_get_dsa_key_def split: if_splits)
  next
    case (Some k)
    then have k: "k \<in> set ks" "k_id k = i" using find_bpak_key_in by blast+
    from assms(1) st c rc Some
    have "s' = s \<and> (\<exists>d. key = Some (d, take (unat (k_size k)) (k_data k)))"
      by (cases "k_kind k") (auto simp: rot_get_dsa_key_def Let_def split: if_splits)
    with k st rc that show thesis by auto
  qed
qed

lemma rot_get_dsa_key_Some: "rot_get_dsa_key ks cfg i s = (PB_OK, key, s') \<Longrightarrow> \<exists>d der. key = Some (d, der)"
  by (auto simp: rot_get_dsa_key_def Let_def split: option.splits prod.splits if_splits bpak_key_kind.splits)

lemma take_overlay: "length d \<le> length buf \<Longrightarrow> take (length d) (overlay buf d) = d"
  by (simp add: overlay_def)

lemma image_hash_kind_length: "image_hash_kind k = Some (hk, n) \<Longrightarrow> digest_len_of hk = n \<and> n \<le> 64"
  by (auto simp: image_hash_kind_def digest_len_of_def split: if_splits)

lemma auth_header_OK:
  assumes "boot_image_auth_header ks cfg stack hdr s = (PB_OK, hdr', s')"
  obtains s1 key s2 hk n s3 sig sz s4 digest s5 dsa_kind der where
    "bpak_valid_header hdr = BPAK_OK"
    "rot_read_key_status cfg (key_id hdr) s = (PB_OK, s1)"
    "rot_get_dsa_key ks cfg (key_id hdr) s1 = (PB_OK, Some (dsa_kind, der), s2)"
    "image_hash_kind (hash_kind hdr) = Some (hk, n)"
    "hash_init hk s2 = (PB_OK, s3)"
    "bpak_copyz_signature hdr 512 = (BPAK_OK, sig, sz, hdr')"
    "hash_update (enc_header hdr') s3 = (PB_OK, s4)"
    "hash_final 64 s4 = (PB_OK, digest, s5)"
    "dsa_verify dsa_kind sig der hk (overlay stack digest) s5 = (PB_OK, Some True, s')"
proof -
  note a = assms [unfolded boot_image_auth_header_def]
  obtain rc1 s1 where 1: "rot_read_key_status cfg (key_id hdr) s = (rc1, s1)" by fastforce
  obtain rc2 key s2 where 2: "rot_get_dsa_key ks cfg (key_id hdr) s1 = (rc2, key, s2)" using prod_cases3 by blast
  have ok: "bpak_valid_header hdr = BPAK_OK" "rc1 = PB_OK" "rc2 = PB_OK"
    using a 1 2 by (auto split: if_splits)
  then obtain dsa_kind der where key: "key = Some (dsa_kind, der)"
    using rot_get_dsa_key_Some [of ks cfg "key_id hdr" s1 key s2] 2 by auto
  obtain hk n where hk: "image_hash_kind (hash_kind hdr) = Some (hk, n)"
    using a 1 2 ok by (cases "image_hash_kind (hash_kind hdr)") auto
  obtain rc3 s3 where 3: "hash_init hk s2 = (rc3, s3)" by fastforce
  obtain rc4 sig sz h where 4: "bpak_copyz_signature hdr 512 = (rc4, sig, sz, h)" using prod_cases4 by blast
  obtain rc5 s4 where 5: "hash_update (enc_header h) s3 = (rc5, s4)" by fastforce
  obtain rc6 digest s5 where 6: "hash_final 64 s4 = (rc6, digest, s5)" using prod_cases3 by blast
  obtain rc7 v s6 where 7: "dsa_verify dsa_kind sig der hk (overlay stack digest) s5 = (rc7, v, s6)"
    using prod_cases3 by blast
  have "rc3 = PB_OK" "rc4 = BPAK_OK" "rc5 = PB_OK" "rc6 = PB_OK" "rc7 = PB_OK" "v = Some True" "h = hdr'" "s6 = s'"
    using a 1 2 ok key hk 3 4 5 6 7 by (auto split: if_splits)
  with that 1 2 ok key hk 3 4 5 6 7 show thesis by blast
qed

text \<open>
  The header is valid and carries a signature, by a key of the key store, of the digest of its
  4096 bytes with the signature cleared.
\<close>

definition header_authentic ::
  "bpak_keystore \<Rightarrow> (u8 list \<Rightarrow> hash_t \<Rightarrow> u8 list \<Rightarrow> u8 list \<Rightarrow> bool) \<Rightarrow> (hash_t \<Rightarrow> u8 list \<Rightarrow> u8 list) \<Rightarrow>
   bpak_header \<Rightarrow> bool" where
  "header_authentic ks V H hdr \<longleftrightarrow> bpak_valid_header hdr = BPAK_OK \<and>
     (\<exists>k hk n. k \<in> set ks \<and> k_id k = key_id hdr \<and> image_hash_kind (hash_kind hdr) = Some (hk, n) \<and>
       V (take (unat (k_size k)) (k_data k)) hk (H hk (take 3582 (enc_header hdr) @ replicate 514 0))
         (take (unat (signature_sz hdr)) (signature hdr)))"

abbreviation unsigned_header :: "bpak_header \<Rightarrow> bpak_header" where
  "unsigned_header hdr \<equiv> hdr\<lparr>signature := replicate 512 0, signature_sz := 0\<rparr>"

lemma auth_header_authentic:
  assumes "header_wf hdr" and "length stack = 64" and "rot_status_pure cfg"
    and "hash_drivers s H st" and "dsa_drivers s V"
    and "boot_image_auth_header ks cfg stack hdr s = (PB_OK, hdr', s')"
  shows "rot_read_key_status cfg (key_id hdr) s = (PB_OK, s) \<and> hdr' = unsigned_header hdr \<and>
    header_authentic ks V H hdr \<and> crypto_frame s s'"
  using assms(6)
proof (rule auth_header_OK)
  fix s1 key s2 hk n s3 sig sz s4 digest s5 dsa_kind der
  assume valid: "bpak_valid_header hdr = BPAK_OK"
    and 1: "rot_read_key_status cfg (key_id hdr) s = (PB_OK, s1)"
    and 2: "rot_get_dsa_key ks cfg (key_id hdr) s1 = (PB_OK, Some (dsa_kind, der), s2)"
    and hk: "image_hash_kind (hash_kind hdr) = Some (hk, n)"
    and 3: "hash_init hk s2 = (PB_OK, s3)"
    and 4: "bpak_copyz_signature hdr 512 = (BPAK_OK, sig, sz, hdr')"
    and 5: "hash_update (enc_header hdr') s3 = (PB_OK, s4)"
    and 6: "hash_final 64 s4 = (PB_OK, digest, s5)"
    and 7: "dsa_verify dsa_kind sig der hk (overlay stack digest) s5 = (PB_OK, Some True, s')"
  have [simp]: "s1 = s" using rot_read_key_status_pure [OF assms(3) 1] .
  obtain k where k: "k \<in> set ks" "k_id k = key_id hdr" "der = take (unat (k_size k)) (k_data k)" and [simp]: "s2 = s"
    using 2 assms(3) by (rule rot_get_dsa_key_OK) auto
  have hdr': "hdr' = hdr\<lparr>signature := replicate 512 0, signature_sz := 0\<rparr>"
    and sig: "sig = take (unat (signature_sz hdr)) (signature hdr)"
    using 4 by (cases rule: bpak_copyz_signature_cases [of hdr 512]; simp)+
  have init: "hash_ctx s3 H st" "st (world s3) = (hk, [])" using hash_init_OK [OF 3, of H st] assms(4) by simp_all
  note upd = hash_update_OK [OF 5 init(1)]
  have digest: "digest = H hk (enc_header hdr')" "length digest = digest_len_of hk"
    using hash_final_OK [OF 6 upd(1)] upd(2) init(2) by simp_all
  have "dsa_ops s5 = dsa_ops s"
    using hash_keeps(1) [OF 3] hash_keeps(2) [OF 5] hash_keeps(4) [OF 6] by simp
  then have "dsa_drivers s5 V" using assms(5) by (simp add: dsa_drivers_def)
  from dsa_verify_OK [OF 7 this] have "V der hk digest sig"
    using digest(2) image_hash_kind_length [OF hk] assms(2) take_overlay [of digest stack] by simp
  moreover have "crypto_frame s s'"
    using crypto_frame_ops(1) [OF 3] crypto_frame_ops(2) [OF 5] crypto_frame_ops(4) [OF 6] crypto_frame_ops(5) [OF 7]
    by (auto intro: crypto_frame_trans)
  ultimately show ?thesis
    using valid 1 k hk hdr' sig digest(1) enc_header_zero_signature [OF assms(1)]
    by (auto simp: header_authentic_def)
qed

text \<open>
  C5: an image header is accepted only if it is signed by a key that is known and not
  revoked. With hash drivers for \<open>H\<close> and signature drivers for \<open>V\<close>, success of
  \<open>boot_image_auth_header\<close> implies that the header is valid, that the status of its key
  is \<open>PB_OK\<close>, that the key is in the key store, and that \<open>V\<close> holds for this key, the digest
  of the 4096 header bytes with the 514 signature bytes set to zero, and the signature of
  the header. The header is returned with the signature cleared.
\<close>

theorem auth_header_sound:
  assumes "header_wf hdr" and "length stack = 64" and "rot_status_pure cfg"
    and "hash_drivers s H st" and "dsa_drivers s V"
    and "boot_image_auth_header ks cfg stack hdr s = (PB_OK, hdr', s')"
  shows "bpak_valid_header hdr = BPAK_OK \<and>
    rot_read_key_status cfg (key_id hdr) s = (PB_OK, s) \<and>
    hdr' = hdr\<lparr>signature := replicate 512 0, signature_sz := 0\<rparr> \<and>
    (\<exists>k hk n. k \<in> set ks \<and> k_id k = key_id hdr \<and> image_hash_kind (hash_kind hdr) = Some (hk, n) \<and>
       V (take (unat (k_size k)) (k_data k)) hk (H hk (take 3582 (enc_header hdr) @ replicate 514 0))
         (take (unat (signature_sz hdr)) (signature hdr)))"
  using auth_header_authentic [OF assms] by (auto simp: header_authentic_def)

text \<open>
  A concrete platform: the signature driver accepts the digest itself as signature, the key
  store holds the first key of the test board, and the header carries such a signature.
\<close>

definition eq_dsa_ops :: "'w dsa_ops" where
  "eq_dsa_ops = \<lparr>do_name = ''eq'', do_alg_bits = 7,
     do_verify = (\<lambda>sig key alg md w. (PB_OK, Some (sig = take (digest_len_of alg) md), w))\<rparr>"

abbreviation eq_V :: "u8 list \<Rightarrow> hash_t \<Rightarrow> u8 list \<Rightarrow> u8 list \<Rightarrow> bool" where
  "eq_V \<equiv> \<lambda>key alg md sig. sig = md"

definition demo_state :: "(hash_t \<times> u8 list) crypto" where
  "demo_state = sum_crypto\<lparr>dsa_ops := [Some eq_dsa_ops]\<rparr>"

definition demo_keystore :: bpak_keystore where
  "demo_keystore = [\<lparr>k_kind = BPAK_KEY_PUB_PRIME256v1, k_size = 2, k_id = 0xa90f9680, k_data = [1, 2]\<rparr>]"

definition demo_unsigned :: bpak_header where
  "demo_unsigned = bpak_init_header\<lparr>key_id := 0xa90f9680\<rparr>"

definition demo_header :: bpak_header where
  "demo_header = demo_unsigned\<lparr>signature := sum_hash HASH_SHA256 (enc_header demo_unsigned) @ replicate 480 0,
     signature_sz := 32\<rparr>"

lemma demo_drivers: "hash_drivers demo_state sum_hash id" "dsa_drivers demo_state eq_V"
  by (auto simp: hash_drivers_def dsa_drivers_def demo_state_def sum_crypto_def hash_driver_sum
      dsa_driver_def eq_dsa_ops_def)

lemma rot_status_pure_test: "rot_status_pure (Some test_rot_config)"
  by (simp add: rot_status_pure_def test_rot_config_def qemu_rot.status_pure)

lemma header_wf_demo: "header_wf demo_header" "header_wf demo_unsigned"
  using header_wf_init
  by (simp_all add: header_wf_def demo_header_def demo_unsigned_def sum_hash_def digest_len_of_def)

lemma demo_header_sel [simp]:
  "parts demo_header = parts bpak_init_header" "meta demo_header = meta bpak_init_header"
  "magic demo_header = magic bpak_init_header" "hash_kind demo_header = BPAK_HASH_SHA256"
  "key_id demo_header = 0xa90f9680" "signature_sz demo_header = 32" "length (signature demo_header) = 512"
  "demo_header\<lparr>signature := replicate 512 0, signature_sz := 0\<rparr> = demo_unsigned"
  by (simp_all add: demo_header_def demo_unsigned_def bpak_init_header_def sum_hash_def digest_len_of_def)

lemma valid_demo: "bpak_valid_header demo_header = BPAK_OK" 
  using valid_init by (auto simp: bpak_valid_header_def split: if_splits)

lemma demo_status: "rot_read_key_status (Some test_rot_config) 0xa90f9680 demo_state = (PB_OK, demo_state)"
  by (simp add: rot_read_key_status_def test_rot_config_def test_key_map_def qemu_read_key_status_eq
      demo_state_def sum_crypto_def)

lemma demo_key:
  "rot_get_dsa_key demo_keystore (Some test_rot_config) 0xa90f9680 demo_state =
   (PB_OK, Some (1, [1, 2]), demo_state)"
  using demo_status
  by (simp add: rot_get_dsa_key_def demo_keystore_def Let_def) (simp add: test_rot_config_def test_key_map_def)

lemma demo_copyz:
  "bpak_copyz_signature demo_header 512 =
   (BPAK_OK, sum_hash HASH_SHA256 (enc_header demo_unsigned), 32, demo_unsigned)"
proof -
  have "take 32 (signature demo_header) = sum_hash HASH_SHA256 (enc_header demo_unsigned)"
    by (simp add: demo_header_def sum_hash_def digest_len_of_def)
  then show ?thesis by (simp add: bpak_copyz_signature_def)
qed

lemma demo_auth:
  "\<exists>s'. boot_image_auth_header demo_keystore (Some test_rot_config) (replicate 64 0) demo_header demo_state =
     (PB_OK, demo_unsigned, s')"
proof -
  let ?d = "sum_hash HASH_SHA256 (enc_header demo_unsigned)"
  have d: "take 32 (overlay (replicate 64 0) ?d) = ?d"
    using take_overlay [of ?d "replicate 64 0"] by (simp add: sum_hash_def digest_len_of_def)
  have "hash_ops demo_state = [Some sum_hash_ops]" "dsa_ops demo_state = [Some eq_dsa_ops]"
    by (simp_all add: demo_state_def sum_crypto_def)
  with d show ?thesis
    by (simp add: boot_image_auth_header_def valid_demo demo_status demo_key image_hash_kind_def
        demo_copyz hash_init_def hash_update_def hash_final_def dsa_verify_def Let_def
        sum_hash_ops_def eq_dsa_ops_def digest_len_of_def)
qed

theorem auth_header_sound_witness:
  "\<exists>s'. boot_image_auth_header demo_keystore (Some test_rot_config) (replicate 64 0) demo_header demo_state =
     (PB_OK, demo_unsigned, s') \<and> key_id demo_header \<in> k_id ` set demo_keystore"
proof -
  obtain s' where a: "boot_image_auth_header demo_keystore (Some test_rot_config) (replicate 64 0) demo_header
      demo_state = (PB_OK, demo_unsigned, s')"
    using demo_auth by blast
  from auth_header_sound [OF header_wf_demo(1) _ rot_status_pure_test demo_drivers a] a
  show ?thesis by auto
qed

subsection \<open>Loading\<close>

text \<open>
  What loading relies on: the read callback touches neither memory other than its buffer
  nor the hash context, and the result callback does not turn an error into success. Both
  may rely on a property \<open>I\<close> of the state, which they keep and which depends neither on the
  world nor on memory nor on the hash context.
\<close>

definition cb_inv :: "(('w, 'z) crypto_scheme \<Rightarrow> bool) \<Rightarrow> bool" where
  "cb_inv I \<longleftrightarrow> (\<forall>s w m c. I s \<longrightarrow> I (s\<lparr>world := w\<rparr>) \<and> I (s\<lparr>mem := m\<rparr>) \<and> I (s\<lparr>world := w, current_hash_ops := c\<rparr>))"

definition read_cb_frame ::
  "('w, 'z) crypto_scheme boot_read_cb_t option \<Rightarrow> ('w \<Rightarrow> hash_t \<times> u8 list) \<Rightarrow>
   (('w, 'z) crypto_scheme \<Rightarrow> bool) \<Rightarrow> bool" where
  "read_cb_frame read_f st I \<longleftrightarrow>
     (\<forall>f lba n s rc data s'. read_f = Some f \<longrightarrow> I s \<longrightarrow> f lba n s = Some (rc, data, s') \<longrightarrow> I s' \<and>
        mem s' = mem s \<and> current_hash_ops s' = current_hash_ops s \<and> st (world s') = st (world s))"

definition result_cb_frame ::
  "('w, 'z) crypto_scheme boot_result_cb_t option \<Rightarrow> ('w \<Rightarrow> hash_t \<times> u8 list) \<Rightarrow>
   (('w, 'z) crypto_scheme \<Rightarrow> bool) \<Rightarrow> bool" where
  "result_cb_frame result_f st I \<longleftrightarrow>
     (\<forall>f rc s rc' s'. result_f = Some f \<longrightarrow> f rc s = Some (rc', s') \<longrightarrow> (rc' = PB_OK \<longrightarrow> rc = PB_OK) \<and>
        (I s \<longrightarrow> I s' \<and> mem s' = mem s \<and> current_hash_ops s' = current_hash_ops s \<and>
           st (world s') = st (world s)))"

lemma cb_invD:
  assumes "cb_inv I" and "I s"
  shows "I (s\<lparr>world := w\<rparr>)" "I (s\<lparr>mem := m\<rparr>)"
    "hash_init alg s = (rc, s') \<Longrightarrow> I s'" "hash_update_async buf s = (rc, s') \<Longrightarrow> I s'"
    "hash_final len s = (rc, d, s') \<Longrightarrow> I s'"
proof -
  note I = assms(1) [unfolded cb_inv_def, rule_format, OF assms(2)]
  show "I (s\<lparr>world := w\<rparr>)" "I (s\<lparr>mem := m\<rparr>)" using I by blast+
  show "hash_update_async buf s = (rc, s') \<Longrightarrow> I s'"
    using I hash_update_async_frame [of buf s rc s'] by metis
  show "hash_init alg s = (rc, s') \<Longrightarrow> I s'"
    using I hash_init_frame [of alg s rc s'] by metis
  show "hash_final len s = (rc, d, s') \<Longrightarrow> I s'"
    using I hash_final_frame [of len s rc d s'] by metis
qed

lemma read_chunk_frame:
  assumes "read_chunk read_f lba k addr s = Some (rc, s')" and "read_cb_frame read_f st I"
    and "no_wrap addr (unat k)" and "cb_inv I" and "I s"
  shows "I s'" and "current_hash_ops s' = current_hash_ops s" and "st (world s') = st (world s)"
    and "\<not> in_range addr (unat k) x \<Longrightarrow> mem s' x = mem s x"
proof -
  have "I s' \<and> current_hash_ops s' = current_hash_ops s \<and> st (world s') = st (world s) \<and>
    (\<not> in_range addr (unat k) x \<longrightarrow> mem s' x = mem s x)"
  proof (cases read_f)
    case None
    with assms(1,5) show ?thesis by (simp add: read_chunk_def)
  next
    case (Some f)
    obtain data s1 where f: "f (sint (ucast lba :: u32)) k s = Some (rc, data, s1)"
        "s' = s1\<lparr>mem := mem_write (mem s1) addr (take (unat k) data)\<rparr>"
      using assms(1) Some by (auto simp: read_chunk_def split: option.splits)
    have "I s1 \<and> mem s1 = mem s \<and> current_hash_ops s1 = current_hash_ops s \<and> st (world s1) = st (world s)"
      using assms(2,5) Some f(1) unfolding read_cb_frame_def by blast
    moreover have "\<not> in_range addr (unat k) x \<Longrightarrow> mem_write (mem s1) addr (take (unat k) data) x = mem s1 x"
      using assms(3) by (intro mem_write_other) (auto simp: no_wrap_def in_range_def)
    ultimately show ?thesis using f(2) cb_invD(2) [OF assms(4)] by simp
  qed
  then show "I s'" "current_hash_ops s' = current_hash_ops s" "st (world s') = st (world s)"
    "\<not> in_range addr (unat k) x \<Longrightarrow> mem s' x = mem s x"
    by blast+
qed

lemma load_chunks_OK:
  assumes "load_chunks read_f c po a off n s = Some (PB_OK, s')" and "c \<noteq> 0"
    and "hash_ctx s H st" and "read_cb_frame read_f st I" and "unat a + unat off + unat n < 2 ^ 64"
    and "cb_inv I" and "I s"
  shows "I s' \<and> hash_ctx s' H st \<and>
    st (world s') = (fst (st (world s)), snd (st (world s)) @ mem_read (mem s') (a + off) (unat n)) \<and>
    (\<forall>x. \<not> in_range (a + off) (unat n) x \<longrightarrow> mem s' x = mem s x)"
  using assms(1,3,5,7)
proof (induction "unat n" arbitrary: off n s rule: less_induct)
  case less
  show ?case
  proof (cases "n = 0")
    case True
    with less.prems show ?thesis by (subst (asm) load_chunks.simps) simp
  next
    case False
    define k where "k = (if n > c then c else n)"
    have k: "k \<noteq> 0" "unat k \<le> unat n" using False assms(2) by (auto simp: k_def word_less_nat_alt word_le_nat_alt)
    then have k0: "0 < unat k" by (simp add: unat_gt_0)
    have nk: "unat (n - k) = unat n - unat k" using k(2) by (simp add: unat_sub word_le_nat_alt)
    have ok: "unat (off + k) = unat off + unat k"
      using k(2) less.prems(3) by (intro unat_plus_no_wrap) simp
    have ao: "unat (a + off) = unat a + unat off"
      using less.prems(3) by (intro unat_plus_no_wrap) simp
    have nw: "no_wrap (a + off) (unat k)" "no_wrap (a + off) (unat n)"
      using k(2) less.prems(3) ao by (simp_all add: no_wrap_def)
    from less.prems(1) False
    obtain s1 s2 where 1: "read_chunk read_f ((off + po - 4096) div 512) k (a + off) s = Some (PB_OK, s1)"
      and 2: "hash_update_async (mem_read (mem s1) (a + off) (unat k)) s1 = (PB_OK, s2)"
      and 3: "load_chunks read_f c po a (off + k) (n - k) s2 = Some (PB_OK, s')"
      by (subst (asm) load_chunks.simps) (auto simp: Let_def k_def [symmetric] split: prod.splits if_splits option.splits)
    note fr = read_chunk_frame(2-4) [OF 1 assms(4) nw(1) assms(6) less.prems(4)]
    have I: "I s2"
      using cb_invD(4) [OF assms(6) _ 2] read_chunk_frame(1) [OF 1 assms(4) nw(1) assms(6) less.prems(4)] .
    have ctx: "hash_ctx s1 H st" using less.prems(2) fr(1) by (simp add: hash_ctx_def)
    note upd = hash_update_async_OK [OF 2 ctx] hash_keeps(3) [OF 2]
    have IH: "I s' \<and> hash_ctx s' H st \<and>
        st (world s') = (fst (st (world s2)), snd (st (world s2)) @ mem_read (mem s') (a + (off + k)) (unat (n - k))) \<and>
        (\<forall>x. \<not> in_range (a + (off + k)) (unat (n - k)) x \<longrightarrow> mem s' x = mem s2 x)"
      using k0 k(2) nk ok less.prems(3) by (intro less.hyps 3 upd(1) I) simp_all
    have ak: "unat (a + (off + k)) = unat a + unat off + unat k"
      using ok k(2) less.prems(3) by (subst unat_plus_no_wrap) simp_all
    have same: "mem_read (mem s') (a + off) (unat k) = mem_read (mem s1) (a + off) (unat k)"
      using IH upd(3) ak ao by (intro mem_read_cong nw(1)) (auto simp: in_range_def)
    have "mem_read (mem s') (a + off) (unat n) =
        mem_read (mem s') (a + off) (unat k) @ mem_read (mem s') (a + (off + k)) (unat (n - k))"
      using mem_read_add [of "mem s'" "a + off" "unat k" "unat (n - k)"] nk k(2) by (simp add: add.assoc)
    moreover have "mem s' x = mem s x" if "\<not> in_range (a + off) (unat n) x" for x
    proof -
      have "\<not> in_range (a + (off + k)) (unat (n - k)) x" "\<not> in_range (a + off) (unat k) x"
        using that ak ao nk k(2) by (auto simp: in_range_def)
      with IH upd(3) fr(3) show ?thesis by simp
    qed
    ultimately show ?thesis using IH upd(2) fr(2) same by simp
  qed
qed

text \<open>The memory a part is loaded to.\<close>

definition part_bytes :: "bpak_header \<Rightarrow> memory \<Rightarrow> bpak_part_header \<Rightarrow> u8 list" where
  "part_bytes hdr m p =
     (case part_load_addr hdr p of
        Inr (Some a) \<Rightarrow> mem_read m a (unat (bpak_part_size p)) | _ \<Rightarrow> [])"

definition in_part :: "bpak_header \<Rightarrow> bpak_part_header \<Rightarrow> u64 \<Rightarrow> bool" where
  "in_part hdr p x =
     (case part_load_addr hdr p of
        Inr (Some a) \<Rightarrow> in_range a (unat (bpak_part_size p)) x | _ \<Rightarrow> False)"

definition part_no_wrap :: "bpak_header \<Rightarrow> bpak_part_header \<Rightarrow> bool" where
  "part_no_wrap hdr p =
     (case part_load_addr hdr p of
        Inr (Some a) \<Rightarrow> unat a + unat (bpak_part_size p) < 2 ^ 64 | _ \<Rightarrow> True)"

definition parts_disjoint :: "bpak_header \<Rightarrow> bpak_part_header list \<Rightarrow> bool" where
  "parts_disjoint hdr ps \<longleftrightarrow> list_all (part_no_wrap hdr) ps \<and>
     sorted_wrt (\<lambda>p q. \<forall>x. \<not> (in_part hdr p x \<and> in_part hdr q x)) ps"

lemma part_bytes_cong:
  assumes "part_no_wrap hdr p" and "\<And>x. in_part hdr p x \<Longrightarrow> m x = m' x"
  shows "part_bytes hdr m p = part_bytes hdr m' p"
  using assms by (auto simp: part_bytes_def in_part_def part_no_wrap_def no_wrap_def
      intro!: mem_read_cong split: sum.splits option.splits)

lemma part_load_addr_Inl: "part_load_addr hdr p = Inl rc \<Longrightarrow> rc = err PB_ERR_BAD_META"
  by (auto simp: part_load_addr_def split: prod.splits if_splits option.splits)

lemma load_parts_OK:
  assumes "load_parts_from hdr c read_f result_f ps s = Some (PB_OK, s')" and "c \<noteq> 0"
    and "hash_ctx s H st" and "read_cb_frame read_f st I" and "result_cb_frame result_f st I"
    and "parts_disjoint hdr (used_parts ps)" and "cb_inv I" and "I s"
  shows "I s' \<and> hash_ctx s' H st \<and>
    st (world s') = (fst (st (world s)), snd (st (world s)) @ concat (map (part_bytes hdr (mem s')) (used_parts ps))) \<and>
    (\<forall>x. (\<forall>p \<in> set (used_parts ps). \<not> in_part hdr p x) \<longrightarrow> mem s' x = mem s x)"
  using assms(1,3,6,8)
proof (induction ps arbitrary: s)
  case Nil
  then show ?case by simp
next
  case (Cons p ps)
  show ?case
  proof (cases "p_id p = 0")
    case True
    with Cons.prems show ?thesis by simp
  next
    case False
    then obtain a where a: "part_load_addr hdr p = Inr (Some a)"
      using Cons.prems(1) part_load_addr_Inl [of hdr p]
      by (cases "part_load_addr hdr p") (auto split: option.splits)
    obtain rc s1 rc2 s2 where
      1: "load_chunks read_f c (bpak_part_offset hdr p) a 0 (bpak_part_size p) s = Some (rc, s1)"
      and 2: "(case result_f of None \<Rightarrow> Some (rc, s1) | Some f \<Rightarrow> f rc s1) = Some (rc2, s2)" "rc2 = PB_OK"
      and 3: "load_parts_from hdr c read_f result_f ps s2 = Some (PB_OK, s')"
      using Cons.prems(1) False a by (auto split: option.splits prod.splits if_splits)
    have disj: "part_no_wrap hdr p" "parts_disjoint hdr (used_parts ps)"
      "\<And>q x. q \<in> set (used_parts ps) \<Longrightarrow> in_part hdr p x \<Longrightarrow> \<not> in_part hdr q x"
      using Cons.prems(3) False by (auto simp: parts_disjoint_def)
    have "unat a + unat (0 :: u64) + unat (bpak_part_size p) < 2 ^ 64"
      using disj(1) a by (simp add: part_no_wrap_def)
    note chunks = load_chunks_OK [OF _ assms(2) Cons.prems(2) assms(4) this assms(7) Cons.prems(4)]
    have rc: "rc = PB_OK" using 2 assms(5) unfolding result_cb_frame_def by (auto split: option.splits)
    have "I s1" using chunks 1 rc by blast
    then have fr: "mem s2 = mem s1" "current_hash_ops s2 = current_hash_ops s1" "st (world s2) = st (world s1)" "I s2"
      using 2 assms(5) unfolding result_cb_frame_def by (auto split: option.splits)
    from chunks [OF 1 [unfolded rc]] a
    have L: "hash_ctx s1 H st"
      "st (world s1) = (fst (st (world s)), snd (st (world s)) @ part_bytes hdr (mem s1) p)"
      "\<And>x. \<not> in_part hdr p x \<Longrightarrow> mem s1 x = mem s x"
      by (simp_all add: part_bytes_def in_part_def)
    have "hash_ctx s2 H st" using L(1) fr(2) by (simp add: hash_ctx_def)
    from Cons.IH [OF 3 this disj(2) fr(4)] L fr
    have IH: "I s'" "hash_ctx s' H st" "st (world s') = (fst (st (world s)), snd (st (world s)) @ part_bytes hdr (mem s1) p @
        concat (map (part_bytes hdr (mem s')) (used_parts ps)))"
      "\<And>x. \<forall>q \<in> set (used_parts ps). \<not> in_part hdr q x \<Longrightarrow> mem s' x = mem s1 x"
      by auto
    have "part_bytes hdr (mem s1) p = part_bytes hdr (mem s') p"
      by (rule part_bytes_cong [OF disj(1)]) (use IH(4) disj(3) in auto)
    then show ?thesis using IH L(3) False by auto
  qed
qed

lemma load_and_hash_OK:
  assumes "boot_image_load_and_hash hdr c read_f result_f digest s = Some (PB_OK, digest', s')"
  obtains hk n s1 s2 data where "bpak_valid_header hdr = BPAK_OK"
    "image_hash_kind (hash_kind hdr) = Some (hk, n)" "n \<le> length digest" "hash_init hk s = (PB_OK, s1)"
    "load_parts_from hdr c read_f result_f (parts hdr) s1 = Some (PB_OK, s2)"
    "hash_final (of_nat (length digest)) s2 = (PB_OK, data, s')" "digest' = overlay digest data"
  using assms
  by (auto simp: boot_image_load_and_hash_def not_less split: if_splits option.splits prod.splits)

lemma verify_payload_OK:
  assumes "boot_image_verify_payload hdr digest = PB_OK" and "image_hash_kind (hash_kind hdr) = Some (hk, n)"
    and "n \<le> length digest" and "length (payload_hash hdr) = 64"
  shows "take n (payload_hash hdr) = take n digest"
  using assms image_hash_kind_length [OF assms(2)]
  by (auto simp: boot_image_verify_payload_def memcmp_eq_0 split: if_splits)

lemma load_and_hash_digest:
  assumes "boot_image_load_and_hash hdr c read_f result_f digest s = Some (PB_OK, digest', s')"
    and "c \<noteq> 0" and "hash_drivers s H st"
    and "read_cb_frame read_f st I" and "result_cb_frame result_f st I"
    and "parts_disjoint hdr (used_parts (parts hdr))" and "cb_inv I" and "I s"
  shows "I s' \<and> length digest' = length digest \<and>
    (\<exists>hk n. image_hash_kind (hash_kind hdr) = Some (hk, n) \<and> n \<le> length digest \<and>
      take n digest' = H hk (concat (map (part_bytes hdr (mem s')) (used_parts (parts hdr)))) \<and>
      (\<forall>x. (\<forall>p \<in> set (used_parts (parts hdr)). \<not> in_part hdr p x) \<longrightarrow> mem s' x = mem s x))"
  using assms(1)
proof (rule load_and_hash_OK)
  fix hk n s1 s2 data
  assume hk: "image_hash_kind (hash_kind hdr) = Some (hk, n)" and n: "n \<le> length digest"
    and 1: "hash_init hk s = (PB_OK, s1)"
    and 2: "load_parts_from hdr c read_f result_f (parts hdr) s1 = Some (PB_OK, s2)"
    and 3: "hash_final (of_nat (length digest)) s2 = (PB_OK, data, s')" and d: "digest' = overlay digest data"
  note init = hash_init_OK [OF 1 assms(3)]
  note load = load_parts_OK [OF 2 assms(2) init(1) assms(4-7) cb_invD(3) [OF assms(7,8) 1]]
  have fin: "data = H hk (concat (map (part_bytes hdr (mem s2)) (used_parts (parts hdr))))"
    "length data = digest_len_of hk"
    using hash_final_OK [OF 3, of H st] load init(2) by auto
  have mem: "mem s' = mem s2" "mem s1 = mem s" using hash_keeps(4) [OF 3] hash_keeps(1) [OF 1] by simp_all
  have "take n digest' = data"
    using take_overlay [of data digest] d fin(2) image_hash_kind_length [OF hk] n by simp
  then show ?thesis using hk n d fin(1) mem load cb_invD(5) [OF assms(7) _ 3] by auto
qed

text \<open>
  C6: the memory the image was loaded to is the payload that the header's digest was made
  for. With hash drivers for \<open>H\<close>, callbacks that keep to their buffers, and parts whose
  load ranges neither wrap nor overlap each other: when \<open>boot_image_load_and_hash\<close> and
  \<open>boot_image_verify_payload\<close> succeed, the digest \<open>H\<close> of the bytes in memory after loading,
  over all listed parts in their order, is the payload hash in the header, and memory
  outside of the parts' ranges is as before.
\<close>

theorem loaded_payload_matches_digest:
  assumes "boot_image_load_and_hash hdr c read_f result_f digest s = Some (PB_OK, digest', s')"
    and "boot_image_verify_payload hdr digest' = PB_OK"
    and "c \<noteq> 0" and "header_wf hdr" and "hash_drivers s H st"
    and "read_cb_frame read_f st I" and "result_cb_frame result_f st I"
    and "parts_disjoint hdr (used_parts (parts hdr))" and "cb_inv I" and "I s"
  shows "\<exists>hk n. image_hash_kind (hash_kind hdr) = Some (hk, n) \<and>
      H hk (concat (map (part_bytes hdr (mem s')) (used_parts (parts hdr)))) = take n (payload_hash hdr) \<and>
      (\<forall>x. (\<forall>p \<in> set (used_parts (parts hdr)). \<not> in_part hdr p x) \<longrightarrow> mem s' x = mem s x)"
  using load_and_hash_digest [OF assms(1,3,5-10)] verify_payload_OK [OF assms(2)] assms(4)
  by (auto simp: header_wf_def)

text \<open>A header with one part of 512 bytes, loaded to address \<open>0x1000\<close>.\<close>

definition demo_part :: bpak_part_header where
  "demo_part = part_zero\<lparr>p_id := 7, p_size := 512\<rparr>"

definition demo_meta :: bpak_meta_header where
  "demo_meta = meta_zero\<lparr>m_id := BPAK_ID_PB_LOAD_ADDR, m_size := 8, m_part_id_ref := 7\<rparr>"

definition demo_image :: bpak_header where
  "demo_image = demo_unsigned\<lparr>parts := demo_part # replicate 31 part_zero,
     meta := demo_meta # replicate 31 meta_zero,
     metadata := le_bytes 8 (0x1000 :: u64) @ replicate 1912 0,
     payload_hash := sum_hash HASH_SHA256 (replicate 512 3) @ replicate 32 0\<rparr>"

definition demo_read :: "('w, 'z) crypto_scheme boot_read_cb_t" where
  "demo_read lba n s = Some (PB_OK, replicate (unat n) 3, s)"

lemma demo_image_facts:
  "header_wf demo_image" "bpak_valid_header demo_image = BPAK_OK"
  "image_hash_kind (hash_kind demo_image) = Some (4, 32)"
  "used_parts (parts demo_image) = [demo_part]" "bpak_part_size demo_part = 512"
  "part_load_addr demo_image demo_part = Inr (Some 0x1000)"
proof -
  show wf: "header_wf demo_image"
    using header_wf_init
    by (auto simp: header_wf_def demo_image_def demo_unsigned_def sum_hash_def digest_len_of_def
        meta_wf_def meta_zero_def demo_meta_def list_all_length nth_Cons')
  show "used_parts (parts demo_image) = [demo_part]" "bpak_part_size demo_part = 512"
    "image_hash_kind (hash_kind demo_image) = Some (4, 32)"
    by (simp_all add: demo_image_def demo_part_def part_zero_def bpak_part_size_def image_hash_kind_def
        demo_unsigned_def bpak_init_header_def)
  show "bpak_valid_header demo_image = BPAK_OK"
    by (simp add: bpak_valid_header_def demo_image_def demo_unsigned_def bpak_init_header_def demo_meta_def
        demo_part_def) (simp add: part_zero_def meta_zero_def numeral_eq_Suc)
  have "bpak_get_meta_u64 demo_image demo_meta = Some 0x1000"
    using bpak_get_meta_u64_eq [OF wf, of demo_meta]
    by (simp add: demo_meta_def meta_zero_def) (simp add: demo_image_def window_append1)
  then show "part_load_addr demo_image demo_part = Inr (Some 0x1000)"
    by (simp add: part_load_addr_def bpak_get_meta_def bpak_get_meta_int_def demo_image_def demo_part_def)
       (simp add: demo_meta_def demo_image_def)
qed

lemma demo_load:
  "\<exists>s'. boot_image_load_and_hash demo_image 4096 (Some demo_read) None (replicate 64 0) demo_state =
     Some (PB_OK, sum_hash HASH_SHA256 (replicate 512 3) @ replicate 32 0, s')"
proof -
  have [simp]: "parts demo_image = demo_part # replicate 31 part_zero" "p_id demo_part = 7" "p_id part_zero = 0"
    by (simp_all add: demo_image_def demo_part_def part_zero_def)
  have [simp]: "hash_ops demo_state = [Some sum_hash_ops]" by (simp add: demo_state_def sum_crypto_def)
  have "replicate 31 part_zero = part_zero # replicate 30 part_zero" by (simp flip: replicate_Suc)
  then have [simp]: "load_parts_from h c r f (replicate 31 part_zero) s = Some (PB_OK, s)"
    for h c r f and s :: "(hash_t \<times> u8 list) crypto" by simp
  have m: "mem_read (mem_write m 0x1000 (replicate 512 3)) 0x1000 512 = replicate 512 3" for m
    using mem_read_mem_write [of "replicate 512 3" m "0x1000"] by simp
  have "overlay (replicate 64 0) (sum_hash 4 (replicate 512 3)) = sum_hash 4 (replicate 512 3) @ replicate 32 0"
    by (simp add: overlay_def sum_hash_def digest_len_of_def)
  then show ?thesis
    by (simp add: boot_image_load_and_hash_def demo_image_facts hash_init_def Let_def sum_hash_ops_def
        load_chunks.simps [of _ 4096 _ 4096] read_chunk_def demo_read_def hash_update_async_def hash_final_def m
        demo_state_def sum_crypto_def)
qed

theorem loaded_payload_matches_digest_witness:
  "\<exists>s' digest. boot_image_load_and_hash demo_image 4096 (Some demo_read) None (replicate 64 0) demo_state =
       Some (PB_OK, digest, s') \<and> boot_image_verify_payload demo_image digest = PB_OK \<and>
     sum_hash 4 (part_bytes demo_image (mem s') demo_part) = take 32 (payload_hash demo_image)"
proof -
  let ?d = "sum_hash HASH_SHA256 (replicate 512 3) @ replicate 32 0"
  obtain s' where load: "boot_image_load_and_hash demo_image 4096 (Some demo_read) None (replicate 64 0)
      demo_state = Some (PB_OK, ?d, s')"
    using demo_load by blast
  have ver: "boot_image_verify_payload demo_image ?d = PB_OK"
    using demo_image_facts by (simp add: boot_image_verify_payload_def) (simp add: demo_image_def)
  have disj: "parts_disjoint demo_image (used_parts (parts demo_image))"
    by (simp add: parts_disjoint_def demo_image_facts part_no_wrap_def)
  have fr: "read_cb_frame (Some demo_read) st (\<lambda>_. True)" "result_cb_frame None st (\<lambda>_. True)" "cb_inv (\<lambda>_. True)" for st
    by (simp_all add: read_cb_frame_def result_cb_frame_def demo_read_def cb_inv_def)
  from loaded_payload_matches_digest [OF load ver _ demo_image_facts(1) demo_drivers(1) fr(1,2) disj fr(3)]
  have "sum_hash 4 (part_bytes demo_image (mem s') demo_part) = take 32 (payload_hash demo_image)"
    by (simp add: demo_image_facts)
  with load ver show ?thesis by blast
qed

subsection \<open>Placement of the parts\<close>

definition loader_regions :: "mem_layout \<Rightarrow> (u64 \<times> u64) list" where
  "loader_regions L =
     [(stack_start L, stack_end L), (data_start L, data_end L), (bss_start L, bss_end L),
      (code_start L, code_end L), (no_init_start L, no_init_end L)]"

lemma verify_parts_from_iff:
  "verify_parts_from L hdr ps = Some PB_OK \<longleftrightarrow>
   (\<forall>p \<in> set (used_parts ps). \<exists>a. part_load_addr hdr p = Inr (Some a) \<and>
      (\<forall>(lo, hi) \<in> set (loader_regions L). \<not> CHECK_OVERLAP a (bpak_part_size p) lo hi))"
proof (induction ps)
  case (Cons p ps)
  show ?case
  proof (cases "p_id p = 0")
    case False
    with Cons part_load_addr_Inl [of hdr p] show ?thesis
      by (cases "part_load_addr hdr p")
         (auto simp: Let_def loader_regions_def split: option.splits if_splits)
  qed simp
qed simp

lemma CHECK_OVERLAP_no_wrap:
  assumes "unat a + unat n < 2 ^ 64" and "\<not> CHECK_OVERLAP a n lo hi"
  shows "unat hi < unat a \<or> unat a + unat n < unat lo"
proof -
  have "unat (a + n) = unat a + unat n" using assms(1) by (intro unat_plus_no_wrap) simp
  with assms(2) show ?thesis by (auto simp: CHECK_OVERLAP_def word_le_nat_alt not_le)
qed

lemma verify_parts_spare:
  assumes "boot_image_verify_parts L hdr = Some PB_OK" and "p \<in> set (used_parts (parts hdr))"
  shows "\<exists>a. part_load_addr hdr p = Inr (Some a) \<and>
    (unat a + unat (bpak_part_size p) < 2 ^ 64 \<longrightarrow>
      (\<forall>(lo, hi) \<in> set (loader_regions L). \<forall>x. in_part hdr p x \<longrightarrow> x < lo \<or> hi < x))"
proof -
  have "verify_parts_from L hdr (parts hdr) = Some PB_OK"
    using assms(1) by (auto simp: boot_image_verify_parts_def split: if_splits)
  then obtain a where a: "part_load_addr hdr p = Inr (Some a)"
      "\<forall>(lo, hi) \<in> set (loader_regions L). \<not> CHECK_OVERLAP a (bpak_part_size p) lo hi"
    using assms(2) by (auto simp: verify_parts_from_iff)
  have "x < lo \<or> hi < x"
    if "unat a + unat (bpak_part_size p) < 2 ^ 64" "(lo, hi) \<in> set (loader_regions L)" "in_part hdr p x" for lo hi x
  proof -
    have "unat hi < unat a \<or> unat a + unat (bpak_part_size p) < unat lo"
      using CHECK_OVERLAP_no_wrap [OF that(1)] a(2) that(2) by blast
    then show ?thesis
      using that(3) a(1) by (auto simp: in_part_def in_range_def word_less_nat_alt)
  qed
  with a(1) show ?thesis by blast
qed


definition demo_layout :: mem_layout where
  "demo_layout = \<lparr>code_start = 0x8000, code_end = 0x9000, data_start = 0x9000, data_end = 0xa000,
     stack_start = 0xa000, stack_end = 0xb000, bss_start = 0xb000, bss_end = 0xc000,
     no_init_start = 0xc000, no_init_end = 0xd000\<rparr>"

lemma demo_verify_parts: "boot_image_verify_parts demo_layout demo_image = Some PB_OK"
  by (simp add: boot_image_verify_parts_def demo_image_facts verify_parts_from_iff loader_regions_def
      demo_layout_def CHECK_OVERLAP_def)



subsection \<open>Termination of the loading loop\<close>

text \<open>The callbacks return.\<close>

definition cbs_return :: "'s boot_read_cb_t option \<Rightarrow> 's boot_result_cb_t option \<Rightarrow> bool" where
  "cbs_return read_f result_f \<longleftrightarrow>
     (\<forall>f lba n s. read_f = Some f \<longrightarrow> f lba n s \<noteq> None) \<and> (\<forall>f rc s. result_f = Some f \<longrightarrow> f rc s \<noteq> None)"

lemma read_chunk_returns: "cbs_return read_f result_f \<Longrightarrow> \<exists>rc s'. read_chunk read_f lba k addr s = Some (rc, s')"
proof (cases read_f)
  case (Some f)
  assume "cbs_return read_f result_f"
  then obtain rc data s' where "f (sint (ucast lba :: u32)) k s = Some (rc, data, s')"
    using Some unfolding cbs_return_def by (metis not_None_eq prod_cases3)
  then show ?thesis using Some by (simp add: read_chunk_def)
qed (simp add: read_chunk_def)

lemma report_returns:
  assumes "cbs_return read_f result_f"
  shows "\<exists>rc' s'. (case result_f of None \<Rightarrow> Some (rc, s) | Some f \<Rightarrow> f rc s) = Some (rc', s')"
proof (cases result_f)
  case (Some f)
  then have "f rc s \<noteq> None" using assms by (simp add: cbs_return_def)
  then show ?thesis using Some by auto
qed simp

lemma load_chunks_returns:
  assumes "c \<noteq> 0" and "cbs_return read_f result_f"
  shows "\<exists>rc s'. load_chunks read_f c po a off n s = Some (rc, s')"
proof (induction "unat n" arbitrary: off n s rule: less_induct)
  case less
  define k where "k = (if n > c then c else n)"
  have k: "n \<noteq> 0 \<Longrightarrow> unat (n - k) < unat n"
    using assms(1) by (auto simp: k_def unat_sub word_le_nat_alt word_less_nat_alt unat_gt_0)
  obtain rc1 s1 where "read_chunk read_f ((off + po - 4096) div 512) k (a + off) s = Some (rc1, s1)"
    using read_chunk_returns [OF assms(2)] by blast
  then show ?case
    by (subst load_chunks.simps)
       (auto simp: Let_def k_def [symmetric] split: prod.splits intro!: less k)
qed

lemma load_parts_returns:
  assumes "c \<noteq> 0" and "\<forall>p \<in> set (used_parts ps). part_load_addr hdr p \<noteq> Inr None"
    and "cbs_return read_f result_f"
  shows "\<exists>r. load_parts_from hdr c read_f result_f ps s = Some r"
  using assms(2)
proof (induction ps arbitrary: s)
  case (Cons p ps)
  show ?case
  proof (cases "p_id p = 0")
    case False
    then have na: "part_load_addr hdr p \<noteq> Inr None" and ps: "\<forall>p \<in> set (used_parts ps). part_load_addr hdr p \<noteq> Inr None"
      using Cons.prems by simp_all
    show ?thesis
    proof (cases "part_load_addr hdr p")
      case (Inr b)
      with na obtain a where a: "part_load_addr hdr p = Inr (Some a)" by (cases b) auto
      obtain rc s1 where "load_chunks read_f c (bpak_part_offset hdr p) a 0 (bpak_part_size p) s = Some (rc, s1)"
        using load_chunks_returns [OF assms(1,3), of "bpak_part_offset hdr p" a 0 "bpak_part_size p" s] by auto
      moreover obtain rc2 s2 where "(case result_f of None \<Rightarrow> Some (rc, s1) | Some f \<Rightarrow> f rc s1) = Some (rc2, s2)"
        using report_returns [OF assms(3)] by blast
      ultimately show ?thesis using a False Cons.IH [OF ps] by auto
    qed (use False in simp)
  qed simp
qed simp

lemma load_and_hash_total:
  assumes "boot_image_verify_parts L hdr = Some PB_OK" and "load_chunk_size \<noteq> 0"
    and "cbs_return read_f result_f"
  shows "\<exists>rc digest' s'. boot_image_load_and_hash hdr load_chunk_size read_f result_f digest s =
    Some (rc, digest', s')"
proof -
  have "verify_parts_from L hdr (parts hdr) = Some PB_OK"
    using assms(1) by (auto simp: boot_image_verify_parts_def split: if_splits)
  then have "\<forall>p \<in> set (used_parts (parts hdr)). part_load_addr hdr p \<noteq> Inr None"
    by (auto simp: verify_parts_from_iff)
  note ret = load_parts_returns [OF assms(2) this assms(3)]
  show ?thesis
    by (auto simp: boot_image_load_and_hash_def split: option.split prod.split)
       (metis ret option.distinct(1))
qed

text \<open>
  C16: loading ends. For an image that \<open>boot_image_verify_parts\<close> accepted and a chunk size
  other than zero, \<open>boot_image_load_and_hash\<close> returns, whatever the results of the callbacks
  are, as long as they return.
\<close>

theorem load_and_hash_returns:
  assumes "boot_image_verify_parts L hdr = Some PB_OK" and "load_chunk_size \<noteq> 0"
    and "cbs_return read_f result_f"
  shows "\<exists>rc digest' s'. boot_image_load_and_hash hdr load_chunk_size read_f result_f digest s =
    Some (rc, digest', s')"
  using load_and_hash_total [OF assms] .

theorem load_and_hash_returns_witness:
  "\<exists>rc digest' s'. boot_image_load_and_hash demo_image 4096 (Some demo_read) None (replicate 64 0) demo_state =
    Some (rc, digest', s')"
  by (rule load_and_hash_returns [OF demo_verify_parts]) (simp_all add: cbs_return_def demo_read_def)

lemma load_chunks_no_read:
  assumes "c \<noteq> 0" and "load_chunks None c po a off n s = Some (rc, s')"
  shows "crypto_frame s s'"
  using assms(2)
proof (induction "unat n" arbitrary: off n s rule: less_induct)
  case less
  define k where "k = (if n > c then c else n)"
  have k: "n \<noteq> 0 \<Longrightarrow> unat (n - k) < unat n"
    using assms(1) by (auto simp: k_def unat_sub word_le_nat_alt word_less_nat_alt unat_gt_0)
  from less.prems show ?case
    by (subst (asm) load_chunks.simps)
       (auto simp: Let_def k_def [symmetric] read_chunk_def split: prod.splits if_splits
         dest!: crypto_frame_ops(3) less.hyps [OF k] intro: crypto_frame_trans)
qed

lemma load_parts_no_read:
  assumes "c \<noteq> 0" and "load_parts_from hdr c None None ps s = Some (rc, s')"
  shows "crypto_frame s s'"
  using assms(2)
  by (induction ps arbitrary: s)
     (auto split: if_splits sum.splits option.splits prod.splits dest!: load_chunks_no_read [OF assms(1)]
       intro: crypto_frame_trans)

lemma load_and_hash_no_read:
  assumes "c \<noteq> 0" and "boot_image_load_and_hash hdr c None None digest s = Some (PB_OK, digest', s')"
  shows "crypto_frame s s'"
  using assms(2)
  by (rule load_and_hash_OK)
     (auto dest!: load_parts_no_read [OF assms(1)] crypto_frame_ops(1) crypto_frame_ops(4) intro: crypto_frame_trans)

text \<open>The callbacks' property is kept by loading, whatever the result and the parts are.\<close>

lemma load_chunks_inv:
  assumes "c \<noteq> 0" and "cb_inv I" and "read_cb_frame read_f st I"
    and "load_chunks read_f c po a off n s = Some (rc, s')" and "I s"
  shows "I s'"
  using assms(4,5)
proof (induction "unat n" arbitrary: off n s rule: less_induct)
  case less
  define k where "k = (if n > c then c else n)"
  have k: "n \<noteq> 0 \<Longrightarrow> unat (n - k) < unat n"
    using assms(1) by (auto simp: k_def unat_sub word_le_nat_alt word_less_nat_alt unat_gt_0)
  have read: "I s1" if "read_chunk read_f lba k' addr s = Some (rc1, s1)" for lba k' addr rc1 s1
    using that assms(3) less.prems(2) cb_invD(2) [OF assms(2)]
    by (auto simp: read_chunk_def read_cb_frame_def split: option.splits prod.splits)
  show ?case
  proof (cases "n = 0")
    case True
    then show ?thesis using less.prems by (subst (asm) load_chunks.simps) simp
  next
    case False
    with less.prems(1) show ?thesis
      by (subst (asm) load_chunks.simps)
         (auto simp: Let_def k_def [symmetric] split: prod.splits if_splits option.splits
           dest: read cb_invD(4) [OF assms(2)] intro: less.hyps [OF k [OF False]])
  qed
qed

lemma load_parts_inv:
  assumes "c \<noteq> 0" and "cb_inv I" and "read_cb_frame read_f st I" and "result_cb_frame result_f st I"
    and "load_parts_from hdr c read_f result_f ps s = Some (rc, s')" and "I s"
  shows "I s'"
  using assms(5,6)
proof (induction ps arbitrary: s)
  case (Cons p ps)
  have res: "I t'" if "result_f = Some f" "f r t = Some (r', t')" "I t" for f r t r' t'
    using that assms(4) unfolding result_cb_frame_def by blast
  note chunks = load_chunks_inv [OF assms(1-3)]
  show ?case
  proof (cases "\<exists>a. p_id p \<noteq> 0 \<and> part_load_addr hdr p = Inr (Some a)")
    case True
    then obtain a r1 s1 r2 s2 where
      1: "load_chunks read_f c (bpak_part_offset hdr p) a 0 (bpak_part_size p) s = Some (r1, s1)"
      and 2: "(case result_f of None \<Rightarrow> Some (r1, s1) | Some f \<Rightarrow> f r1 s1) = Some (r2, s2)"
      and 3: "(if r2 \<noteq> PB_OK then Some (r2, s2) else load_parts_from hdr c read_f result_f ps s2) = Some (rc, s')"
      using Cons.prems(1) by (auto split: option.splits prod.splits)
    have "I s2" using chunks [OF 1 Cons.prems(2)] 2 res by (cases result_f) auto
    then show ?thesis using 3 Cons.IH by (auto split: if_splits)
  next
    case False
    then show ?thesis using Cons.prems by (auto split: if_splits sum.splits option.splits)
  qed
qed simp

lemma load_and_hash_inv:
  assumes "boot_image_load_and_hash hdr c read_f result_f digest s = Some (PB_OK, digest', s')"
    and "c \<noteq> 0" and "cb_inv I" and "read_cb_frame read_f st I" and "result_cb_frame result_f st I" and "I s"
  shows "I s' \<and> length digest' = length digest"
  using assms(1)
proof (rule load_and_hash_OK)
  fix hk n s1 s2 data
  assume 1: "hash_init hk s = (PB_OK, s1)"
    and 2: "load_parts_from hdr c read_f result_f (parts hdr) s1 = Some (PB_OK, s2)"
    and 3: "hash_final (of_nat (length digest)) s2 = (PB_OK, data, s')" and d: "digest' = overlay digest data"
  have "I s2" by (rule load_parts_inv [OF assms(2-5) 2 cb_invD(3) [OF assms(3,6) 1]])
  then show ?thesis using cb_invD(5) [OF assms(3) _ 3] d by simp
qed

end
