(* ===== verification/Crc.thy ===== *)
theory Crc
  imports Pb_Prelude
begin

text \<open>
  The checksum of \<open>src/lib/crc.c\<close>: the 256 entry table and the byte-wise loop over it,
  and the reference it optimises, the shift register of the polynomial \<open>0xedb88320\<close> that
  takes one bit at a time. The table-driven routine equals the shift register on every
  input, its register is a bijection at every step, and so no corruption that is confined
  to one byte goes unnoticed.
\<close>

subsection \<open>The code\<close>

definition crc32Table :: "u32 list" where
  "crc32Table =
   [0x00000000, 0x77073096, 0xee0e612c, 0x990951ba, 0x076dc419, 0x706af48f, 0xe963a535,
    0x9e6495a3, 0x0edb8832, 0x79dcb8a4, 0xe0d5e91e, 0x97d2d988, 0x09b64c2b, 0x7eb17cbd,
    0xe7b82d07, 0x90bf1d91, 0x1db71064, 0x6ab020f2, 0xf3b97148, 0x84be41de, 0x1adad47d,
    0x6ddde4eb, 0xf4d4b551, 0x83d385c7, 0x136c9856, 0x646ba8c0, 0xfd62f97a, 0x8a65c9ec,
    0x14015c4f, 0x63066cd9, 0xfa0f3d63, 0x8d080df5, 0x3b6e20c8, 0x4c69105e, 0xd56041e4,
    0xa2677172, 0x3c03e4d1, 0x4b04d447, 0xd20d85fd, 0xa50ab56b, 0x35b5a8fa, 0x42b2986c,
    0xdbbbc9d6, 0xacbcf940, 0x32d86ce3, 0x45df5c75, 0xdcd60dcf, 0xabd13d59, 0x26d930ac,
    0x51de003a, 0xc8d75180, 0xbfd06116, 0x21b4f4b5, 0x56b3c423, 0xcfba9599, 0xb8bda50f,
    0x2802b89e, 0x5f058808, 0xc60cd9b2, 0xb10be924, 0x2f6f7c87, 0x58684c11, 0xc1611dab,
    0xb6662d3d, 0x76dc4190, 0x01db7106, 0x98d220bc, 0xefd5102a, 0x71b18589, 0x06b6b51f,
    0x9fbfe4a5, 0xe8b8d433, 0x7807c9a2, 0x0f00f934, 0x9609a88e, 0xe10e9818, 0x7f6a0dbb,
    0x086d3d2d, 0x91646c97, 0xe6635c01, 0x6b6b51f4, 0x1c6c6162, 0x856530d8, 0xf262004e,
    0x6c0695ed, 0x1b01a57b, 0x8208f4c1, 0xf50fc457, 0x65b0d9c6, 0x12b7e950, 0x8bbeb8ea,
    0xfcb9887c, 0x62dd1ddf, 0x15da2d49, 0x8cd37cf3, 0xfbd44c65, 0x4db26158, 0x3ab551ce,
    0xa3bc0074, 0xd4bb30e2, 0x4adfa541, 0x3dd895d7, 0xa4d1c46d, 0xd3d6f4fb, 0x4369e96a,
    0x346ed9fc, 0xad678846, 0xda60b8d0, 0x44042d73, 0x33031de5, 0xaa0a4c5f, 0xdd0d7cc9,
    0x5005713c, 0x270241aa, 0xbe0b1010, 0xc90c2086, 0x5768b525, 0x206f85b3, 0xb966d409,
    0xce61e49f, 0x5edef90e, 0x29d9c998, 0xb0d09822, 0xc7d7a8b4, 0x59b33d17, 0x2eb40d81,
    0xb7bd5c3b, 0xc0ba6cad, 0xedb88320, 0x9abfb3b6, 0x03b6e20c, 0x74b1d29a, 0xead54739,
    0x9dd277af, 0x04db2615, 0x73dc1683, 0xe3630b12, 0x94643b84, 0x0d6d6a3e, 0x7a6a5aa8,
    0xe40ecf0b, 0x9309ff9d, 0x0a00ae27, 0x7d079eb1, 0xf00f9344, 0x8708a3d2, 0x1e01f268,
    0x6906c2fe, 0xf762575d, 0x806567cb, 0x196c3671, 0x6e6b06e7, 0xfed41b76, 0x89d32be0,
    0x10da7a5a, 0x67dd4acc, 0xf9b9df6f, 0x8ebeeff9, 0x17b7be43, 0x60b08ed5, 0xd6d6a3e8,
    0xa1d1937e, 0x38d8c2c4, 0x4fdff252, 0xd1bb67f1, 0xa6bc5767, 0x3fb506dd, 0x48b2364b,
    0xd80d2bda, 0xaf0a1b4c, 0x36034af6, 0x41047a60, 0xdf60efc3, 0xa867df55, 0x316e8eef,
    0x4669be79, 0xcb61b38c, 0xbc66831a, 0x256fd2a0, 0x5268e236, 0xcc0c7795, 0xbb0b4703,
    0x220216b9, 0x5505262f, 0xc5ba3bbe, 0xb2bd0b28, 0x2bb45a92, 0x5cb36a04, 0xc2d7ffa7,
    0xb5d0cf31, 0x2cd99e8b, 0x5bdeae1d, 0x9b64c2b0, 0xec63f226, 0x756aa39c, 0x026d930a,
    0x9c0906a9, 0xeb0e363f, 0x72076785, 0x05005713, 0x95bf4a82, 0xe2b87a14, 0x7bb12bae,
    0x0cb61b38, 0x92d28e9b, 0xe5d5be0d, 0x7cdcefb7, 0x0bdbdf21, 0x86d3d2d4, 0xf1d4e242,
    0x68ddb3f8, 0x1fda836e, 0x81be16cd, 0xf6b9265b, 0x6fb077e1, 0x18b74777, 0x88085ae6,
    0xff0f6a70, 0x66063bca, 0x11010b5c, 0x8f659eff, 0xf862ae69, 0x616bffd3, 0x166ccf45,
    0xa00ae278, 0xd70dd2ee, 0x4e048354, 0x3903b3c2, 0xa7672661, 0xd06016f7, 0x4969474d,
    0x3e6e77db, 0xaed16a4a, 0xd9d65adc, 0x40df0b66, 0x37d83bf0, 0xa9bcae53, 0xdebb9ec5,
    0x47b2cf7f, 0x30b5ffe9, 0xbdbdf21c, 0xcabac28a, 0x53b39330, 0x24b4a3a6, 0xbad03605,
    0xcdd70693, 0x54de5729, 0x23d967bf, 0xb3667a2e, 0xc4614ab8, 0x5d681b02, 0x2a6f2b94,
    0xb40bbe37, 0xc30c8ea1, 0x5a05df1b, 0x2d02ef8d]"

text \<open>The buffer holds exactly the \<open>size\<close> bytes the loop walks over.\<close>

fun crc32 :: "u32 \<Rightarrow> u8 list \<Rightarrow> u32" where
  "crc32 crc [] = crc"
| "crc32 crc (p # buf) =
     crc32 (crc32Table ! unat ((crc XOR ucast p) AND 0xff) XOR drop_bit 8 crc) buf"

subsection \<open>The shift register\<close>

definition crc_bit :: "u32 \<Rightarrow> u32" where
  "crc_bit c = (if bit c 0 then 0xedb88320 else 0) XOR drop_bit 1 c"

definition crc_byte :: "u32 \<Rightarrow> u8 \<Rightarrow> u32" where
  "crc_byte c b = (crc_bit ^^ 8) (c XOR ucast b)"

definition crc32_ref :: "u32 \<Rightarrow> u8 list \<Rightarrow> u32" where
  "crc32_ref c bs = foldl crc_byte c bs"

lemma crc_bit_xor: "crc_bit (a XOR b) = crc_bit a XOR crc_bit b"
  by (simp add: crc_bit_def bit_xor_iff ac_simps)

lemma crc_bit_funpow_xor: "(crc_bit ^^ n) (a XOR b) = (crc_bit ^^ n) a XOR (crc_bit ^^ n) b"
  by (induction n) (simp_all add: crc_bit_xor)

text \<open>While the low bits are clear the register only shifts.\<close>

lemma crc_bit_shift:
  "(\<forall>k < n. \<not> bit c k) \<Longrightarrow> (crc_bit ^^ n) c = drop_bit n c"
proof (induction n)
  case 0
  then show ?case by simp
next
  case (Suc n)
  have "\<not> bit (drop_bit n c) 0" using Suc.prems by (simp add: bit_drop_bit_eq)
  then show ?case using Suc by (simp add: crc_bit_def)
qed


subsection \<open>The table holds the register's response to each byte\<close>

text \<open>
  A linear function is known on \<open>2 ^ (k + 1)\<close> inputs once it is known on \<open>2 ^ k\<close> inputs
  and on the next power of two, so the table is checked with one exclusive-or per entry.
\<close>

primrec xor_table :: "(u32 \<Rightarrow> u32) \<Rightarrow> nat \<Rightarrow> u32 list" where
  "xor_table f 0 = [f 0]"
| "xor_table f (Suc k) = xor_table f k @ map (\<lambda>x. x XOR f (2 ^ k)) (xor_table f k)"

lemma of_nat_split_xor:
  assumes "i < 2 ^ k"
  shows "(of_nat (2 ^ k + i) :: u32) = of_nat i XOR 2 ^ k"
proof -
  have "take_bit k i = i" using assms by (simp add: take_bit_nat_eq_self)
  then have "\<not> bit i k" by (metis bit_take_bit_iff less_irrefl)
  then have "2 ^ k AND i = 0" by (auto simp: bit_eq_iff [of "_ AND _"] bit_simps)
  then have "2 ^ k + i = 2 ^ k XOR i" by (rule disjunctive_add_eq_xor)
  then show ?thesis by (simp add: of_nat_xor_eq xor.commute)
qed

lemma xor_table_map:
  assumes lin: "\<And>a b. f (a XOR b) = f a XOR f b"
  shows "xor_table f k = map (\<lambda>i. f (of_nat i)) [0..<2 ^ k]"
proof (induction k)
  case 0
  then show ?case by simp
next
  case (Suc k)
  have "map (\<lambda>i. f (of_nat i)) [2 ^ k..<2 ^ k + 2 ^ k]
      = map (\<lambda>i. f (of_nat (2 ^ k + i))) [0..<2 ^ k]"
    by (rule nth_equalityI) simp_all
  also have "\<dots> = map (\<lambda>i. f (of_nat i) XOR f (2 ^ k)) [0..<2 ^ k]"
    by (intro map_cong refl) (simp only: set_upt atLeastLessThan_iff of_nat_split_xor lin)
  finally have *: "map (\<lambda>i. f (of_nat i)) [2 ^ k..<2 ^ k + 2 ^ k]
      = map (\<lambda>i. f (of_nat i) XOR f (2 ^ k)) [0..<2 ^ k]" .
  have "[0..<2 ^ Suc k] = [0..<2 ^ k] @ [2 ^ k..<2 ^ k + 2 ^ k]"
    using upt_add_eq_append [of 0 "2 ^ k" "2 ^ k"] by (simp add: mult_2)
  with Suc * show ?case by (simp add: comp_def)
qed

lemma crc32Table_xor_table:
  assumes "f 0 = 0" "f 1 = 0x77073096" "f 2 = 0xee0e612c" "f 4 = 0x076dc419"
    "f 8 = 0x0edb8832" "f 16 = 0x1db71064" "f 32 = 0x3b6e20c8" "f 64 = 0x76dc4190"
    "f 128 = 0xedb88320"
  shows "crc32Table = xor_table f (Suc (Suc (Suc (Suc (Suc (Suc (Suc (Suc 0))))))))"
  by (simp add: crc32Table_def assms)

lemma crc_bit8: "(crc_bit ^^ 8) c =
    crc_bit (crc_bit (crc_bit (crc_bit (crc_bit (crc_bit (crc_bit (crc_bit c)))))))"
  by (simp add: eval_nat_numeral)

lemma crc32Table_nth: "i < 256 \<Longrightarrow> crc32Table ! i = (crc_bit ^^ 8) (of_nat i)"
proof -
  assume i: "i < 256"
  have "crc32Table = xor_table (crc_bit ^^ 8) (Suc (Suc (Suc (Suc (Suc (Suc (Suc (Suc 0))))))))"
    by (rule crc32Table_xor_table) (simp_all only: crc_bit8, simp_all add: crc_bit_def)
  also have "\<dots> = map (\<lambda>i. (crc_bit ^^ 8) (of_nat i)) [0..<2 ^ Suc (Suc (Suc (Suc (Suc (Suc (Suc (Suc 0)))))))]"
    by (rule xor_table_map) (simp_all add: crc_bit_funpow_xor)
  finally have "crc32Table ! i = (crc_bit ^^ 8) (of_nat (0 + i))"
    by (rule ssubst) (rule nth_map_upt, simp add: i)
  then show ?thesis by simp
qed

subsection \<open>The routine equals the shift register\<close>

lemma crc_byte_table:
  "crc32Table ! unat ((c XOR ucast b) AND 0xff) XOR drop_bit 8 c = crc_byte c b"
proof -
  define x where "x = c XOR ucast b"
  have low: "unat (x AND 0xff) < 256"
    using word_and_le1 [of x "0xff :: u32"] by (simp add: word_le_nat_alt)
  have split: "x = (x AND 0xff) XOR (x AND NOT 0xff)"
    by (rule bit_word_eqI) (auto simp: bit_simps)
  have ff: "(0xff :: u32) = mask 8" by (simp add: mask_eq_exp_minus_1)
  have "(crc_bit ^^ 8) (x AND NOT 0xff) = drop_bit 8 (x AND NOT 0xff)"
    by (rule crc_bit_shift) (simp add: ff bit_simps)
  also have "\<dots> = drop_bit 8 c"
  proof (rule bit_word_eqI)
    fix n
    show "bit (drop_bit 8 (x AND NOT 0xff)) n = bit (drop_bit 8 c) n"
      using bit_imp_le_length [of b "8 + n"] bit_imp_le_length [of c "8 + n"]
      by (auto simp: ff x_def bit_simps)
  qed
  finally have high: "(crc_bit ^^ 8) (x AND NOT 0xff) = drop_bit 8 c" .
  have "crc_byte c b = (crc_bit ^^ 8) (x AND 0xff) XOR (crc_bit ^^ 8) (x AND NOT 0xff)"
    unfolding crc_byte_def x_def [symmetric] by (subst split) (rule crc_bit_funpow_xor)
  then show ?thesis using crc32Table_nth [OF low] high by (simp add: x_def [symmetric])
qed

lemma crc32_Cons [simp]: "crc32 c (b # bs) = crc32 (crc_byte c b) bs"
  by (simp add: crc_byte_table)

declare crc32.simps(2) [simp del]

lemma crc32_foldl: "crc32 c bs = foldl crc_byte c bs"
  by (induction bs arbitrary: c) simp_all

lemma crc32_append: "crc32 c (xs @ ys) = crc32 (crc32 c xs) ys"
  by (simp add: crc32_foldl)

text \<open>
  C30: the table-driven \<open>crc32\<close> of the code computes, for every start value and every
  buffer, what the bit-serial shift register of the polynomial \<open>0xedb88320\<close> computes.
\<close>

theorem crc32_is_shift_register: "crc32 c bs = crc32_ref c bs"
  by (simp add: crc32_foldl crc32_ref_def)

subsection \<open>Detection of corruption\<close>

lemma inj_crc_bit: "inj crc_bit"
proof (rule injI)
  fix a b assume eq: "crc_bit a = crc_bit b"
  have top: "bit (crc_bit c) 31 = bit c 0" for c
    using bit_imp_le_length [of c 32] by (auto simp: crc_bit_def bit_simps)
  have "bit a 0 = bit b 0" using eq top by metis
  with eq have sh: "drop_bit 1 a = drop_bit 1 b" 
    by (auto simp: crc_bit_def word_xor_left_cancel split: if_splits)
  show "a = b"
  proof (rule bit_word_eqI)
    fix n
    show "bit a n = bit b n"
    proof (cases n)
      case 0
      then show ?thesis using \<open>bit a 0 = bit b 0\<close> by simp
    next
      case (Suc m)
      then show ?thesis using arg_cong [OF sh, of "\<lambda>w. bit w m"] by (simp add: bit_drop_bit_eq)
    qed
  qed
qed

lemma inj_crc_bit_funpow: "inj (crc_bit ^^ n)"
  using inj_crc_bit by (rule inj_fn)

lemma crc_byte_inj: "crc_byte c a = crc_byte c b \<longleftrightarrow> a = b"
proof
  assume "crc_byte c a = crc_byte c b"
  then have "c XOR ucast a = c XOR (ucast b :: u32)"
    unfolding crc_byte_def by (rule injD [OF inj_crc_bit_funpow])
  then show "a = b" by (simp add: word_xor_left_cancel ucast_inject)
qed simp

lemma crc_byte_inj_state: "crc_byte a b = crc_byte c b \<longleftrightarrow> a = c"
proof
  assume "crc_byte a b = crc_byte c b"
  then have "a XOR ucast b = c XOR ucast b"
    unfolding crc_byte_def by (rule injD [OF inj_crc_bit_funpow])
  then show "a = c" by (simp add: word_xor_right_cancel)
qed simp

lemma crc32_inj_state: "crc32 a bs = crc32 c bs \<longleftrightarrow> a = c"
  by (induction bs arbitrary: a c) (simp_all add: crc_byte_inj_state)

lemma crc32_byte_update:
  assumes "i < length bs" and "v \<noteq> bs ! i"
  shows "crc32 c (bs[i := v]) \<noteq> crc32 c bs"
proof -
  have "bs = take i bs @ bs ! i # drop (Suc i) bs" using assms(1) by (simp add: id_take_nth_drop)
  then have "crc32 c bs = crc32 (crc_byte (crc32 c (take i bs)) (bs ! i)) (drop (Suc i) bs)"
    by (metis crc32_Cons crc32_append)
  moreover have "crc32 c (bs[i := v]) = crc32 (crc_byte (crc32 c (take i bs)) v) (drop (Suc i) bs)"
    using assms(1) by (simp add: upd_conv_take_nth_drop crc32_append)
  ultimately show ?thesis using assms(2) by (simp add: crc32_inj_state crc_byte_inj)
qed

text \<open>
  Replacing one byte of a buffer by a different one always changes its checksum.
\<close>

theorem crc32_detects_byte:
  assumes "i < length bs" and "v \<noteq> bs ! i"
  shows "crc32 c (bs[i := v]) \<noteq> crc32 c bs"
  using assms by (rule crc32_byte_update)

theorem crc32_detects_byte_witness:
  "crc32 0 ([1, 2, 3][1 := 7]) \<noteq> crc32 0 [1, 2, 3]"
  by (rule crc32_detects_byte) simp_all

subsection \<open>Records that carry their own checksum\<close>

text \<open>
  A packed record with a 32 bit checksum field \<open>get\<close> at offset \<open>off\<close>, computed by \<open>sum\<close>
  over its first \<open>cov\<close> bytes with the field set to zero. A record is intact when the field
  holds that value.
\<close>

locale checksummed =
  fixes enc :: "'a \<Rightarrow> u8 list" and get :: "'a \<Rightarrow> u32" and put :: "u32 \<Rightarrow> 'a \<Rightarrow> 'a"
    and pre :: "'a \<Rightarrow> u8 list" and post :: "'a \<Rightarrow> u8 list"
    and sum :: "u8 list \<Rightarrow> u32" and off :: nat and cov :: nat and wf :: "'a \<Rightarrow> bool"
  assumes layout: "enc x = pre x @ le_bytes 4 (get x) @ post x"
    and length_pre: "wf x \<Longrightarrow> length (pre x) = off"
    and covers: "wf x \<Longrightarrow> cov \<le> length (enc x)" "off + 4 \<le> cov"
    and get_put: "get (put c x) = c"
    and put_put: "put c (put d x) = put c x"
    and pre_put: "pre (put c x) = pre x"
    and post_put: "post (put c x) = post x"
    and sum_byte: "i < length bs \<Longrightarrow> v \<noteq> bs ! i \<Longrightarrow> sum (bs[i := v]) \<noteq> sum bs"
begin

lemma intact_seal:
  "get (put (sum (take cov (enc (put 0 x)))) x) =
     sum (take cov (enc (put 0 (put (sum (take cov (enc (put 0 x)))) x))))"
  by (simp add: get_put put_put)

lemma enc_put: "enc (put c x) = pre x @ le_bytes 4 c @ post x"
  by (simp add: layout get_put pre_put post_put)

lemma byte_change_detected:
  assumes wf: "wf x" "wf y" and intact: "get x = sum (take cov (enc (put 0 x)))"
    and y: "enc y = (enc x)[i := v]" and i: "i < cov" "v \<noteq> enc x ! i"
  shows "get y \<noteq> sum (take cov (enc (put 0 y)))"
proof -
  let ?z = "\<lambda>x. pre x @ le_bytes 4 (0 :: u32) @ post x"
  note l = length_pre [OF wf(1)] length_pre [OF wf(2)]
  have parts: "pre y @ le_bytes 4 (get y) @ post y = (pre x @ le_bytes 4 (get x) @ post x)[i := v]"
    using y by (simp add: layout)
  have len: "cov \<le> length (?z x)" using covers(1) [OF wf(1)] by (simp add: layout)
  have sums: ?thesis if "get y = get x" "enc (put 0 y) = (enc (put 0 x))[i := v]" "enc (put 0 x) ! i = enc x ! i"
  proof -
    have "sum ((take cov (enc (put 0 x)))[i := v]) \<noteq> sum (take cov (enc (put 0 x)))"
      using i len that(3) unfolding enc_put [symmetric] by (intro sum_byte) simp_all
    with that(1,2) intact show ?thesis by (simp add: take_update_swap)
  qed
  consider "i < off" | j where "i = off + j" "j < 4" | j where "i = off + 4 + j"
    by (metis add.assoc le_Suc_ex less_or_eq_imp_le nat_add_left_cancel_less not_less)
  then show ?thesis
  proof cases
    case 1
    then have "pre y = (pre x)[i := v] \<and> le_bytes 4 (get y) = le_bytes 4 (get x) \<and> post y = post x"
      using parts l by (simp add: list_update_append)
    with 1 l show ?thesis
      by (intro sums) (auto simp: layout get_put pre_put post_put list_update_append nth_append intro: le32.enc_inject)
  next
    case 2
    then have eq: "pre y = pre x" "le_bytes 4 (get y) = (le_bytes 4 (get x))[j := v]" "post y = post x"
      using parts l by (simp_all add: list_update_append)
    have "le_bytes 4 (get x) ! j \<noteq> v" using i(2) 2 l by (simp add: layout nth_append)
    then have "le_bytes 4 (get y) \<noteq> le_bytes 4 (get x)"
      unfolding eq(2) using 2(2) by (metis length_le_bytes nth_list_update_eq)
    moreover have "enc (put 0 y) = enc (put 0 x)" using eq by (simp add: enc_put)
    ultimately show ?thesis using intact by auto
  next
    case 3
    then have "pre y = pre x \<and> le_bytes 4 (get y) = le_bytes 4 (get x) \<and> post y = (post x)[j := v]"
      using parts l by (simp add: list_update_append)
    with 3 l show ?thesis
      by (intro sums) (auto simp: layout get_put pre_put post_put list_update_append nth_append intro: le32.enc_inject)
  qed

qed

end

end
