(* ===== verification/Ab_State.thy ===== *)
theory Ab_State
  imports Crc Crypto
begin

text \<open>
  The A/B boot state \<open>src/boot/ab_state.c\<close> and its record \<open>include/boot/pb_state_blob.h\<close>: a
  512 byte record with a checksum, kept in a primary and a backup partition, that says
  which of the two systems to boot, which are verified and how many attempts are left.

  The static variables of the file extend the state of the crypto layer. The
  configuration that \<open>boot_ab_state_init\<close> stores in \<open>cfg\<close> is an argument of the
  operations; its four UUID pointers are not \<open>NULL\<close>.
\<close>

subsection \<open>The record\<close>

record pb_boot_state =
  bs_magic :: u32
  enable :: u32
  verified :: u32
  remaining_boot_attempts :: u32
  bs_error :: u32
  bs_rz :: "u8 list"
  board_regs :: "u32 list"
  bs_crc :: u32

definition state_ok :: "pb_boot_state \<Rightarrow> bool" where
  "state_ok st \<longleftrightarrow> length (bs_rz st) = 472 \<and> length (board_regs st) = 4"

definition enc_state_body :: "pb_boot_state \<Rightarrow> u8 list" where
  "enc_state_body st = le_bytes 4 (bs_magic st) @ le_bytes 4 (enable st) @ le_bytes 4 (verified st) @
     le_bytes 4 (remaining_boot_attempts st) @ le_bytes 4 (bs_error st) @ bs_rz st @
     enc_array (le_bytes 4) (board_regs st)"

definition enc_state :: "pb_boot_state \<Rightarrow> u8 list" where
  "enc_state st = enc_state_body st @ le_bytes 4 (bs_crc st)"

definition dec_state :: "u8 list \<Rightarrow> pb_boot_state" where
  "dec_state bs = \<lparr>bs_magic = le_word (window 0 4 bs), enable = le_word (window 4 4 bs),
     verified = le_word (window 8 4 bs), remaining_boot_attempts = le_word (window 12 4 bs),
     bs_error = le_word (window 16 4 bs), bs_rz = window 20 472 bs,
     board_regs = dec_array le_word 4 4 (window 492 16 bs), bs_crc = le_word (window 508 4 bs)\<rparr>"

definition PB_STATE_MAGIC :: u32 where "PB_STATE_MAGIC = 0x026d4a65"
definition PB_STATE_NO_OF_BOARD_REGS :: u32 where "PB_STATE_NO_OF_BOARD_REGS = 4"
definition PB_STATE_A_ENABLED :: u32 where "PB_STATE_A_ENABLED = 1"
definition PB_STATE_B_ENABLED :: u32 where "PB_STATE_B_ENABLED = 2"
definition PB_STATE_A_VERIFIED :: u32 where "PB_STATE_A_VERIFIED = 1"
definition PB_STATE_B_VERIFIED :: u32 where "PB_STATE_B_VERIFIED = 2"
definition PB_STATE_ERROR_A_ROLLBACK :: u32 where "PB_STATE_ERROR_A_ROLLBACK = 1"
definition PB_STATE_ERROR_B_ROLLBACK :: u32 where "PB_STATE_ERROR_B_ROLLBACK = 2"

lemmas pb_state_defs = PB_STATE_A_ENABLED_def PB_STATE_B_ENABLED_def PB_STATE_A_VERIFIED_def
  PB_STATE_B_VERIFIED_def PB_STATE_ERROR_A_ROLLBACK_def PB_STATE_ERROR_B_ROLLBACK_def

datatype ab_rollback_mode = AB_ROLLBACK_MODE_NORMAL | AB_ROLLBACK_MODE_SPECULATIVE

record boot_ab_state_config =
  primary_state_part_uu :: uuid_t
  backup_state_part_uu :: uuid_t
  sys_a_uu :: uuid_t
  sys_b_uu :: uuid_t
  rollback_mode :: ab_rollback_mode

record 'w ab = "'w crypto" +
  primary_part :: int
  backup_part :: int
  boot_state :: pb_boot_state
  boot_state_backup :: pb_boot_state

subsection \<open>The operations\<close>

definition pb_boot_state_zero :: pb_boot_state where
  "pb_boot_state_zero = \<lparr>bs_magic = 0, enable = 0, verified = 0, remaining_boot_attempts = 0,
     bs_error = 0, bs_rz = replicate 472 0, board_regs = replicate 4 0, bs_crc = 0\<rparr>"

text \<open>\<open>validate\<close> leaves the checksum field of its argument zero, whatever it returns.\<close>

definition validate :: "pb_boot_state \<Rightarrow> int \<times> pb_boot_state" where
  "validate state =
     (let crc = bs_crc state; state = state\<lparr>bs_crc := 0\<rparr> in
      if bs_magic state \<noteq> PB_STATE_MAGIC then (err PB_ERR, state)
      else if crc \<noteq> crc32 0 (enc_state state) then (err PB_ERR, state)
      else (PB_OK, state))"

definition pb_boot_state_defaults :: pb_boot_state where
  "pb_boot_state_defaults = pb_boot_state_zero\<lparr>bs_magic := PB_STATE_MAGIC\<rparr>"

definition pb_boot_state_commit :: "('w, 'z) ab_scheme \<Rightarrow> int \<times> ('w, 'z) ab_scheme" where
  "pb_boot_state_commit s =
     (let st = (boot_state s)\<lparr>bs_crc := 0\<rparr>;
          st = st\<lparr>bs_crc := crc32 0 (enc_state st)\<rparr>;
          s = s\<lparr>boot_state := st\<rparr>
      in case bio_write (primary_part s) 0 512 (enc_state st) s of (rc, s) \<Rightarrow>
           if rc \<noteq> PB_OK then (rc, s)
           else bio_write (backup_part s) 0 512 (enc_state st) s)"

text \<open>
  Reading a copy: the result of \<open>bio_read\<close> is ignored, so after a failed read the copy is
  what the static variable held, with the bytes the driver stored over it.
\<close>

definition boot_ab_state_init ::
  "boot_ab_state_config \<Rightarrow> ('w, 'z) ab_scheme \<Rightarrow> int \<times> ('w, 'z) ab_scheme" where
  "boot_ab_state_init cfg s =
     (let dev = bio_get_part_by_uu (Some (sys_a_uu cfg)) s in
      if dev < 0 then (dev, s)
      else
      let s = snd (bio_clear_set_flags dev 0 BIO_FLAG_BOOTABLE s);
          dev = bio_get_part_by_uu (Some (sys_b_uu cfg)) s in
      if dev < 0 then (dev, s)
      else
      let s = snd (bio_clear_set_flags dev 0 BIO_FLAG_BOOTABLE s);
          s = s\<lparr>primary_part := bio_get_part_by_uu (Some (primary_state_part_uu cfg)) s\<rparr>;
          s = s\<lparr>backup_part := bio_get_part_by_uu (Some (backup_state_part_uu cfg)) s\<rparr>
      in case bio_read (primary_part s) 0 512 s of (_, data, s) \<Rightarrow>
      let (rc, st) = validate (dec_state (overlay (enc_state (boot_state s)) data));
          primary_state_ok = (rc = PB_OK);
          s = s\<lparr>boot_state := st\<rparr>
      in case bio_read (backup_part s) 0 512 s of (_, data, s) \<Rightarrow>
      let (rc, st) = validate (dec_state (overlay (enc_state (boot_state_backup s)) data));
          backup_state_ok = (rc = PB_OK);
          s = s\<lparr>boot_state_backup := st\<rparr>
      in if \<not> primary_state_ok \<and> \<not> backup_state_ok then
           pb_boot_state_commit
             (s\<lparr>boot_state := pb_boot_state_defaults, boot_state_backup := pb_boot_state_defaults\<rparr>)
         else if \<not> backup_state_ok \<and> primary_state_ok then
           pb_boot_state_commit (s\<lparr>boot_state_backup := pb_boot_state_defaults\<rparr>)
         else if backup_state_ok \<and> \<not> primary_state_ok then
           pb_boot_state_commit (s\<lparr>boot_state := boot_state_backup s\<rparr>)
         else (PB_OK, s))"

text \<open>
  The choice of the system: an early return, or whether to commit, the UUID (\<open>None\<close> is
  \<open>NULL\<close>) and the state.
\<close>

definition ab_state_choice ::
  "boot_ab_state_config \<Rightarrow> pb_boot_state \<Rightarrow> int + bool \<times> uuid_t option \<times> pb_boot_state" where
  "ab_state_choice cfg st =
     (if enable st AND PB_STATE_A_ENABLED \<noteq> 0 then
        (if verified st AND PB_STATE_A_VERIFIED = 0 \<and> remaining_boot_attempts st > 0 then
           Inr (True, Some (sys_a_uu cfg),
                st\<lparr>remaining_boot_attempts := remaining_boot_attempts st - 1\<rparr>)
         else if verified st AND PB_STATE_A_VERIFIED = 0 then
           (if verified st AND PB_STATE_B_VERIFIED = 0 then
              (if rollback_mode cfg = AB_ROLLBACK_MODE_SPECULATIVE then
                 Inr (True, Some (sys_b_uu cfg),
                      st\<lparr>enable := PB_STATE_B_ENABLED, remaining_boot_attempts := 1,
                         bs_error := PB_STATE_ERROR_A_ROLLBACK\<rparr>)
               else Inl (err PB_ERR))
            else
              Inr (True, Some (sys_b_uu cfg),
                   st\<lparr>enable := PB_STATE_B_ENABLED, bs_error := PB_STATE_ERROR_A_ROLLBACK\<rparr>))
         else Inr (False, Some (sys_a_uu cfg), st))
      else if enable st AND PB_STATE_B_ENABLED \<noteq> 0 then
        (if verified st AND PB_STATE_B_VERIFIED = 0 \<and> remaining_boot_attempts st > 0 then
           Inr (True, Some (sys_b_uu cfg),
                st\<lparr>remaining_boot_attempts := remaining_boot_attempts st - 1\<rparr>)
         else if verified st AND PB_STATE_B_VERIFIED = 0 then
           (if verified st AND PB_STATE_A_VERIFIED = 0 \<and>
               rollback_mode cfg \<noteq> AB_ROLLBACK_MODE_SPECULATIVE then Inl (err PB_ERR)
            else
              let st = (if verified st AND PB_STATE_A_VERIFIED = 0 then
                          st\<lparr>enable := PB_STATE_A_ENABLED, remaining_boot_attempts := 1,
                             bs_error := PB_STATE_ERROR_B_ROLLBACK\<rparr>
                        else st)
              in Inr (True, Some (sys_a_uu cfg),
                      st\<lparr>enable := PB_STATE_A_ENABLED, bs_error := PB_STATE_ERROR_B_ROLLBACK\<rparr>))
         else Inr (False, Some (sys_b_uu cfg), st))
      else Inr (False, None, st))"

definition boot_ab_state_get ::
  "boot_ab_state_config \<Rightarrow> ('w, 'z) ab_scheme \<Rightarrow> int \<times> ('w, 'z) ab_scheme" where
  "boot_ab_state_get cfg s =
     (case ab_state_choice cfg (boot_state s) of
        Inl rc \<Rightarrow> (rc, s)
      | Inr (commit, boot_part_uu, st) \<Rightarrow>
          (case (if commit then pb_boot_state_commit (s\<lparr>boot_state := st\<rparr>) else (PB_OK, s)) of (rc, s) \<Rightarrow>
             if rc \<noteq> PB_OK then (rc, s)
             else case boot_part_uu of
               None \<Rightarrow> (err PB_ERR_NO_ACTIVE_BOOT_PARTITION, s)
             | Some uu \<Rightarrow> (bio_get_part_by_uu (Some uu) s, s)))"

definition boot_ab_state_set_boot_partition ::
  "boot_ab_state_config \<Rightarrow> uuid_t \<Rightarrow> ('w, 'z) ab_scheme \<Rightarrow> int \<times> ('w, 'z) ab_scheme" where
  "boot_ab_state_set_boot_partition cfg part_uu s =
     (if uuid_compare part_uu (sys_a_uu cfg) = 0 then
        pb_boot_state_commit (s\<lparr>boot_state := (boot_state s)\<lparr>enable := PB_STATE_A_ENABLED,
          verified := PB_STATE_A_VERIFIED, bs_error := 0\<rparr>\<rparr>)
      else if uuid_compare part_uu (sys_b_uu cfg) = 0 then
        pb_boot_state_commit (s\<lparr>boot_state := (boot_state s)\<lparr>enable := PB_STATE_B_ENABLED,
          verified := PB_STATE_B_VERIFIED, bs_error := 0\<rparr>\<rparr>)
      else if uuid_is_null part_uu then
        pb_boot_state_commit (s\<lparr>boot_state := (boot_state s)\<lparr>enable := 0, verified := 0, bs_error := 0\<rparr>\<rparr>)
      else
        (err PB_ERR_PART_NOT_BOOTABLE,
         s\<lparr>boot_state := (boot_state s)\<lparr>enable := 0, verified := 0, bs_error := 0\<rparr>\<rparr>))"

definition boot_ab_state_get_boot_partition :: "boot_ab_state_config \<Rightarrow> ('w, 'z) ab_scheme \<Rightarrow> uuid_t" where
  "boot_ab_state_get_boot_partition cfg s =
     (if enable (boot_state s) = PB_STATE_A_ENABLED then uuid_copy (sys_a_uu cfg)
      else if enable (boot_state s) = PB_STATE_B_ENABLED then uuid_copy (sys_b_uu cfg)
      else uuid_clear)"

definition boot_ab_part_uu_to_name :: "boot_ab_state_config \<Rightarrow> uuid_t \<Rightarrow> string" where
  "boot_ab_part_uu_to_name cfg part_uu =
     (if uuid_compare part_uu (sys_a_uu cfg) = 0 then ''A''
      else if uuid_compare part_uu (sys_b_uu cfg) = 0 then ''B''
      else ''?'')"

definition boot_ab_state_read_board_reg :: "u32 \<Rightarrow> ('w, 'z) ab_scheme \<Rightarrow> int \<times> u32 option" where
  "boot_ab_state_read_board_reg index s =
     (if index > PB_STATE_NO_OF_BOARD_REGS - 1 then (err PB_ERR_PARAM, None)
      else (0, Some (board_regs (boot_state s) ! unat (PB_STATE_NO_OF_BOARD_REGS - index - 1))))"

definition boot_ab_state_write_board_reg ::
  "u32 \<Rightarrow> u32 \<Rightarrow> ('w, 'z) ab_scheme \<Rightarrow> int \<times> ('w, 'z) ab_scheme" where
  "boot_ab_state_write_board_reg index value s =
     (if index > PB_STATE_NO_OF_BOARD_REGS - 1 then (err PB_ERR_PARAM, s)
      else pb_boot_state_commit (s\<lparr>boot_state := (boot_state s)\<lparr>board_regs :=
             (board_regs (boot_state s))[unat (PB_STATE_NO_OF_BOARD_REGS - index - 1) := value]\<rparr>\<rparr>))"

subsection \<open>The record is a codec and carries its checksum\<close>

interpretation reg_array: codec "enc_array (le_bytes 4 :: u32 \<Rightarrow> _)" "dec_array le_word 4 4" 16
    "\<lambda>xs. length xs = 4 \<and> list_all (\<lambda>_. True) xs"
  using le32.codec_array [of 4] by simp

lemma enc_state_lengths:
  assumes "state_ok st"
  shows "length (bs_rz st) = 472" "length (enc_array (le_bytes 4) (board_regs st)) = 16"
    "dec_array le_word 4 4 (enc_array (le_bytes 4) (board_regs st)) = board_regs st"
  using assms reg_array.length_enc [of "board_regs st"] reg_array.dec_enc [of "board_regs st"]
  by (simp_all add: state_ok_def list_all_iff)

interpretation state: codec enc_state dec_state 512 state_ok
proof
  fix st assume "state_ok st"
  note len = enc_state_lengths [OF this]
  show "length (enc_state st) = 512" by (simp add: enc_state_def enc_state_body_def len)
  show "dec_state (enc_state st) = st"
    by (simp add: enc_state_def enc_state_body_def dec_state_def len window_simps)
next
  fix bs :: "u8 list" assume len: "length bs = 512"
  then have "length (window 492 16 bs) = 16" by simp
  note arr = reg_array.enc_dec [OF this]
  show "state_ok (dec_state bs)" using len by (simp add: state_ok_def dec_state_def)
  show "enc_state (dec_state bs) = bs"
    using len by (simp add: enc_state_def enc_state_body_def dec_state_def arr window_glues)
qed

interpretation state_sum: checksummed enc_state bs_crc "\<lambda>c st. st\<lparr>bs_crc := c\<rparr>" enc_state_body
    "\<lambda>_. []" "crc32 0" 508 512 state_ok
proof
  fix st assume "state_ok st"
  note len = enc_state_lengths [OF this]
  show "length (enc_state_body st) = 508" by (simp add: enc_state_body_def len)
  show "512 \<le> length (enc_state st)" by (simp add: enc_state_def enc_state_body_def len)
qed (simp_all add: enc_state_def enc_state_body_def crc32_byte_update)

definition state_valid :: "pb_boot_state \<Rightarrow> bool" where
  "state_valid st \<longleftrightarrow> bs_magic st = PB_STATE_MAGIC \<and> bs_crc st = crc32 0 (enc_state (st\<lparr>bs_crc := 0\<rparr>))"

definition state_seal :: "pb_boot_state \<Rightarrow> pb_boot_state" where
  "state_seal st = st\<lparr>bs_crc := crc32 0 (enc_state (st\<lparr>bs_crc := 0\<rparr>))\<rparr>"

lemma state_ok_crc [simp]: "state_ok (st\<lparr>bs_crc := c\<rparr>) = state_ok st"
  by (simp add: state_ok_def)

lemma state_ok_seal [simp]: "state_ok (state_seal st) = state_ok st"
  by (simp add: state_seal_def)

lemma state_seal_clear [simp]: "(state_seal st)\<lparr>bs_crc := 0\<rparr> = st\<lparr>bs_crc := 0\<rparr>"
  by (simp add: state_seal_def)

lemma state_seal_crc [simp]: "state_seal (st\<lparr>bs_crc := c\<rparr>) = state_seal st"
  by (simp add: state_seal_def)

lemma state_valid_seal [simp]: "state_valid (state_seal st) \<longleftrightarrow> bs_magic st = PB_STATE_MAGIC"
  by (simp add: state_valid_def state_seal_def)

lemma magic_crc: "bs_magic (st\<lparr>bs_crc := c\<rparr>) = bs_magic st"
  by simp

lemma state_seal_valid: "state_valid st \<Longrightarrow> state_seal st = st"
  by (simp add: state_valid_def state_seal_def)

lemma state_ok_defaults [simp]: "state_ok pb_boot_state_defaults" "state_ok pb_boot_state_zero"
  by (simp_all add: state_ok_def pb_boot_state_defaults_def pb_boot_state_zero_def)

lemma magic_defaults [simp]: "bs_magic pb_boot_state_defaults = PB_STATE_MAGIC"
  by (simp add: pb_boot_state_defaults_def)

lemma validate_eq:
  "validate st = (if state_valid st then PB_OK else err PB_ERR, st\<lparr>bs_crc := 0\<rparr>)"
  by (simp add: validate_def state_valid_def Let_def)

subsection \<open>The two copies on their partitions\<close>

text \<open>
  The partitions \<open>p\<close> and \<open>b\<close> are on a medium, hold at least 512 bytes each and do not
  overlap there. \<open>copy\<close> is the record at the start of a partition.
\<close>

definition ab_media :: "('w \<Rightarrow> nat \<Rightarrow> u8) \<Rightarrow> ('w, 'z) bio_scheme \<Rightarrow> int \<Rightarrow> int \<Rightarrow> bool" where
  "ab_media content s p b \<longleftrightarrow> medium_dev content s p \<and> medium_dev content s b \<and>
     check_lba_range s p 0 512 = PB_OK \<and> check_lba_range s b 0 512 = PB_OK \<and>
     access_bytes (bio_dev s p) 0 512 \<inter> access_bytes (bio_dev s b) 0 512 = {}"

abbreviation state_bytes :: "('w \<Rightarrow> nat \<Rightarrow> u8) \<Rightarrow> ('w, 'z) bio_scheme \<Rightarrow> int \<Rightarrow> u8 list" where
  "state_bytes content s dev \<equiv> dev_content content s dev 0 512"

abbreviation copy :: "('w \<Rightarrow> nat \<Rightarrow> u8) \<Rightarrow> ('w, 'z) bio_scheme \<Rightarrow> int \<Rightarrow> pb_boot_state" where
  "copy content s dev \<equiv> dec_state (state_bytes content s dev)"

lemma ab_media_cong:
  assumes "geometry s = geometry t"
  shows "ab_media content s p b = ab_media content t p b"
proof -
  have "check_dev t d = PB_OK" if "medium_dev content t d" for d using that by (simp add: medium_dev_def)
  then show ?thesis
    using medium_dev_cong [OF assms] check_lba_range_cong [OF assms] access_bytes_cong [OF assms]
    by (auto simp: ab_media_def)
qed

lemma ab_mediaD:
  assumes "ab_media content s p b"
  shows "medium_dev content s p" "medium_dev content s b" "check_dev s p = PB_OK" "check_dev s b = PB_OK"
    "check_lba_range s p 0 512 = PB_OK" "check_lba_range s b 0 512 = PB_OK"
    "i \<in> access_bytes (bio_dev s p) 0 512 \<Longrightarrow> i \<notin> access_bytes (bio_dev s b) 0 512"
  using assms by (auto simp: ab_media_def medium_dev_def)

lemma state_bytes_cong:
  assumes "geometry s = geometry t" and "check_dev t d = PB_OK"
    and "\<And>i. i \<in> access_bytes (bio_dev t d) 0 512 \<Longrightarrow> content (world s) i = content (world t) i"
  shows "state_bytes content s d = state_bytes content t d"
  using assms by (intro dev_content_cong) simp_all

lemma commit_media:
  assumes "ab_media content s (primary_part s) (backup_part s)" and "state_ok (boot_state s)"
  obtains w where
    "pb_boot_state_commit s = (PB_OK, s\<lparr>boot_state := state_seal (boot_state s), world := w\<rparr>)"
    "state_bytes content (s\<lparr>world := w\<rparr>) (primary_part s) = enc_state (state_seal (boot_state s))"
    "state_bytes content (s\<lparr>world := w\<rparr>) (backup_part s) = enc_state (state_seal (boot_state s))"
proof -
  define st where "st = state_seal (boot_state s)"
  define s1 where "s1 = s\<lparr>boot_state := st\<rparr>"
  have len: "length (enc_state st) = unat (512 :: u64)"
    using assms(2) state.length_enc [of st] by (simp add: st_def)
  have g: "geometry s1 = geometry s" "geometry (s1\<lparr>world := w\<rparr>) = geometry s"
    "geometry (s\<lparr>world := w\<rparr>) = geometry s" for w
    by (simp_all add: geometry_def s1_def)
  have m1: "ab_media content s1 (primary_part s) (backup_part s)"
    using assms(1) ab_media_cong [OF g(1)] by blast
  obtain w1 where w1: "bio_write (primary_part s) 0 512 (enc_state st) s1 = (PB_OK, s1\<lparr>world := w1\<rparr>)"
      "dev_content content (s1\<lparr>world := w1\<rparr>) (primary_part s) 0 (unat (512 :: u64)) = enc_state st"
    using bio_write_medium [OF ab_mediaD(1,5) [OF m1] len] by blast
  have m2: "ab_media content (s1\<lparr>world := w1\<rparr>) (primary_part s) (backup_part s)"
    using assms(1) ab_media_cong [OF g(2)] by blast
  obtain w2 where w2: "bio_write (backup_part s) 0 512 (enc_state st) (s1\<lparr>world := w1\<rparr>) = (PB_OK, s1\<lparr>world := w2\<rparr>)"
      "dev_content content (s1\<lparr>world := w2\<rparr>) (backup_part s) 0 (unat (512 :: u64)) = enc_state st"
      "\<And>i. i \<notin> access_bytes (bio_dev s1 (backup_part s)) 0 512 \<Longrightarrow> content w2 i = content w1 i"
    using bio_write_medium [OF ab_mediaD(2,6) [OF m2] len] by auto
  have "dev_content content (s1\<lparr>world := w2\<rparr>) (primary_part s) 0 512 =
      dev_content content (s1\<lparr>world := w1\<rparr>) (primary_part s) 0 512"
    using ab_mediaD(3,7) [OF m2] w2(3) by (intro state_bytes_cong) (simp_all add: geometry_def)
  then have "dev_content content (s1\<lparr>world := w2\<rparr>) (primary_part s) 0 512 = enc_state st"
    using w1(2) by simp
  moreover have "pb_boot_state_commit s = (PB_OK, s1\<lparr>world := w2\<rparr>)"
    using w1(1) w2(1) by (simp add: pb_boot_state_commit_def Let_def s1_def st_def state_seal_def)
  moreover have "dev_content content (s1\<lparr>world := w2\<rparr>) d 0 512 = dev_content content (s\<lparr>world := w2\<rparr>) d 0 512" for d
    by (simp add: dev_content_def s1_def)
  ultimately show ?thesis using that [of w2] w2(2) by (simp add: st_def s1_def)
qed

subsection \<open>Start-up\<close>

text \<open>The record \<open>boot_ab_state_init\<close> adopts, given the two copies.\<close>

definition ab_load :: "pb_boot_state \<Rightarrow> pb_boot_state \<Rightarrow> pb_boot_state" where
  "ab_load p b = (if state_valid p then p else if state_valid b then b else pb_boot_state_defaults)"

lemma ab_load_magic [simp]: "bs_magic (ab_load p b) = PB_STATE_MAGIC"
  by (simp add: ab_load_def state_valid_def)

lemma flags_keep [simp]:
  "primary_part (snd (bio_clear_set_flags d c f s)) = primary_part s"
  "backup_part (snd (bio_clear_set_flags d c f s)) = backup_part s"
  "boot_state (snd (bio_clear_set_flags d c f s)) = boot_state s"
  "boot_state_backup (snd (bio_clear_set_flags d c f s)) = boot_state_backup s"
  by (simp_all add: bio_clear_set_flags_def bio_set_flags_def upd_dev_def Let_def)

lemma geometry_ab [simp]:
  "geometry (s\<lparr>world := w\<rparr>) = geometry s" "geometry (s'\<lparr>boot_state := st\<rparr>) = geometry s'"
  "geometry (s'\<lparr>boot_state_backup := st\<rparr>) = geometry s'"
  "geometry (s'\<lparr>primary_part := p\<rparr>) = geometry s'" "geometry (s'\<lparr>backup_part := p\<rparr>) = geometry s'"
  by (simp_all add: geometry_def)

lemma lookup_ab [simp]:
  "bio_get_part_by_uu u (snd (bio_clear_set_flags d c f s)) = bio_get_part_by_uu u s"
  "bio_get_part_by_uu u (s'\<lparr>primary_part := p\<rparr>) = bio_get_part_by_uu u s'"
  by (rule bio_get_part_by_uu_cong, simp add: geometry_clear_set_flags)+

lemma commit_copies:
  assumes "ab_media content s (primary_part s) (backup_part s)" and "state_ok (boot_state s)"
  obtains s' where "pb_boot_state_commit s = (PB_OK, s')" "geometry s' = geometry s"
    "primary_part s' = primary_part s" "backup_part s' = backup_part s"
    "boot_state s' = state_seal (boot_state s)" "boot_state_backup s' = boot_state_backup s"
    "copy content s' (primary_part s) = state_seal (boot_state s)"
    "copy content s' (backup_part s) = state_seal (boot_state s)"
proof (rule commit_media [OF assms])
  fix w assume w: "pb_boot_state_commit s = (PB_OK, s\<lparr>boot_state := state_seal (boot_state s), world := w\<rparr>)"
    "state_bytes content (s\<lparr>world := w\<rparr>) (primary_part s) = enc_state (state_seal (boot_state s))"
    "state_bytes content (s\<lparr>world := w\<rparr>) (backup_part s) = enc_state (state_seal (boot_state s))"
  have "state_bytes content (s\<lparr>boot_state := st, world := w\<rparr>) d = state_bytes content (s\<lparr>world := w\<rparr>) d" for d st
    by (simp add: dev_content_def)
  with w assms(2) show ?thesis using that [OF w(1)] by (simp add: state.dec_enc)
qed

text \<open>
  The set-up of start-up: both systems and both state partitions are registered, and the
  state partitions are on their media.
\<close>

definition ab_setup ::
  "boot_ab_state_config \<Rightarrow> ('w \<Rightarrow> nat \<Rightarrow> u8) \<Rightarrow> ('w, 'z) bio_scheme \<Rightarrow> int \<Rightarrow> int \<Rightarrow> bool" where
  "ab_setup cfg content s p b \<longleftrightarrow>
     0 \<le> bio_get_part_by_uu (Some (sys_a_uu cfg)) s \<and> 0 \<le> bio_get_part_by_uu (Some (sys_b_uu cfg)) s \<and>
     p = bio_get_part_by_uu (Some (primary_state_part_uu cfg)) s \<and>
     b = bio_get_part_by_uu (Some (backup_state_part_uu cfg)) s \<and> ab_media content s p b"

lemma ab_setup_media: "ab_setup cfg content s p b \<Longrightarrow> ab_media content s p b"
  unfolding ab_setup_def by blast

lemma ab_setup_cong:
  "geometry s = geometry t \<Longrightarrow> ab_setup cfg content s p b = ab_setup cfg content t p b"
  using bio_get_part_by_uu_cong [of s t] ab_media_cong [of s t] by (simp add: ab_setup_def)

lemma ab_setup_bytes:
  assumes "ab_setup cfg content s p b" and "geometry t = geometry s"
    and "content (world t) = content (world s)" and "d = p \<or> d = b"
  shows "state_bytes content t d = state_bytes content s d"
  using assms ab_mediaD(3,4) [of content s p b] by (intro state_bytes_cong) (auto simp: ab_setup_def)

lemma init_reads:
  assumes "ab_setup cfg content s p b" and "state_ok (boot_state s)" and "state_ok (boot_state_backup s)"
    and "P = copy content s p" and "B = copy content s b"
  obtains s' where "geometry s' = geometry s" "content (world s') = content (world s)"
    "primary_part s' = p" "backup_part s' = b" "boot_state s' = P\<lparr>bs_crc := 0\<rparr>"
    "boot_state_backup s' = B\<lparr>bs_crc := 0\<rparr>"
    "boot_ab_state_init cfg s =
      (if \<not> state_valid P \<and> \<not> state_valid B then
         pb_boot_state_commit (s'\<lparr>boot_state := pb_boot_state_defaults, boot_state_backup := pb_boot_state_defaults\<rparr>)
       else if \<not> state_valid B \<and> state_valid P then
         pb_boot_state_commit (s'\<lparr>boot_state_backup := pb_boot_state_defaults\<rparr>)
       else if state_valid B \<and> \<not> state_valid P then
         pb_boot_state_commit (s'\<lparr>boot_state := boot_state_backup s'\<rparr>)
       else (PB_OK, s'))"
proof -
  define s1 where "s1 = snd (bio_clear_set_flags (bio_get_part_by_uu (Some (sys_b_uu cfg)) s) 0 BIO_FLAG_BOOTABLE
      (snd (bio_clear_set_flags (bio_get_part_by_uu (Some (sys_a_uu cfg)) s) 0 BIO_FLAG_BOOTABLE s)))"
  define s2 where "s2 = s1\<lparr>primary_part := p, backup_part := b\<rparr>"
  note lookups = assms(1) [unfolded ab_setup_def]
  have g: "geometry s2 = geometry s" by (simp add: s2_def s1_def geometry_clear_set_flags)
  have w: "world s2 = world s" by (simp add: s2_def s1_def world_clear_set_flags)
  have m: "ab_media content t p b" if "geometry t = geometry s" for t :: "('a, 'b) ab_scheme"
    using lookups ab_media_cong [OF that] by blast
  note bytes = ab_setup_bytes [OF assms(1)]
  have len: "length (enc_state (boot_state s)) = 512" "length (enc_state (boot_state_backup s)) = 512"
    using assms(2,3) by (simp_all add: state.length_enc)
  obtain w1 where r1: "bio_read p 0 512 s2 = (PB_OK, state_bytes content s p, s2\<lparr>world := w1\<rparr>)"
      and c1: "content w1 = content (world s)"
    using bio_read_medium [OF ab_mediaD(1,5) [OF m [OF g]]] bytes [OF g] w by auto
  define s3 where "s3 = s2\<lparr>world := w1, boot_state := P\<lparr>bs_crc := 0\<rparr>\<rparr>"
  have g3: "geometry s3 = geometry s" and c3: "content (world s3) = content (world s)"
    using g c1 by (simp_all add: s3_def)
  obtain w2 where r2: "bio_read b 0 512 s3 = (PB_OK, state_bytes content s b, s3\<lparr>world := w2\<rparr>)"
      and c2: "content w2 = content (world s)"
    using bio_read_medium [OF ab_mediaD(2,6) [OF m [OF g3]]] bytes [OF g3 c3] c3 by auto
  define s4 where "s4 = s3\<lparr>world := w2, boot_state_backup := B\<lparr>bs_crc := 0\<rparr>\<rparr>"
  have s1: "boot_state s1 = boot_state s" "boot_state_backup s1 = boot_state_backup s"
      "bio_get_part_by_uu (Some (primary_state_part_uu cfg)) s1 = p"
      "bio_get_part_by_uu (Some (backup_state_part_uu cfg)) s1 = b"
    using lookups by (simp_all add: s1_def)
  have "boot_ab_state_init cfg s =
      (if \<not> state_valid P \<and> \<not> state_valid B then
         pb_boot_state_commit (s4\<lparr>boot_state := pb_boot_state_defaults, boot_state_backup := pb_boot_state_defaults\<rparr>)
       else if \<not> state_valid B \<and> state_valid P then
         pb_boot_state_commit (s4\<lparr>boot_state_backup := pb_boot_state_defaults\<rparr>)
       else if state_valid B \<and> \<not> state_valid P then
         pb_boot_state_commit (s4\<lparr>boot_state := boot_state_backup s4\<rparr>)
       else (PB_OK, s4))"
    using lookups r1 r2
    by (simp add: boot_ab_state_init_def Let_def not_less flip: s1_def)
       (simp add: s1 s4_def s3_def s2_def assms(4,5) validate_eq len)
  then show ?thesis using that [of s4] g3 c2 by (simp add: s4_def s3_def s2_def)
qed

lemma init_media:
  assumes "ab_setup cfg content s p b" and "state_ok (boot_state s)" and "state_ok (boot_state_backup s)"
    and "P = copy content s p" and "B = copy content s b"
  obtains s' where "boot_ab_state_init cfg s = (PB_OK, s')" "geometry s' = geometry s"
    "primary_part s' = p" "backup_part s' = b"
    "(boot_state s')\<lparr>bs_crc := 0\<rparr> = (ab_load P B)\<lparr>bs_crc := 0\<rparr>"
    "copy content s' p = state_seal (ab_load P B)"
    "copy content s' b = (if state_valid P \<and> state_valid B then B else state_seal (ab_load P B))"
proof (rule init_reads [OF assms])
  fix s1 assume g: "geometry s1 = geometry s" and c: "content (world s1) = content (world s)"
    and parts: "primary_part s1 = p" "backup_part s1 = b" "boot_state s1 = P\<lparr>bs_crc := 0\<rparr>"
      "boot_state_backup s1 = B\<lparr>bs_crc := 0\<rparr>"
    and init: "boot_ab_state_init cfg s =
      (if \<not> state_valid P \<and> \<not> state_valid B then
         pb_boot_state_commit (s1\<lparr>boot_state := pb_boot_state_defaults, boot_state_backup := pb_boot_state_defaults\<rparr>)
       else if \<not> state_valid B \<and> state_valid P then
         pb_boot_state_commit (s1\<lparr>boot_state_backup := pb_boot_state_defaults\<rparr>)
       else if state_valid B \<and> \<not> state_valid P then
         pb_boot_state_commit (s1\<lparr>boot_state := boot_state_backup s1\<rparr>)
       else (PB_OK, s1))"
  note result = that
  have commit: thesis
    if t: "boot_ab_state_init cfg s = pb_boot_state_commit t" "geometry t = geometry s" "primary_part t = p"
      "backup_part t = b" "state_ok (boot_state t)" "(boot_state t)\<lparr>bs_crc := 0\<rparr> = (ab_load P B)\<lparr>bs_crc := 0\<rparr>"
      "\<not> (state_valid P \<and> state_valid B)" for t
  proof -
    have "ab_media content t (primary_part t) (backup_part t)"
      using assms(1) t(3,4) ab_media_cong [OF t(2)] by (auto simp: ab_setup_def)
    then obtain s' where s': "pb_boot_state_commit t = (PB_OK, s')" "geometry s' = geometry t"
      "primary_part s' = primary_part t" "backup_part s' = backup_part t" "boot_state s' = state_seal (boot_state t)"
      "copy content s' (primary_part t) = state_seal (boot_state t)"
      "copy content s' (backup_part t) = state_seal (boot_state t)"
      using commit_copies t(5) by blast
    moreover have "state_seal (boot_state t) = state_seal (ab_load P B)" using t(6) by (metis state_seal_crc)
    moreover have "(boot_state s')\<lparr>bs_crc := 0\<rparr> = (ab_load P B)\<lparr>bs_crc := 0\<rparr>" using s'(5) t(6) by simp
    ultimately show thesis using t(1-4,7) by (intro result [of s']) auto
  qed
  have ok: "state_ok P" "state_ok B" by (simp_all add: assms(4,5) state.wf_dec)
  show thesis
  proof (cases "state_valid P \<and> state_valid B")
    case True
    then have "P = copy content s1 p" "B = copy content s1 b" "state_seal P = P"
      using ab_setup_bytes [OF assms(1) g c] assms(4,5) by (simp_all add: state_seal_valid)
    with True init parts g show thesis by (intro result [of s1]) (simp_all add: ab_load_def)
  next
    case False
    then show thesis
      using init parts ok g
      by (cases "state_valid P"; cases "state_valid B") (auto intro!: commit simp: ab_load_def)
  qed
qed

text \<open>
  C23: what start-up makes of the two copies. \<open>boot_ab_state_init\<close> succeeds, adopts the primary
  copy when its magic and checksum hold, else the backup copy when that one holds, else the
  defaults; afterwards both partitions hold an intact record, the primary the adopted one,
  and so does the backup unless both copies were intact before.
\<close>

theorem ab_state_init_recovers:
  assumes "ab_setup cfg content s p b" and "state_ok (boot_state s)" and "state_ok (boot_state_backup s)"
  shows "\<exists>s'. boot_ab_state_init cfg s = (PB_OK, s') \<and>
    (boot_state s')\<lparr>bs_crc := 0\<rparr> = (ab_load (copy content s p) (copy content s b))\<lparr>bs_crc := 0\<rparr> \<and>
    state_valid (copy content s' p) \<and> state_valid (copy content s' b) \<and>
    copy content s' p = state_seal (ab_load (copy content s p) (copy content s b)) \<and>
    (copy content s' b = copy content s' p \<or>
     state_valid (copy content s p) \<and> copy content s' b = copy content s b)"
proof (rule init_media [OF assms refl refl])
  fix s' assume s': "boot_ab_state_init cfg s = (PB_OK, s')"
    "(boot_state s')\<lparr>bs_crc := 0\<rparr> = (ab_load (copy content s p) (copy content s b))\<lparr>bs_crc := 0\<rparr>"
    "copy content s' p = state_seal (ab_load (copy content s p) (copy content s b))"
    "copy content s' b = (if state_valid (copy content s p) \<and> state_valid (copy content s b)
       then copy content s b else state_seal (ab_load (copy content s p) (copy content s b)))"
  then show ?thesis by (intro exI [of _ s']) auto
qed

text \<open>
  The drivers of the state partitions may fail: a failing write can leave anything in the
  512 bytes it was asked to write.
\<close>

definition ab_writers :: "('w \<Rightarrow> nat \<Rightarrow> u8) \<Rightarrow> ('w, 'z) bio_scheme \<Rightarrow> int \<Rightarrow> int \<Rightarrow> bool" where
  "ab_writers content s p b \<longleftrightarrow> check_dev s p = PB_OK \<and> check_dev s b = PB_OK \<and>
     (\<forall>wr. dev_write (bio_dev s p) = Some wr \<longrightarrow> medium_write wr (unat (block_sz (bio_dev s p))) content) \<and>
     (\<forall>wr. dev_write (bio_dev s b) = Some wr \<longrightarrow> medium_write wr (unat (block_sz (bio_dev s b))) content) \<and>
     access_bytes (bio_dev s p) 0 512 \<inter> access_bytes (bio_dev s b) 0 512 = {}"

lemma commit_one_copy_at_a_time:
  assumes "ab_writers content s (primary_part s) (backup_part s)" and "state_ok (boot_state s)"
    and "pb_boot_state_commit s = (rc, s')"
  shows "copy content s' (primary_part s) = state_seal (boot_state s) \<or>
    state_bytes content s' (backup_part s) = state_bytes content s (backup_part s)"
proof -
  define st where "st = state_seal (boot_state s)"
  define s1 where "s1 = s\<lparr>boot_state := st\<rparr>"
  let ?p = "primary_part s" and ?b = "backup_part s"
  have pool: "bio_pool s1 = bio_pool s" and g: "geometry s1 = geometry s" and w: "world s1 = world s"
    by (simp_all add: s1_def)
  obtain rc1 s2 where c1: "bio_write ?p 0 512 (enc_state st) s1 = (rc1, s2)" by fastforce
  have wr: "\<And>wr. dev_write (bio_dev s1 ?p) = Some wr \<Longrightarrow> medium_write wr (unat (block_sz (bio_dev s1 ?p))) content"
    "\<And>wr. dev_write (bio_dev s1 ?b) = Some wr \<Longrightarrow> medium_write wr (unat (block_sz (bio_dev s1 ?b))) content"
    using assms(1) by (simp_all add: ab_writers_def pool)
  obtain w1 where w1: "s2 = s1\<lparr>world := w1\<rparr>"
      "\<And>i. i \<notin> access_bytes (bio_dev s1 ?p) 0 512 \<Longrightarrow> content w1 i = content (world s1) i"
      "rc1 = PB_OK \<Longrightarrow> length (enc_state st) = unat (512 :: u64) \<Longrightarrow> state_bytes content s2 ?p = enc_state st"
    using bio_write_effect [OF c1 wr(1)] by auto
  have cb: "check_dev s1 ?b = PB_OK" "check_dev s1 ?p = PB_OK"
    using assms(1) check_dev_cong [OF g] by (simp_all add: ab_writers_def)
  have disj: "i \<notin> access_bytes (bio_dev s ?b) 0 512" if "i \<in> access_bytes (bio_dev s ?p) 0 512" for i
    using assms(1) that unfolding ab_writers_def by blast
  have eq: "pb_boot_state_commit s =
      (if rc1 \<noteq> PB_OK then (rc1, s2) else bio_write ?b 0 512 (enc_state st) s2)"
    using c1 w1(1) by (simp add: pb_boot_state_commit_def Let_def s1_def st_def state_seal_def)
  show ?thesis
  proof (cases "rc1 = PB_OK")
    case False
    then have "s' = s2" using assms(3) eq by simp
    moreover have "state_bytes content s2 ?b = state_bytes content s1 ?b"
      using disj cb w1(1,2) by (intro state_bytes_cong) (auto simp: pool)
    ultimately show ?thesis by (simp add: dev_content_def pool w)
  next
    case True
    then have c2: "bio_write ?b 0 512 (enc_state st) s2 = (rc, s')" using assms(3) eq by simp
    obtain w2 where w2: "s' = s2\<lparr>world := w2\<rparr>"
        "\<And>i. i \<notin> access_bytes (bio_dev s2 ?b) 0 512 \<Longrightarrow> content w2 i = content (world s2) i"
      using bio_write_effect [OF c2, of content] wr(2) w1(1) by auto
    have "state_bytes content s' ?p = state_bytes content s2 ?p"
      using disj cb w2 w1(1) check_dev_cong [of s2 s1] by (intro state_bytes_cong) (auto simp: pool)
    then have "state_bytes content s' ?p = enc_state st"
      using w1(3) True assms(2) by (simp add: state.length_enc st_def)
    then show ?thesis using assms(2) by (simp add: st_def state.dec_enc)
  qed
qed

text \<open>
  C12: losing power, or any failure of a write, while the record is being committed leaves the
  old or the new record. Whatever \<open>pb_boot_state_commit\<close> returned and whatever a failed
  write left in its partition (unless that happens to be a third record with a matching
  checksum), the next \<open>boot_ab_state_init\<close> adopts the old or the new record.
\<close>

theorem ab_state_commit_old_or_new:
  assumes "ab_writers content s (primary_part s) (backup_part s)"
    and "state_ok (boot_state s)" and "bs_magic (boot_state s) = PB_STATE_MAGIC"
    and "copy content s (backup_part s) = old" and "state_valid old"
    and "pb_boot_state_commit s = (rc, s')"
    and "state_valid (copy content s' (primary_part s)) \<Longrightarrow>
      copy content s' (primary_part s) \<in> {old, state_seal (boot_state s)}"
    and "ab_setup cfg content t p b" and "state_ok (boot_state t)" and "state_ok (boot_state_backup t)"
    and "state_bytes content t p = state_bytes content s' (primary_part s)"
    and "state_bytes content t b = state_bytes content s' (backup_part s)"
  shows "\<exists>t'. boot_ab_state_init cfg t = (PB_OK, t') \<and>
    (boot_state t')\<lparr>bs_crc := 0\<rparr> \<in> {old\<lparr>bs_crc := 0\<rparr>, (boot_state s)\<lparr>bs_crc := 0\<rparr>}"
proof -
  let ?P = "copy content t p" and ?B = "copy content t b" and ?new = "state_seal (boot_state s)"
  have "?P = ?new \<or> ?B = old"
    using commit_one_copy_at_a_time [OF assms(1,2,6)] assms(4,11,12) by auto
  then have "ab_load ?P ?B \<in> {old, ?new}"
    using assms(3,5,7,11) by (auto simp: ab_load_def)
  then show ?thesis
    using init_media [OF assms(8-10) refl refl] by (metis insert_iff singletonD state_seal_clear)
qed

subsection \<open>The choice of the system\<close>

text \<open>
  What the record means: the active system, which systems are verified and the attempts
  left; and the specification of the choice, which treats both systems alike. \<open>None\<close> is a
  refusal.
\<close>

datatype ab_sys = Sys_A | Sys_B

fun other_sys :: "ab_sys \<Rightarrow> ab_sys" where
  "other_sys Sys_A = Sys_B"
| "other_sys Sys_B = Sys_A"

fun sys_uu :: "boot_ab_state_config \<Rightarrow> ab_sys \<Rightarrow> uuid_t" where
  "sys_uu cfg Sys_A = sys_a_uu cfg"
| "sys_uu cfg Sys_B = sys_b_uu cfg"

record ab_spec =
  active :: "ab_sys option"
  is_verified :: "ab_sys \<Rightarrow> bool"
  attempts :: nat

definition abs_state :: "pb_boot_state \<Rightarrow> ab_spec" where
  "abs_state st =
     \<lparr>active = (if bit (enable st) 0 then Some Sys_A else if bit (enable st) 1 then Some Sys_B else None),
      is_verified = (\<lambda>x. bit (verified st) (case x of Sys_A \<Rightarrow> 0 | Sys_B \<Rightarrow> 1)),
      attempts = unat (remaining_boot_attempts st)\<rparr>"

definition spec_select :: "ab_rollback_mode \<Rightarrow> ab_spec \<Rightarrow> (ab_sys option \<times> ab_spec) option" where
  "spec_select mode a =
     (case active a of
        None \<Rightarrow> Some (None, a)
      | Some x \<Rightarrow>
          if is_verified a x then Some (Some x, a)
          else if 0 < attempts a then Some (Some x, a\<lparr>attempts := attempts a - 1\<rparr>)
          else if is_verified a (other_sys x) then Some (Some (other_sys x), a\<lparr>active := Some (other_sys x)\<rparr>)
          else if mode = AB_ROLLBACK_MODE_SPECULATIVE then
            Some (Some (other_sys x), a\<lparr>active := Some (other_sys x), attempts := 1\<rparr>)
          else None)"

lemma and_flag:
  "(w :: u32) AND PB_STATE_A_ENABLED = 0 \<longleftrightarrow> \<not> bit w 0" "w AND PB_STATE_B_ENABLED = 0 \<longleftrightarrow> \<not> bit w 1"
  "w AND PB_STATE_A_VERIFIED = 0 \<longleftrightarrow> \<not> bit w 0" "w AND PB_STATE_B_VERIFIED = 0 \<longleftrightarrow> \<not> bit w 1"
  using and_exp_eq_0_iff_not_bit [of w 0] and_exp_eq_0_iff_not_bit [of w 1] by (simp_all add: pb_state_defs)

lemma flag_bits [simp]:
  "bit PB_STATE_A_ENABLED 0" "\<not> bit PB_STATE_B_ENABLED 0" "bit PB_STATE_B_ENABLED (Suc 0)"
  "bit PB_STATE_A_VERIFIED 0" "\<not> bit PB_STATE_A_VERIFIED (Suc 0)" "\<not> bit PB_STATE_B_VERIFIED 0"
  "bit PB_STATE_B_VERIFIED (Suc 0)"
  by (simp_all add: pb_state_defs bit_2_iff)

lemma choice_refines:
  "case spec_select (rollback_mode cfg) (abs_state st) of
     None \<Rightarrow> ab_state_choice cfg st = Inl (err PB_ERR)
   | Some (x, a) \<Rightarrow> \<exists>c st'. ab_state_choice cfg st = Inr (c, map_option (sys_uu cfg) x, st') \<and>
       abs_state st' = a \<and> (\<not> c \<longrightarrow> st' = st) \<and> state_ok st' = state_ok st \<and>
       bs_magic st' = bs_magic st"
  by (auto simp: spec_select_def abs_state_def ab_state_choice_def and_flag Let_def state_ok_def
      unat_gt_0 word_greater_zero_iff unat_minus_one fun_eq_iff split: option.splits ab_sys.splits)

lemma abs_state_crc [simp]: "abs_state (st\<lparr>bs_crc := c\<rparr>) = abs_state st"
  by (simp add: abs_state_def)

lemma abs_state_seal [simp]: "abs_state (state_seal st) = abs_state st"
  by (simp add: state_seal_def)

lemma get_commits:
  assumes "ab_media content s (primary_part s) (backup_part s)" and "state_ok (boot_state s)"
    and "spec_select (rollback_mode cfg) (abs_state (boot_state s)) = Some (Some x, a)"
  obtains st s' where "boot_ab_state_get cfg s = (bio_get_part_by_uu (Some (sys_uu cfg x)) s, s')"
    "geometry s' = geometry s" "abs_state st = a" "state_ok st" "bs_magic st = bs_magic (boot_state s)"
    "s' = s \<and> st = boot_state s \<or> boot_state s' = state_seal st \<and>
       copy content s' (primary_part s) = state_seal st \<and> copy content s' (backup_part s) = state_seal st"
proof -
  obtain c st where ch: "ab_state_choice cfg (boot_state s) = Inr (c, Some (sys_uu cfg x), st)" "abs_state st = a"
      "\<not> c \<longrightarrow> st = boot_state s" "state_ok st" "bs_magic st = bs_magic (boot_state s)"
    using choice_refines [of cfg "boot_state s"] assms(2,3) by auto
  show ?thesis
  proof (cases c)
    case False
    with ch show ?thesis by (intro that [of s st]) (simp_all add: boot_ab_state_get_def)
  next
    case True
    let ?s = "s\<lparr>boot_state := st\<rparr>"
    have "ab_media content ?s (primary_part ?s) (backup_part ?s)" using assms(1) ab_media_cong [of ?s s] by simp
    then obtain s' where s': "pb_boot_state_commit ?s = (PB_OK, s')" "geometry s' = geometry s"
        "boot_state s' = state_seal st" "copy content s' (primary_part s) = state_seal st"
        "copy content s' (backup_part s) = state_seal st"
      using ch(4) by (elim commit_copies) simp_all
    with ch True show ?thesis
      using bio_get_part_by_uu_cong [OF s'(2)] by (intro that [of s' st]) (simp_all add: boot_ab_state_get_def)
  qed
qed

text \<open>
  C8: \<open>boot_ab_state_get\<close> implements the specification of the choice. It refuses exactly when
  the specification does, fails when no system is active, and otherwise returns the device of
  the chosen system and leaves the record with the specified meaning, which both partitions
  hold when it changed.
\<close>

theorem ab_state_get_refines:
  assumes "ab_media content s (primary_part s) (backup_part s)" and "state_ok (boot_state s)"
  shows "case spec_select (rollback_mode cfg) (abs_state (boot_state s)) of
      None \<Rightarrow> boot_ab_state_get cfg s = (err PB_ERR, s)
    | Some (None, a) \<Rightarrow> boot_ab_state_get cfg s = (err PB_ERR_NO_ACTIVE_BOOT_PARTITION, s)
    | Some (Some x, a) \<Rightarrow> \<exists>s'. boot_ab_state_get cfg s = (bio_get_part_by_uu (Some (sys_uu cfg x)) s, s') \<and>
        abs_state (boot_state s') = a \<and>
        (s' = s \<or> copy content s' (primary_part s) = boot_state s' \<and> copy content s' (backup_part s) = boot_state s')"
proof (cases "spec_select (rollback_mode cfg) (abs_state (boot_state s))")
  case None
  then show ?thesis using choice_refines [of cfg "boot_state s"] by (simp add: boot_ab_state_get_def)
next
  case (Some xa)
  obtain y a where xa: "xa = (y, a)" by fastforce
  show ?thesis
  proof (cases y)
    case None
    then have "active (abs_state (boot_state s)) = None"
      using Some xa by (auto simp: spec_select_def split: option.splits if_splits)
    then have "ab_state_choice cfg (boot_state s) = Inr (False, None, boot_state s)"
      by (auto simp: abs_state_def ab_state_choice_def and_flag split: if_splits)
    then show ?thesis using Some xa None by (simp add: boot_ab_state_get_def)
  next
    case (Some x)
    with \<open>spec_select _ _ = Some xa\<close> xa show ?thesis
      by (auto elim!: get_commits [OF assms, of cfg x a])
  qed
qed

subsection \<open>Power cycles\<close>

text \<open>
  One start of the device as far as the boot state is concerned: the static variables of the
  file are zero, the partitions are registered as before, the state is loaded and a system
  is chosen.
\<close>

definition ab_power_cycle ::
  "boot_ab_state_config \<Rightarrow> ('w, 'z) ab_scheme \<Rightarrow> int \<times> ('w, 'z) ab_scheme" where
  "ab_power_cycle cfg s =
     (case boot_ab_state_init cfg (s\<lparr>primary_part := 0, backup_part := 0, boot_state := pb_boot_state_zero,
        boot_state_backup := pb_boot_state_zero\<rparr>) of (rc, s) \<Rightarrow>
        if rc \<noteq> PB_OK then (rc, s) else boot_ab_state_get cfg s)"

text \<open>Both partitions hold the sealed record \<open>st\<close>.\<close>

definition ab_stored ::
  "boot_ab_state_config \<Rightarrow> ('w \<Rightarrow> nat \<Rightarrow> u8) \<Rightarrow> int \<Rightarrow> int \<Rightarrow> pb_boot_state \<Rightarrow> ('w, 'z) bio_scheme \<Rightarrow> bool" where
  "ab_stored cfg content p b st s \<longleftrightarrow> ab_setup cfg content s p b \<and> state_ok st \<and>
     bs_magic st = PB_STATE_MAGIC \<and> copy content s p = state_seal st \<and> copy content s b = state_seal st"

lemma power_cycle:
  assumes "ab_stored cfg content p b st s"
    and "spec_select (rollback_mode cfg) (abs_state st) = Some (Some x, a)"
  obtains st' s' where "ab_power_cycle cfg s = (bio_get_part_by_uu (Some (sys_uu cfg x)) s, s')"
    "geometry s' = geometry s" "abs_state st' = a" "ab_stored cfg content p b st' s'"
proof -
  let ?s = "s\<lparr>primary_part := 0, backup_part := 0, boot_state := pb_boot_state_zero, boot_state_backup := pb_boot_state_zero\<rparr>"
  have g: "geometry ?s = geometry s" by simp
  have bytes: "state_bytes content ?s d = state_bytes content s d" for d by (simp add: dev_content_def)
  have up: "ab_setup cfg content ?s p b" using assms(1) ab_setup_cong [OF g] by (simp add: ab_stored_def)
  have st: "copy content s p = state_seal st" "copy content s b = state_seal st" "state_ok st"
      "bs_magic st = PB_STATE_MAGIC"
    using assms(1) by (simp_all add: ab_stored_def)
  then have load: "ab_load (state_seal st) (state_seal st) = state_seal st" by (simp add: ab_load_def)
  obtain s1 where s1: "boot_ab_state_init cfg ?s = (PB_OK, s1)" "geometry s1 = geometry s"
      "primary_part s1 = p" "backup_part s1 = b" "(boot_state s1)\<lparr>bs_crc := 0\<rparr> = st\<lparr>bs_crc := 0\<rparr>"
      "copy content s1 p = state_seal st" "copy content s1 b = state_seal st"
    by (rule init_media [OF up _ _ refl refl]) (use st in \<open>simp_all add: load bytes state_seal_valid\<close>)
  have b1: "abs_state (boot_state s1) = abs_state st" "state_ok (boot_state s1)" "bs_magic (boot_state s1) = PB_STATE_MAGIC"
      "state_seal (boot_state s1) = state_seal st"
    using s1(5) st(3,4) by (metis abs_state_crc, metis state_ok_crc, metis magic_crc, metis state_seal_crc)
  have up1: "ab_setup cfg content t p b" if "geometry t = geometry s" for t :: "('a, 'b) ab_scheme"
    using assms(1) ab_setup_cong [OF that] by (simp add: ab_stored_def)
  have "ab_media content s1 (primary_part s1) (backup_part s1)" using ab_setup_media [OF up1 [OF s1(2)]] s1(3,4) by simp
  then obtain st' s' where s': "boot_ab_state_get cfg s1 = (bio_get_part_by_uu (Some (sys_uu cfg x)) s1, s')"
    "geometry s' = geometry s1" "abs_state st' = a" "state_ok st'" "bs_magic st' = bs_magic (boot_state s1)"
    "s' = s1 \<and> st' = boot_state s1 \<or> boot_state s' = state_seal st' \<and>
       copy content s' (primary_part s1) = state_seal st' \<and> copy content s' (backup_part s1) = state_seal st'"
    using b1(1,2) assms(2) by (elim get_commits) auto
  have "ab_stored cfg content p b st' s'"
    using s' s1 b1 up1 [of s'] by (auto simp: ab_stored_def)
  then show ?thesis
    using that [of s' st'] s' s1(1,2) bio_get_part_by_uu_cong [OF s1(2)] by (simp add: ab_power_cycle_def)
qed

lemma power_cycles:
  assumes "ab_stored cfg content p b st s"
    and "\<And>k. spec_select (rollback_mode cfg) (a k) = Some (Some (x k), a (Suc k))" and "abs_state st = a 0"
  shows "\<exists>st'. ab_stored cfg content p b st' (((\<lambda>s. snd (ab_power_cycle cfg s)) ^^ k) s) \<and> abs_state st' = a k \<and>
    geometry (((\<lambda>s. snd (ab_power_cycle cfg s)) ^^ k) s) = geometry s \<and>
    fst (ab_power_cycle cfg (((\<lambda>s. snd (ab_power_cycle cfg s)) ^^ k) s)) =
      bio_get_part_by_uu (Some (sys_uu cfg (x k))) s"
proof -
  let ?c = "\<lambda>k. ((\<lambda>s. snd (ab_power_cycle cfg s)) ^^ k) s"
  have stored: "\<exists>st'. ab_stored cfg content p b st' (?c k) \<and> abs_state st' = a k \<and> geometry (?c k) = geometry s" for k
  proof (induction k)
    case 0
    then show ?case using assms(1,3) by auto
  next
    case (Suc k)
    then obtain st1 where st1: "ab_stored cfg content p b st1 (?c k)" "abs_state st1 = a k" "geometry (?c k) = geometry s"
      by blast
    then have "spec_select (rollback_mode cfg) (abs_state st1) = Some (Some (x k), a (Suc k))"
      using assms(2) by simp
    then show ?case by (rule power_cycle [OF st1(1)]) (use st1(3) in auto)
  qed
  then obtain st' where st': "ab_stored cfg content p b st' (?c k)" "abs_state st' = a k" "geometry (?c k) = geometry s"
    by blast
  then have "spec_select (rollback_mode cfg) (abs_state st') = Some (Some (x k), a (Suc k))"
    using assms(2) by simp
  then have "fst (ab_power_cycle cfg (?c k)) = bio_get_part_by_uu (Some (sys_uu cfg (x k))) (?c k)"
    by (rule power_cycle [OF st'(1)]) simp
  then show ?thesis using st' bio_get_part_by_uu_cong [OF st'(3)] by auto
qed

lemma verified_cycles:
  assumes "ab_stored cfg content p b st s" and "active (abs_state st) = Some x" and "is_verified (abs_state st) x"
  shows "fst (ab_power_cycle cfg (((\<lambda>s. snd (ab_power_cycle cfg s)) ^^ k) s)) = bio_get_part_by_uu (Some (sys_uu cfg x)) s"
proof -
  have "spec_select (rollback_mode cfg) (abs_state st) = Some (Some x, abs_state st)"
    using assms(2,3) by (simp add: spec_select_def)
  then show ?thesis using power_cycles [OF assms(1), of "\<lambda>_. abs_state st" "\<lambda>_. x"] by blast
qed

lemma rollback_cycles:
  assumes "ab_stored cfg content p b st s" and "active (abs_state st) = Some x"
    and "\<not> is_verified (abs_state st) x" and "is_verified (abs_state st) (other_sys x)"
    and "attempts (abs_state st) = n"
  shows "fst (ab_power_cycle cfg (((\<lambda>s. snd (ab_power_cycle cfg s)) ^^ k) s)) =
    bio_get_part_by_uu (Some (sys_uu cfg (if k < n then x else other_sys x))) s"
proof -
  define a where "a k = (if k \<le> n then (abs_state st)\<lparr>attempts := n - k\<rparr>
      else (abs_state st)\<lparr>active := Some (other_sys x), attempts := 0\<rparr>)" for k
  have "other_sys x \<noteq> x" by (cases x) simp_all
  then have "spec_select (rollback_mode cfg) (a k) = Some (Some (if k < n then x else other_sys x), a (Suc k))" for k
    using assms(2-5) by (auto simp: a_def spec_select_def)
  moreover have "abs_state st = a 0" using assms(5) by (auto simp: a_def)
  ultimately show ?thesis
    using power_cycles [OF assms(1), of a "\<lambda>k. if k < n then x else other_sys x" k] by blast
qed

text \<open>
  C11: an update that never gets verified is given up after the attempts it was granted. With
  an active system that is not verified, \<open>n\<close> attempts left and the other system verified, the
  first \<open>n\<close> starts of the device choose the active system and every later start chooses the
  other one, in both rollback modes.
\<close>

theorem ab_state_rollback_after_attempts:
  assumes "ab_stored cfg content p b st s" and "active (abs_state st) = Some x"
    and "\<not> is_verified (abs_state st) x" and "is_verified (abs_state st) (other_sys x)"
    and "attempts (abs_state st) = n"
  shows "fst (ab_power_cycle cfg (((\<lambda>s. snd (ab_power_cycle cfg s)) ^^ k) s)) =
    bio_get_part_by_uu (Some (sys_uu cfg (if k < n then x else other_sys x))) s"
  using rollback_cycles [OF assms] .

text \<open>
  C24: the system that \<open>boot_ab_state_set_boot_partition\<close> makes active is reported by
  \<open>boot_ab_state_get_boot_partition\<close> and is the one every later start of the device chooses.
\<close>

theorem ab_state_set_boot_partition_persists:
  assumes "ab_setup cfg content s (primary_part s) (backup_part s)" and "state_ok (boot_state s)"
    and "bs_magic (boot_state s) = PB_STATE_MAGIC"
    and "uuid_ok (sys_a_uu cfg)" and "uuid_ok (sys_b_uu cfg)" and "sys_a_uu cfg \<noteq> sys_b_uu cfg"
  shows "\<exists>s'. boot_ab_state_set_boot_partition cfg (sys_uu cfg x) s = (PB_OK, s') \<and>
    boot_ab_state_get_boot_partition cfg s' = sys_uu cfg x \<and>
    fst (ab_power_cycle cfg (((\<lambda>s. snd (ab_power_cycle cfg s)) ^^ k) s')) =
      bio_get_part_by_uu (Some (sys_uu cfg x)) s"
proof -
  define st where "st = (boot_state s)\<lparr>enable := (case x of Sys_A \<Rightarrow> PB_STATE_A_ENABLED | Sys_B \<Rightarrow> PB_STATE_B_ENABLED),
    verified := (case x of Sys_A \<Rightarrow> PB_STATE_A_VERIFIED | Sys_B \<Rightarrow> PB_STATE_B_VERIFIED), bs_error := 0\<rparr>"
  let ?s = "s\<lparr>boot_state := st\<rparr>"
  have "boot_ab_state_set_boot_partition cfg (sys_uu cfg x) s = pb_boot_state_commit ?s"
    using assms(4-6) by (cases x) (simp_all add: boot_ab_state_set_boot_partition_def st_def uuid_compare_eq_0)
  moreover have ok: "state_ok st" "bs_magic st = PB_STATE_MAGIC" "active (abs_state st) = Some x"
      "is_verified (abs_state st) x"
    using assms(2,3) by (cases x; simp add: st_def state_ok_def abs_state_def)+
  moreover have "ab_media content ?s (primary_part ?s) (backup_part ?s)"
    using ab_setup_media [OF assms(1)] ab_media_cong [of ?s s] by simp
  ultimately obtain s' where s': "boot_ab_state_set_boot_partition cfg (sys_uu cfg x) s = (PB_OK, s')"
      "geometry s' = geometry s" "boot_state s' = state_seal st" "copy content s' (primary_part s) = state_seal st"
      "copy content s' (backup_part s) = state_seal st"
    by (elim commit_copies) simp_all
  have "ab_stored cfg content (primary_part s) (backup_part s) st s'"
    using s' ok assms(1) ab_setup_cong [OF s'(2)] by (simp add: ab_stored_def)
  from verified_cycles [OF this ok(3,4)] have "fst (ab_power_cycle cfg (((\<lambda>s. snd (ab_power_cycle cfg s)) ^^ k) s')) =
      bio_get_part_by_uu (Some (sys_uu cfg x)) s'" .
  moreover have "boot_ab_state_get_boot_partition cfg s' = sys_uu cfg x"
    using assms(4,5) s'(3)
    by (cases x) (simp_all add: boot_ab_state_get_boot_partition_def st_def state_seal_def pb_state_defs uuid_copy_def uuid_ok_def)
  ultimately show ?thesis using s'(1) bio_get_part_by_uu_cong [OF s'(2)] by auto
qed

text \<open>
  C25: a committed record in which one byte is changed is refused, wherever the byte is: no
  single corrupted byte of a state partition can make the boot loader act on it.
\<close>

theorem ab_state_corruption_detected:
  assumes "state_ok st" and "i < 512" and "v \<noteq> enc_state (state_seal st) ! i"
  shows "fst (validate (dec_state ((enc_state (state_seal st))[i := v]))) = err PB_ERR"
proof -
  let ?bs = "(enc_state (state_seal st))[i := v]"
  have len: "length ?bs = 512" using assms(1) by (simp add: state.length_enc)
  have "bs_crc (dec_state ?bs) \<noteq> crc32 0 (take 512 (enc_state ((dec_state ?bs)\<lparr>bs_crc := 0\<rparr>)))"
  proof (rule state_sum.byte_change_detected [of "state_seal st"])
    show "bs_crc (state_seal st) = crc32 0 (take 512 (enc_state ((state_seal st)\<lparr>bs_crc := 0\<rparr>)))"
      using assms(1) by (simp add: state_seal_def state.length_enc)
  qed (use assms len in \<open>simp_all add: state.wf_dec state.enc_dec\<close>)
  moreover have "state_ok (dec_state ?bs)" using len by (rule state.wf_dec)
  ultimately have "\<not> state_valid (dec_state ?bs)" by (simp add: state_valid_def state.length_enc)
  then show ?thesis by (simp add: validate_eq)
qed

subsection \<open>A device with four partitions\<close>

text \<open>
  Blocks of 512 bytes on a medium in memory: block 0 and 1 hold the two copies, blocks 2 and
  3 the two systems. The record has system A active and not verified, one attempt left, and
  system B verified.
\<close>

definition demo_part_dev :: "u8 \<Rightarrow> u32 \<Rightarrow> (nat \<Rightarrow> u8) bio_device" where
  "demo_part_dev n lba = bio_device_zero\<lparr>dev_uu := replicate 16 n, first_lba := lba, last_lba := lba,
     block_sz := 512, valid := True, dev_read := Some (ram_read 512), dev_write := Some (ram_write 512)\<rparr>"

definition demo_ab_cfg :: boot_ab_state_config where
  "demo_ab_cfg = \<lparr>primary_state_part_uu = replicate 16 1, backup_state_part_uu = replicate 16 2,
     sys_a_uu = replicate 16 3, sys_b_uu = replicate 16 4, rollback_mode = AB_ROLLBACK_MODE_NORMAL\<rparr>"

definition demo_record :: pb_boot_state where
  "demo_record = pb_boot_state_defaults\<lparr>enable := PB_STATE_A_ENABLED, verified := PB_STATE_B_VERIFIED,
     remaining_boot_attempts := 1\<rparr>"

definition demo_ab :: "(nat \<Rightarrow> u8) ab" where
  "demo_ab = \<lparr>world = (\<lambda>i. if i < 1024 then enc_state (state_seal demo_record) ! (i mod 512) else 0), mem = (\<lambda>_. 0),
     bio_pool = [demo_part_dev 1 0, demo_part_dev 2 1, demo_part_dev 3 2, demo_part_dev 4 3], n_bios = 4,
     fuse_box = replicate 128 0, fuse_dev = 0, dsa_ops = [], no_of_dsa_ops = 0, hash_ops = [], no_of_hash_ops = 0,
     current_hash_ops = None, primary_part = 0, backup_part = 1, boot_state = demo_record,
     boot_state_backup = pb_boot_state_zero\<rparr>"

lemma demo_part_dev_sel [simp]:
  "first_lba (demo_part_dev n lba) = lba" "block_sz (demo_part_dev n lba) = 512"
  "last_lba (demo_part_dev n lba) = lba" "valid (demo_part_dev n lba)" "dev_uu (demo_part_dev n lba) = replicate 16 n"
  "dev_read (demo_part_dev n lba) = Some (ram_read 512)" "dev_write (demo_part_dev n lba) = Some (ram_write 512)"
  by (simp_all add: demo_part_dev_def)

lemma demo_ab_sel [simp]:
  "bio_pool demo_ab = [demo_part_dev 1 0, demo_part_dev 2 1, demo_part_dev 3 2, demo_part_dev 4 3]"
  "primary_part demo_ab = 0" "backup_part demo_ab = 1" "boot_state demo_ab = demo_record"
  "boot_state_backup demo_ab = pb_boot_state_zero"
  by (simp_all add: demo_ab_def)

lemma uuid_ok_replicate [simp]: "uuid_ok (replicate 16 n)"
  by (simp add: uuid_ok_def)

lemma replicate_16_eq [simp]: "replicate 16 a = replicate 16 b \<longleftrightarrow> a = b"
  by (simp add: numeral_eq_Suc)

lemma demo_lookup [simp]:
  "bio_get_part_by_uu (Some (replicate 16 1)) demo_ab = 0" "bio_get_part_by_uu (Some (replicate 16 2)) demo_ab = 1"
  "bio_get_part_by_uu (Some (replicate 16 3)) demo_ab = 2" "bio_get_part_by_uu (Some (replicate 16 4)) demo_ab = 3"
  by (simp_all add: bio_get_part_by_uu_def uuid_compare_eq_0)

lemma demo_record_ok [simp]: "state_ok demo_record" "bs_magic demo_record = PB_STATE_MAGIC"
  by (simp_all add: demo_record_def state_ok_def pb_boot_state_defaults_def pb_boot_state_zero_def)

lemma demo_media: "ab_media id demo_ab 0 1"
  using medium_ram [of 512]
  by (auto simp: ab_media_def medium_dev_def check_dev_def check_lba_range_def access_bytes_def
      ram_read_def ram_write_def)

lemma demo_setup: "ab_setup demo_ab_cfg id demo_ab 0 1"
  using demo_media by (simp add: ab_setup_def demo_ab_cfg_def)

lemma demo_bytes: "state_bytes id demo_ab 0 = enc_state (state_seal demo_record)"
    "state_bytes id demo_ab 1 = enc_state (state_seal demo_record)"
  by (auto simp: dev_content_def demo_ab_def state.length_enc intro!: nth_equalityI)

lemma demo_stored: "ab_stored demo_ab_cfg id 0 1 demo_record demo_ab"
  by (simp add: ab_stored_def demo_setup demo_bytes state.dec_enc)

theorem ab_state_init_recovers_witness:
  "\<exists>s'. boot_ab_state_init demo_ab_cfg demo_ab = (PB_OK, s') \<and>
     (boot_state s')\<lparr>bs_crc := 0\<rparr> = demo_record\<lparr>bs_crc := 0\<rparr>"
  using ab_state_init_recovers [OF demo_setup] by (auto simp: demo_bytes state.dec_enc ab_load_def)

theorem ab_state_get_refines_witness:
  "\<exists>s'. boot_ab_state_get demo_ab_cfg demo_ab = (2, s') \<and> attempts (abs_state (boot_state s')) = 0"
  using ab_state_get_refines [of id demo_ab demo_ab_cfg] demo_media
  by (auto simp: spec_select_def abs_state_def demo_record_def demo_ab_cfg_def pb_boot_state_defaults_def
      state_ok_def pb_boot_state_zero_def)

theorem ab_state_rollback_after_attempts_witness:
  "fst (ab_power_cycle demo_ab_cfg demo_ab) = 2 \<and>
   fst (ab_power_cycle demo_ab_cfg (snd (ab_power_cycle demo_ab_cfg demo_ab))) = 3"
proof -
  have a: "active (abs_state demo_record) = Some Sys_A" "\<not> is_verified (abs_state demo_record) Sys_A"
      "is_verified (abs_state demo_record) (other_sys Sys_A)" "attempts (abs_state demo_record) = 1"
    by (simp_all add: abs_state_def demo_record_def)
  show ?thesis
    using ab_state_rollback_after_attempts [OF demo_stored a, of 0]
      ab_state_rollback_after_attempts [OF demo_stored a, of 1] by (simp add: demo_ab_cfg_def)
qed

theorem ab_state_set_boot_partition_persists_witness:
  "\<exists>s'. boot_ab_state_set_boot_partition demo_ab_cfg (replicate 16 4) demo_ab = (PB_OK, s') \<and>
     fst (ab_power_cycle demo_ab_cfg s') = 3"
  using ab_state_set_boot_partition_persists [of demo_ab_cfg id demo_ab Sys_B 0] demo_setup
  by (auto simp: demo_ab_cfg_def)

theorem ab_state_corruption_detected_witness:
  "fst (validate (dec_state ((enc_state (state_seal demo_record))[0 := 0]))) = err PB_ERR"
proof (rule ab_state_corruption_detected)
  have "enc_state (state_seal demo_record) ! 0 = 0x65"
    by (simp add: enc_state_def enc_state_body_def state_seal_def nth_append nth_le_bytes PB_STATE_MAGIC_def)
  then show "0 \<noteq> enc_state (state_seal demo_record) ! 0" by simp
qed simp_all

definition demo_update :: pb_boot_state where
  "demo_update = demo_record\<lparr>remaining_boot_attempts := 0\<rparr>"

theorem ab_state_commit_old_or_new_witness:
  "\<exists>rc s' t'. pb_boot_state_commit (demo_ab\<lparr>boot_state := demo_update\<rparr>) = (rc, s') \<and>
     boot_ab_state_init demo_ab_cfg s' = (PB_OK, t') \<and>
     (boot_state t')\<lparr>bs_crc := 0\<rparr> \<in> {demo_record\<lparr>bs_crc := 0\<rparr>, demo_update\<lparr>bs_crc := 0\<rparr>}"
proof -
  let ?s = "demo_ab\<lparr>boot_state := demo_update\<rparr>"
  have g: "geometry ?s = geometry demo_ab" by simp
  have m: "ab_media id ?s (primary_part ?s) (backup_part ?s)" using demo_media ab_media_cong [OF g] by simp
  have ok: "state_ok (boot_state ?s)" "bs_magic (boot_state ?s) = PB_STATE_MAGIC"
    using demo_record_ok by (simp_all add: demo_update_def state_ok_def)
  have w: "ab_writers id ?s (primary_part ?s) (backup_part ?s)"
    using ab_mediaD(3,4) [OF m] m medium_ram(2) [of 512] by (simp add: ab_writers_def ab_media_def)
  obtain s' where s': "pb_boot_state_commit ?s = (PB_OK, s')" "geometry s' = geometry demo_ab"
      "boot_state s' = state_seal demo_update" "copy id s' 0 = state_seal demo_update"
      "boot_state_backup s' = pb_boot_state_zero"
    by (rule commit_copies [OF m ok(1)]) simp_all
  have "state_bytes id ?s 1 = state_bytes id demo_ab 1"
    using ab_mediaD(4) [OF demo_media] by (intro state_bytes_cong) simp_all
  then have c: "copy id ?s (backup_part ?s) = state_seal demo_record" by (simp add: demo_bytes state.dec_enc)
  have up: "ab_setup demo_ab_cfg id s' 0 1" using demo_setup ab_setup_cong [OF s'(2)] by simp
  have "copy id s' (primary_part ?s) \<in> {state_seal demo_record, state_seal (boot_state ?s)}" using s'(4) by simp
  moreover have "state_valid (state_seal demo_record)" "state_ok (boot_state s')" "state_ok (boot_state_backup s')"
    using s'(3,5) ok(1) by simp_all
  moreover have "state_bytes id s' 0 = state_bytes id s' (primary_part ?s)"
      "state_bytes id s' 1 = state_bytes id s' (backup_part ?s)"
    by simp_all
  ultimately obtain t' where "boot_ab_state_init demo_ab_cfg s' = (PB_OK, t')"
      "(boot_state t')\<lparr>bs_crc := 0\<rparr> \<in> {(state_seal demo_record)\<lparr>bs_crc := 0\<rparr>, (boot_state ?s)\<lparr>bs_crc := 0\<rparr>}"
    using ab_state_commit_old_or_new [OF w ok c _ s'(1) _ up] by blast
  then show ?thesis using s'(1) by (intro exI [of _ "0 :: int"] exI [of _ s'] exI [of _ t']) simp
qed

end
