(* ===== verification/Boot.thy ===== *)
theory Boot
  imports Image Ab_State "HOL-Library.Monad_Syntax"
begin

text \<open>
  The boot flow \<open>src/boot/boot.c\<close>: choosing the source of the image, loading, authenticating
  and verifying it, and handing over control.

  The static variables that hold data extend the state. \<open>boot_cfg\<close>, \<open>read_cb\<close> and \<open>result_cb\<close>,
  which point to functions on the state, are arguments of the operations that use them. The
  pointer \<open>header_ptr\<close> is \<open>None\<close> when it points to the static \<open>header\<close>, and \<open>Some a\<close> for an
  image at address \<open>a\<close> of main memory. What the operations call outside of the repository's
  boot code (key store, root of trust, linker symbols, the configured chunk size and the
  uninitialised stack buffer of the header digest) is the record \<open>platform\<close>. A call or
  a dereference of a \<open>NULL\<close> pointer is \<open>None\<close>. Log output and timestamps are left out.
\<close>

datatype boot_source =
    BOOT_SOURCE_INVALID | BOOT_SOURCE_BIO | BOOT_SOURCE_IN_MEM | BOOT_SOURCE_CB
  | BOOT_SOURCE_CUSTOM | BOOT_SOURCE_END

fun boot_source_value :: "boot_source \<Rightarrow> nat" where
  "boot_source_value BOOT_SOURCE_INVALID = 0"
| "boot_source_value BOOT_SOURCE_BIO = 1"
| "boot_source_value BOOT_SOURCE_IN_MEM = 2"
| "boot_source_value BOOT_SOURCE_CB = 3"
| "boot_source_value BOOT_SOURCE_CUSTOM = 4"
| "boot_source_value BOOT_SOURCE_END = 5"

lemma boot_source_value_inject: "boot_source_value a = boot_source_value b \<Longrightarrow> a = b"
  by (cases a; cases b) simp_all

text \<open>The values of the enum are compared as integers.\<close>

instantiation boot_source :: linorder
begin

definition less_eq_boot_source :: "boot_source \<Rightarrow> boot_source \<Rightarrow> bool" where
  "less_eq_boot_source a b \<longleftrightarrow> boot_source_value a \<le> boot_source_value b"

definition less_boot_source :: "boot_source \<Rightarrow> boot_source \<Rightarrow> bool" where
  "less_boot_source a b \<longleftrightarrow> boot_source_value a < boot_source_value b"

instance
  by standard (auto simp: less_eq_boot_source_def less_boot_source_def intro: boot_source_value_inject)

end

record 's boot_driver =
  default_boot_source :: boot_source
  early_boot_cb :: "('s \<Rightarrow> int \<times> 's) option"
  get_boot_bio_device :: "('s \<Rightarrow> int \<times> 's) option"
  set_boot_partition_cb :: "(uuid_t \<Rightarrow> 's \<Rightarrow> int \<times> 's) option"
  get_boot_partition_cb :: "('s \<Rightarrow> uuid_t \<times> 's) option"
  get_in_mem_image :: "('s \<Rightarrow> int \<times> u64 option \<times> 's) option"
  authenticate_image :: "('s \<Rightarrow> int \<times> u64 option \<times> 's) option"
  prepare :: "(u64 option \<Rightarrow> uuid_t \<Rightarrow> 's \<Rightarrow> int \<times> 's) option"
  late_boot_cb :: "(u64 option \<Rightarrow> uuid_t \<Rightarrow> 's \<Rightarrow> int \<times> 's) option"
  jump :: "('s \<Rightarrow> 's) option"

record 's platform =
  keystore_pb :: bpak_keystore
  rot_cfg :: "'s rot_config option"
  layout :: mem_layout
  load_chunk :: u64
  stack_buf :: "u8 list"

record 'w boot_vars = "'w ab" +
  header :: bpak_header
  header_ptr :: "u64 option"
  boot_flags :: u32
  boot_device :: int
  boot_source_var :: boot_source
  boot_part_uu :: uuid_t
  payload_digest :: "u8 list"

definition BOOT_FLAG_CMD :: u32 where "BOOT_FLAG_CMD = 1"
definition BOOT_FLAG_VERBOSE :: u32 where "BOOT_FLAG_VERBOSE = 2"

text \<open>\<open>boot_init\<close> also returns the new value of \<open>boot_cfg\<close>.\<close>

definition boot_init ::
  "'s boot_driver option \<Rightarrow> 's boot_driver option \<Rightarrow> ('w, 'z) boot_vars_scheme \<Rightarrow>
   int \<times> 's boot_driver option \<times> ('w, 'z) boot_vars_scheme" where
  "boot_init cfg boot_cfg s =
     (case cfg of
        None \<Rightarrow> (err PB_ERR_PARAM, boot_cfg, s)
      | Some c \<Rightarrow>
          if jump c = None then (err PB_ERR_PARAM, boot_cfg, s)
          else (PB_OK, cfg, s\<lparr>boot_device := -1, boot_source_var := default_boot_source c, boot_flags := 0\<rparr>))"

definition boot_set_source :: "boot_source \<Rightarrow> ('w, 'z) boot_vars_scheme \<Rightarrow> int \<times> ('w, 'z) boot_vars_scheme" where
  "boot_set_source source s =
     (if source \<le> BOOT_SOURCE_INVALID \<or> source \<ge> BOOT_SOURCE_END then (err PB_ERR_PARAM, s)
      else (PB_OK, s\<lparr>boot_source_var := source\<rparr>))"

definition boot_get_flags :: "('w, 'z) boot_vars_scheme \<Rightarrow> u32" where
  "boot_get_flags s = boot_flags s"

definition boot_clear_set_flags :: "u32 \<Rightarrow> u32 \<Rightarrow> ('w, 'z) boot_vars_scheme \<Rightarrow> ('w, 'z) boot_vars_scheme" where
  "boot_clear_set_flags clear_flags set_flags s =
     s\<lparr>boot_flags := (boot_flags s AND NOT clear_flags) OR set_flags\<rparr>"

definition boot_set_boot_partition ::
  "'s boot_driver option \<Rightarrow> uuid_t option \<Rightarrow> 's \<Rightarrow> int \<times> 's" where
  "boot_set_boot_partition boot_cfg part_uu s =
     (case part_uu of
        None \<Rightarrow> (err PB_ERR_PARAM, s)
      | Some uu \<Rightarrow>
          (case boot_cfg of
             None \<Rightarrow> (err PB_ERR_NOT_SUPPORTED, s)
           | Some c \<Rightarrow>
               (case set_boot_partition_cb c of
                  None \<Rightarrow> (err PB_ERR_NOT_SUPPORTED, s)
                | Some f \<Rightarrow> f uu s)))"

text \<open>The result is what is stored to \<open>part_uu\<close>, which is not \<open>NULL\<close>.\<close>

definition boot_get_boot_partition :: "'s boot_driver option \<Rightarrow> 's \<Rightarrow> uuid_t \<times> 's" where
  "boot_get_boot_partition boot_cfg s =
     (case boot_cfg of
        None \<Rightarrow> (uuid_clear, s)
      | Some c \<Rightarrow> (case get_boot_partition_cb c of None \<Rightarrow> (uuid_clear, s) | Some f \<Rightarrow> f s))"

definition boot_bio_read :: "('w, 'z) boot_vars_scheme boot_read_cb_t" where
  "boot_bio_read block_offset len s = Some (bio_read (boot_device s) (word_of_int block_offset) len s)"

text \<open>The header \<open>p\<close> points to, and storing to it.\<close>

definition header_at :: "u64 option \<Rightarrow> ('w, 'z) boot_vars_scheme \<Rightarrow> bpak_header" where
  "header_at p s = (case p of None \<Rightarrow> header s | Some a \<Rightarrow> dec_header (mem_read (mem s) a 4096))"

definition store_header :: "u64 option \<Rightarrow> bpak_header \<Rightarrow> ('w, 'z) boot_vars_scheme \<Rightarrow> ('w, 'z) boot_vars_scheme" where
  "store_header p hdr s =
     (case p of
        None \<Rightarrow> s\<lparr>header := hdr\<rparr>
      | Some a \<Rightarrow> s\<lparr>mem := mem_write (mem s) a (enc_header hdr)\<rparr>)"

text \<open>\<open>boot_image_auth_header(p)\<close>, which clears the signature in place.\<close>

definition auth_header_at ::
  "('w, 'z) boot_vars_scheme platform \<Rightarrow> u64 option \<Rightarrow> ('w, 'z) boot_vars_scheme \<Rightarrow> int \<times> ('w, 'z) boot_vars_scheme" where
  "auth_header_at P p s =
     (case boot_image_auth_header (keystore_pb P) (rot_cfg P) (stack_buf P) (header_at p s) s of
        (rc, hdr, s) \<Rightarrow> (rc, store_header p hdr s))"

text \<open>\<open>boot_image_load_and_hash(p, \<dots>)\<close> into \<open>payload_digest\<close>.\<close>

definition load_and_hash_at ::
  "('w, 'z) boot_vars_scheme platform \<Rightarrow> u64 option \<Rightarrow> ('w, 'z) boot_vars_scheme boot_read_cb_t option \<Rightarrow>
   ('w, 'z) boot_vars_scheme boot_result_cb_t option \<Rightarrow> ('w, 'z) boot_vars_scheme \<Rightarrow> (int \<times> ('w, 'z) boot_vars_scheme) option" where
  "load_and_hash_at P p read_f result_f s =
     do {
       (rc, digest, s) \<leftarrow> boot_image_load_and_hash (header_at p s) (load_chunk P) read_f result_f (payload_digest s) s;
       Some (rc, s\<lparr>payload_digest := digest\<rparr>)
     }"

text \<open>
  Choosing the boot device. \<open>bio_get_uu\<close> of a device that does not exist is \<open>NULL\<close>.
\<close>

definition choose_boot_device ::
  "('w, 'z) boot_vars_scheme boot_driver \<Rightarrow> ('w, 'z) boot_vars_scheme \<Rightarrow> (int \<times> ('w, 'z) boot_vars_scheme) option" where
  "choose_boot_device cfg s =
     (case get_boot_bio_device cfg of
        None \<Rightarrow> Some (err PB_ERR_NOT_SUPPORTED, s)
      | Some f \<Rightarrow>
          if uuid_is_null (boot_part_uu s) then
            (case f s of (dev, s) \<Rightarrow>
               let s = s\<lparr>boot_device := dev\<rparr> in
               if dev < 0 then Some (dev, s)
               else do { uu \<leftarrow> bio_get_uu s dev; Some (PB_OK, s\<lparr>boot_part_uu := uuid_copy uu\<rparr>) })
          else
            let dev = bio_get_part_by_uu (Some (boot_part_uu s)) s; s = s\<lparr>boot_device := dev\<rparr> in
            if dev < 0 then Some (dev, s) else Some (PB_OK, s))"

definition load_auth_verify_from_bio ::
  "('w, 'z) boot_vars_scheme platform \<Rightarrow> ('w, 'z) boot_vars_scheme boot_driver \<Rightarrow> ('w, 'z) boot_vars_scheme \<Rightarrow>
   (int \<times> ('w, 'z) boot_vars_scheme) option" where
  "load_auth_verify_from_bio P cfg s =
     do {
       (rc, s) \<leftarrow> choose_boot_device cfg s;
       if rc \<noteq> PB_OK then Some (rc, s)
       else if bio_get_flags s (boot_device s) AND uint BIO_FLAG_BOOTABLE = 0 then
         Some (err PB_ERR_PART_NOT_BOOTABLE, s)
       else if bio_block_size s (boot_device s) = 0 then None
       else
         let header_lba = ucast (word_of_int (bio_get_no_of_blocks s (boot_device s)) -
               (4096 :: u64) div word_of_int (bio_block_size s (boot_device s)))
         in case bio_read (boot_device s) header_lba 4096 s of (rc, data, s) \<Rightarrow>
         let s = s\<lparr>header := dec_header (overlay (enc_header (header s)) data)\<rparr> in
         if rc \<noteq> PB_OK then Some (rc, s)
         else case auth_header_at P None s of (rc, s) \<Rightarrow>
         if rc \<noteq> PB_OK then Some (rc, s)
         else do {
           rc \<leftarrow> boot_image_verify_parts (layout P) (header s);
           if rc \<noteq> PB_OK then Some (rc, s)
           else do {
             (rc, s) \<leftarrow> load_and_hash_at P None (Some boot_bio_read) None s;
             if rc \<noteq> PB_OK then Some (rc, s)
             else Some (boot_image_verify_payload (header s) (payload_digest s), s)
           }
         }
     }"

definition auth_verify_in_mem ::
  "('w, 'z) boot_vars_scheme platform \<Rightarrow> ('w, 'z) boot_vars_scheme boot_driver \<Rightarrow> ('w, 'z) boot_vars_scheme \<Rightarrow>
   (int \<times> ('w, 'z) boot_vars_scheme) option" where
  "auth_verify_in_mem P cfg s =
     (case get_in_mem_image cfg of
        None \<Rightarrow> Some (err PB_ERR_NOT_SUPPORTED, s)
      | Some f \<Rightarrow>
          (case f s of (rc, p, s) \<Rightarrow>
           let s = s\<lparr>header_ptr := p\<rparr> in
           if rc \<noteq> PB_OK then Some (rc, s)
           else case auth_header_at P p s of (rc, s) \<Rightarrow>
           if rc \<noteq> PB_OK then Some (rc, s)
           else do {
             rc \<leftarrow> boot_image_verify_parts (layout P) (header_at p s);
             if rc \<noteq> PB_OK then Some (rc, s)
             else do {
               (rc, s) \<leftarrow> load_and_hash_at P p None None s;
               if rc \<noteq> PB_OK then Some (rc, s)
               else Some (boot_image_verify_payload (header_at p s) (payload_digest s), s)
             }
           }))"

text \<open>A call of \<open>result_cb\<close> whose result is ignored.\<close>

definition notify ::
  "('w, 'z) boot_vars_scheme boot_result_cb_t option \<Rightarrow> int \<Rightarrow> ('w, 'z) boot_vars_scheme \<Rightarrow>
   ('w, 'z) boot_vars_scheme option" where
  "notify result_cb rc s = (case result_cb of None \<Rightarrow> Some s | Some f \<Rightarrow> map_option snd (f rc s))"

text \<open>The header is read at block \<open>-(int)sizeof(struct bpak_header)/512\<close>, that is \<open>-8\<close>.\<close>

definition load_auth_verify_from_cb ::
  "('w, 'z) boot_vars_scheme platform \<Rightarrow> ('w, 'z) boot_vars_scheme boot_read_cb_t option \<Rightarrow>
   ('w, 'z) boot_vars_scheme boot_result_cb_t option \<Rightarrow> ('w, 'z) boot_vars_scheme \<Rightarrow>
   (int \<times> ('w, 'z) boot_vars_scheme) option" where
  "load_auth_verify_from_cb P read_cb result_cb s =
     (case read_cb of
        None \<Rightarrow> Some (err PB_ERR_NOT_SUPPORTED, s)
      | Some f \<Rightarrow>
          do {
            (rc, data, s) \<leftarrow> f (-8) 4096 s;
            let s = s\<lparr>header := dec_header (overlay (enc_header (header s)) (take 4096 data))\<rparr>;
            if rc \<noteq> PB_OK then Some (rc, s)
            else case auth_header_at P None s of (rc, s) \<Rightarrow>
            if rc \<noteq> PB_OK then do { s \<leftarrow> notify result_cb rc s; Some (rc, s) }
            else do {
              rc \<leftarrow> boot_image_verify_parts (layout P) (header s);
              s \<leftarrow> notify result_cb rc s;
              if rc \<noteq> PB_OK then Some (rc, s)
              else do {
                (rc, s) \<leftarrow> load_and_hash_at P None read_cb result_cb s;
                if rc \<noteq> PB_OK then Some (rc, s)
                else do {
                  let rc = boot_image_verify_payload (header s) (payload_digest s);
                  s \<leftarrow> notify result_cb rc s;
                  Some (rc, s)
                }
              }
            }
          })"

definition load_image ::
  "('w, 'z) boot_vars_scheme platform \<Rightarrow> ('w, 'z) boot_vars_scheme boot_driver \<Rightarrow>
   ('w, 'z) boot_vars_scheme boot_read_cb_t option \<Rightarrow> ('w, 'z) boot_vars_scheme boot_result_cb_t option \<Rightarrow>
   ('w, 'z) boot_vars_scheme \<Rightarrow> (int \<times> ('w, 'z) boot_vars_scheme) option" where
  "load_image P cfg read_cb result_cb s =
     (case boot_source_var s of
        BOOT_SOURCE_BIO \<Rightarrow> load_auth_verify_from_bio P cfg s
      | BOOT_SOURCE_IN_MEM \<Rightarrow> auth_verify_in_mem P cfg s
      | BOOT_SOURCE_CB \<Rightarrow> load_auth_verify_from_cb P read_cb result_cb s
      | BOOT_SOURCE_CUSTOM \<Rightarrow>
          (case authenticate_image cfg of
             None \<Rightarrow> Some (err PB_ERR_NOT_SUPPORTED, s)
           | Some f \<Rightarrow> (case f s of (rc, p, s) \<Rightarrow> Some (rc, s\<lparr>header_ptr := p\<rparr>)))
      | _ \<Rightarrow> Some (err PB_ERR_PARAM, s))"

text \<open>A callback that gets the header and the UUID of the boot partition.\<close>

definition run_hook ::
  "(u64 option \<Rightarrow> uuid_t \<Rightarrow> ('w, 'z) boot_vars_scheme \<Rightarrow> int \<times> ('w, 'z) boot_vars_scheme) option \<Rightarrow>
   ('w, 'z) boot_vars_scheme \<Rightarrow> int \<times> ('w, 'z) boot_vars_scheme" where
  "run_hook f s = (case f of None \<Rightarrow> (PB_OK, s) | Some f \<Rightarrow> f (header_ptr s) (boot_part_uu s) s)"

definition boot_load ::
  "('w, 'z) boot_vars_scheme platform \<Rightarrow> ('w, 'z) boot_vars_scheme boot_driver option \<Rightarrow>
   ('w, 'z) boot_vars_scheme boot_read_cb_t option \<Rightarrow> ('w, 'z) boot_vars_scheme boot_result_cb_t option \<Rightarrow>
   uuid_t option \<Rightarrow> ('w, 'z) boot_vars_scheme \<Rightarrow> (int \<times> ('w, 'z) boot_vars_scheme) option" where
  "boot_load P boot_cfg read_cb result_cb boot_part_override_uu s =
     (case boot_cfg of
        None \<Rightarrow> Some (err PB_ERR_PARAM, s)
      | Some cfg \<Rightarrow>
          if jump cfg = None then Some (err PB_ERR_NOT_SUPPORTED, s\<lparr>boot_flags := 0\<rparr>)
          else case (case early_boot_cb cfg of None \<Rightarrow> (PB_OK, s) | Some f \<Rightarrow> f s) of (rc, s) \<Rightarrow>
            if rc \<noteq> PB_OK then Some (rc, s\<lparr>boot_flags := 0\<rparr>)
            else do {
              (rc, s) \<leftarrow> load_image P cfg read_cb result_cb
                (s\<lparr>boot_part_uu := (case boot_part_override_uu of None \<Rightarrow> uuid_clear | Some uu \<Rightarrow> uuid_copy uu)\<rparr>);
              if rc \<noteq> PB_OK then Some (rc, s\<lparr>boot_flags := 0\<rparr>)
              else case run_hook (prepare cfg) s of (rc, s) \<Rightarrow> Some (rc, s\<lparr>boot_flags := 0\<rparr>)
            })"

text \<open>
  The second component is the state that \<open>jump\<close> was called in, if it was. \<open>jump\<close> normally
  does not return; the third component is the state if it does.
\<close>

definition boot_jump ::
  "('w, 'z) boot_vars_scheme boot_driver option \<Rightarrow> ('w, 'z) boot_vars_scheme \<Rightarrow>
   (int \<times> ('w, 'z) boot_vars_scheme option \<times> ('w, 'z) boot_vars_scheme) option" where
  "boot_jump boot_cfg s =
     do {
       cfg \<leftarrow> boot_cfg;
       case run_hook (late_boot_cb cfg) s of (rc, s) \<Rightarrow>
       if rc \<noteq> PB_OK then Some (rc, None, s)
       else do { f \<leftarrow> jump cfg; Some (err PB_ERR, Some s, f s) }
     }"

definition boot ::
  "('w, 'z) boot_vars_scheme platform \<Rightarrow> ('w, 'z) boot_vars_scheme boot_driver option \<Rightarrow>
   ('w, 'z) boot_vars_scheme boot_read_cb_t option \<Rightarrow> ('w, 'z) boot_vars_scheme boot_result_cb_t option \<Rightarrow>
   uuid_t option \<Rightarrow> ('w, 'z) boot_vars_scheme \<Rightarrow>
   (int \<times> ('w, 'z) boot_vars_scheme option \<times> ('w, 'z) boot_vars_scheme) option" where
  "boot P boot_cfg read_cb result_cb boot_part_override_uu s =
     do {
       (rc, s) \<leftarrow> boot_load P boot_cfg read_cb result_cb boot_part_override_uu s;
       if rc \<noteq> PB_OK then Some (rc, None, s) else boot_jump boot_cfg s
     }"

subsection \<open>Secure boot\<close>

text \<open>
  What holds of the state while an image is loaded: the hash and signature drivers implement
  \<open>H\<close> and \<open>V\<close>, block device reads do not disturb a hash computation, and the static buffers
  have their sizes.
\<close>

definition io_separate :: "('w \<Rightarrow> hash_t \<times> u8 list) \<Rightarrow> ('w, 'z) bio_scheme \<Rightarrow> bool" where
  "io_separate st s \<longleftrightarrow>
     (\<forall>d rd dev lba len w rc data w'. d \<in> set (bio_pool s) \<longrightarrow> dev_read d = Some rd \<longrightarrow>
        rd dev lba len w = (rc, data, w') \<longrightarrow> st w' = st w)"

definition boot_env ::
  "(hash_t \<Rightarrow> u8 list \<Rightarrow> u8 list) \<Rightarrow> (u8 list \<Rightarrow> hash_t \<Rightarrow> u8 list \<Rightarrow> u8 list \<Rightarrow> bool) \<Rightarrow>
   ('w \<Rightarrow> hash_t \<times> u8 list) \<Rightarrow> ('w, 'z) boot_vars_scheme \<Rightarrow> bool" where
  "boot_env H V st s \<longleftrightarrow> hash_drivers s H st \<and> dsa_drivers s V \<and> io_separate st s \<and>
     header_wf (header s) \<and> length (payload_digest s) = 64"

text \<open>The callbacks of the board that run before the image is verified keep a property.\<close>

definition driver_keeps :: "'s boot_driver \<Rightarrow> ('s \<Rightarrow> bool) \<Rightarrow> bool" where
  "driver_keeps cfg Q \<longleftrightarrow>
     (\<forall>f s. early_boot_cb cfg = Some f \<longrightarrow> Q s \<longrightarrow> Q (snd (f s))) \<and>
     (\<forall>f s. get_boot_bio_device cfg = Some f \<longrightarrow> Q s \<longrightarrow> Q (snd (f s))) \<and>
     (\<forall>f s. get_in_mem_image cfg = Some f \<longrightarrow> Q s \<longrightarrow> Q (snd (snd (f s))))"

definition payload_matches :: "(hash_t \<Rightarrow> u8 list \<Rightarrow> u8 list) \<Rightarrow> bpak_header \<Rightarrow> memory \<Rightarrow> bool" where
  "payload_matches H hdr m \<longleftrightarrow>
     (\<exists>hk n. image_hash_kind (hash_kind hdr) = Some (hk, n) \<and>
        H hk (concat (map (part_bytes hdr m) (used_parts (parts hdr)))) = take n (payload_hash hdr))"

text \<open>
  The header \<open>p\<close> points to was signed by a known key that was not revoked when it was checked,
  its parts passed the placement check, and if they neither wrap nor overlap each other, the
  memory they occupy has the payload digest of the header.
\<close>

definition image_verified ::
  "('w, 'z) boot_vars_scheme platform \<Rightarrow> (hash_t \<Rightarrow> u8 list \<Rightarrow> u8 list) \<Rightarrow>
   (u8 list \<Rightarrow> hash_t \<Rightarrow> u8 list \<Rightarrow> u8 list \<Rightarrow> bool) \<Rightarrow> u64 option \<Rightarrow> ('w, 'z) boot_vars_scheme \<Rightarrow> bool" where
  "image_verified P H V p s \<longleftrightarrow>
     (\<exists>hdr t. header_authentic (keystore_pb P) V H hdr \<and>
        rot_read_key_status (rot_cfg P) (key_id hdr) t = (PB_OK, t) \<and>
        header_at p s = unsigned_header hdr \<and>
        boot_image_verify_parts (layout P) (header_at p s) = Some PB_OK \<and>
        (parts_disjoint (header_at p s) (used_parts (parts (header_at p s))) \<longrightarrow>
           payload_matches H (header_at p s) (mem s)))"

abbreviation env_with :: "(hash_t \<Rightarrow> u8 list \<Rightarrow> u8 list) \<Rightarrow> (u8 list \<Rightarrow> hash_t \<Rightarrow> u8 list \<Rightarrow> u8 list \<Rightarrow> bool) \<Rightarrow>
   ('w \<Rightarrow> hash_t \<times> u8 list) \<Rightarrow> bpak_header \<Rightarrow> ('w, 'z) boot_vars_scheme \<Rightarrow> bool" where
  "env_with H V st h s \<equiv> boot_env H V st s \<and> header s = h"

lemma boot_env_cong:
  assumes "hash_ops s' = hash_ops s" and "dsa_ops s' = dsa_ops s" and "bio_pool s' = bio_pool s"
    and "header s' = header s" and "payload_digest s' = payload_digest s"
  shows "boot_env H V st s' = boot_env H V st s"
  using assms by (simp add: boot_env_def hash_drivers_def dsa_drivers_def io_separate_def)

lemma boot_env_update [simp]:
  "boot_env H V st (s\<lparr>world := w\<rparr>) = boot_env H V st s"
  "boot_env H V st (s\<lparr>mem := m\<rparr>) = boot_env H V st s"
  "boot_env H V st (s\<lparr>current_hash_ops := c\<rparr>) = boot_env H V st s"
  "boot_env H V st (s\<lparr>boot_part_uu := u\<rparr>) = boot_env H V st s"
  "boot_env H V st (s\<lparr>boot_device := d\<rparr>) = boot_env H V st s"
  "boot_env H V st (s\<lparr>header_ptr := p\<rparr>) = boot_env H V st s"
  by (rule boot_env_cong; simp)+

lemma cb_inv_env: "cb_inv (env_with H V st h)"
  by (simp add: cb_inv_def)

lemma boot_env_header:
  "boot_env H V st s \<Longrightarrow> header_wf h \<Longrightarrow> boot_env H V st (s\<lparr>header := h\<rparr>)"
  by (simp add: boot_env_def hash_drivers_def dsa_drivers_def io_separate_def)

lemma header_wf_overlay: "header_wf h \<Longrightarrow> header_wf (dec_header (overlay (enc_header h) data))"
  by (rule header.wf_dec) (simp add: header.length_enc)

lemma bio_read_frame:
  assumes "bio_read dev lba len s = (rc, data, s')" and "io_separate st s"
  shows "\<exists>w. s' = s\<lparr>world := w\<rparr> \<and> st w = st (world s)"
proof (cases rule: bio_read_cases [of dev lba len s])
  case (refused rc')
  then show ?thesis using assms(1) by (intro exI [of _ "world s"]) simp
next
  case (call rd rc' data' w)
  have "bio_dev s dev \<in> set (bio_pool s)" using check_dev_range [OF call(1)] by simp
  then have "st w = st (world s)" using assms(2) call(2,4) unfolding io_separate_def by blast
  then show ?thesis using assms(1) call(5) by auto
qed

lemma boot_bio_read_frame: "read_cb_frame (Some boot_bio_read) st (env_with H V st h)"
proof -
  have "env_with H V st h s' \<and> mem s' = mem s \<and> current_hash_ops s' = current_hash_ops s \<and> st (world s') = st (world s)"
    if env: "env_with H V st h s" and read: "boot_bio_read lba n s = Some (rc, data, s')" for lba n rc data and s s' :: "('a, 'b) boot_vars_scheme"
  proof -
    have "io_separate st s" using env by (simp add: boot_env_def)
    then obtain w where "s' = s\<lparr>world := w\<rparr>" "st w = st (world s)"
      using bio_read_frame [of "boot_device s" "word_of_int lba" n s rc data s' st] read
      by (auto simp: boot_bio_read_def)
    then show ?thesis using env by simp
  qed
  then show ?thesis unfolding read_cb_frame_def by blast
qed

lemma no_cb_frame: "read_cb_frame None st I" "result_cb_frame None st I"
  by (simp_all add: read_cb_frame_def result_cb_frame_def)

lemma header_at_update [simp]:
  "header_at p (s\<lparr>payload_digest := d\<rparr>) = header_at p s" "header_at p (s\<lparr>header_ptr := q\<rparr>) = header_at p s"
  "header_at p (s\<lparr>boot_flags := b\<rparr>) = header_at p s"
  by (simp_all add: header_at_def split: option.split)

lemma header_at_store:
  assumes "header_wf hdr"
  shows "header_at p (store_header p hdr s) = hdr"
  using assms header.length_enc [OF assms] header.dec_enc [OF assms] mem_read_mem_write [of "enc_header hdr" "mem s"]
  by (simp add: header_at_def store_header_def split: option.split)

lemma boot_env_store:
  "boot_env H V st s \<Longrightarrow> header_wf hdr \<Longrightarrow> boot_env H V st (store_header p hdr s)"
  by (simp add: store_header_def boot_env_header split: option.split)

lemma crypto_frame_boot:
  assumes "crypto_frame s s'"
  shows "boot_env H V st s' = boot_env H V st s" "header s' = header s" "header_ptr s' = header_ptr s"
  using assms by (auto simp: crypto_frame_def)

lemma header_wf_unsigned: "header_wf h \<Longrightarrow> header_wf (unsigned_header h)"
  by (simp add: header_wf_def)

text \<open>What every path relies on.\<close>

definition platform_ok :: "('w, 'z) boot_vars_scheme platform \<Rightarrow> bool" where
  "platform_ok P \<longleftrightarrow> length (stack_buf P) = 64 \<and> rot_status_pure (rot_cfg P) \<and> load_chunk P \<noteq> 0"

lemma auth_header_at_OK:
  assumes "auth_header_at P p s = (PB_OK, s')" and "boot_env H V st s" and "header_wf (header_at p s)"
    and "platform_ok P"
  shows "header_at p s' = unsigned_header (header_at p s)"
    and "header_authentic (keystore_pb P) V H (header_at p s)"
    and "rot_read_key_status (rot_cfg P) (key_id (header_at p s)) s = (PB_OK, s)"
    and "boot_env H V st s'" and "header_ptr s' = header_ptr s"
proof -
  obtain hdr t where a: "boot_image_auth_header (keystore_pb P) (rot_cfg P) (stack_buf P) (header_at p s) s = (PB_OK, hdr, t)"
      "s' = store_header p hdr t"
    using assms(1) by (auto simp: auth_header_at_def split: prod.splits)
  have d: "hash_drivers s H st" "dsa_drivers s V" using assms(2) by (simp_all add: boot_env_def)
  have p: "length (stack_buf P) = 64" "rot_status_pure (rot_cfg P)" using assms(4) by (simp_all add: platform_ok_def)
  note f = auth_header_authentic [OF assms(3) p d a(1)]
  have wf: "header_wf hdr" using f header_wf_unsigned [OF assms(3)] by blast
  show "header_at p s' = unsigned_header (header_at p s)" using a(2) header_at_store [OF wf] f by simp
  show "header_authentic (keystore_pb P) V H (header_at p s)"
    "rot_read_key_status (rot_cfg P) (key_id (header_at p s)) s = (PB_OK, s)" using f by blast+
  have "boot_env H V st t" using assms(2) crypto_frame_boot(1) f by blast
  then show "boot_env H V st s'" using a(2) wf boot_env_store by blast
  show "header_ptr s' = header_ptr s"
    using a(2) crypto_frame_boot(3) f by (auto simp: store_header_def split: option.splits)
qed

lemma load_and_hash_at_OK:
  assumes "load_and_hash_at P p read_f result_f s = Some (PB_OK, s')" and "boot_env H V st s"
    and "header_at p s = hdr" and "header_wf hdr" and "platform_ok P" and "boot_image_verify_payload (header_at p s') (payload_digest s') = PB_OK"
    and "\<And>h. read_cb_frame read_f st (env_with H V st h)" and "\<And>h. result_cb_frame result_f st (env_with H V st h)"
    and "p \<noteq> None \<Longrightarrow> read_f = None \<and> result_f = None"
  shows "header_at p s' = hdr" and "boot_env H V st s'"
    and "parts_disjoint hdr (used_parts (parts hdr)) \<Longrightarrow> payload_matches H hdr (mem s')"
proof -
  obtain d t where l: "boot_image_load_and_hash hdr (load_chunk P) read_f result_f (payload_digest s) s = Some (PB_OK, d, t)"
      "s' = t\<lparr>payload_digest := d\<rparr>"
    using assms(1,3) by (auto simp: load_and_hash_at_def Option.bind_eq_Some_conv)
  have c: "load_chunk P \<noteq> 0" using assms(5) by (simp add: platform_ok_def)
  have drv: "hash_drivers s H st" using assms(2) by (simp add: boot_env_def)
  have env: "env_with H V st (header s) s" using assms(2) by simp
  note kept = load_and_hash_inv [OF l(1) c cb_inv_env assms(7,8) env]
  have hdr: "header_at p t = hdr"
  proof (cases p)
    case None
    then show ?thesis using kept assms(3) by (simp add: header_at_def)
  next
    case (Some a)
    then have "mem t = mem s" using crypto_frame_sel(1) load_and_hash_no_read [OF c] l(1) assms(9) by blast
    then show ?thesis using Some assms(3) by (simp add: header_at_def)
  qed
  then show "header_at p s' = hdr" using l(2) by simp
  have "boot_image_verify_payload hdr d = PB_OK" using assms(6) hdr l(2) by simp
  then show "payload_matches H hdr (mem s')" if "parts_disjoint hdr (used_parts (parts hdr))"
    using load_and_hash_digest [OF l(1) c drv assms(7,8) that cb_inv_env env] verify_payload_OK [of hdr d] assms(4) l(2)
    by (auto simp: payload_matches_def header_wf_def)
  show "boot_env H V st s'"
    using kept l(2) assms(2)
    by (simp add: boot_env_def hash_drivers_def dsa_drivers_def io_separate_def)
qed

text \<open>The chain of checks that all three paths run.\<close>

lemma chain_verified:
  assumes "auth_header_at P p s = (PB_OK, s1)" and "boot_env H V st s" and "header_wf (header_at p s)"
    and "platform_ok P" and "boot_image_verify_parts (layout P) (header_at p s1) = Some PB_OK"
    and "header_at p s2 = header_at p s1" and "boot_env H V st s2"
    and "load_and_hash_at P p read_f result_f s2 = Some (PB_OK, s3)"
    and "boot_image_verify_payload (header_at p s3) (payload_digest s3) = PB_OK"
    and "\<And>h. read_cb_frame read_f st (env_with H V st h)" and "\<And>h. result_cb_frame result_f st (env_with H V st h)"
    and "p \<noteq> None \<Longrightarrow> read_f = None \<and> result_f = None"
  shows "image_verified P H V p s3" and "boot_env H V st s3"
proof -
  note auth = auth_header_at_OK [OF assms(1-4)]
  let ?h = "unsigned_header (header_at p s)"
  have h: "header_at p s2 = ?h" using assms(6) auth(1) by simp
  note load = load_and_hash_at_OK [OF assms(8,7) h header_wf_unsigned [OF assms(3)] assms(4,9-12)]
  show "image_verified P H V p s3"
    unfolding image_verified_def load(1)
    by (rule exI [of _ "header_at p s"], rule exI [of _ s]) (use auth assms(5) load in simp)
  show "boot_env H V st s3" using load(2) .
qed

lemma notify_frame:
  assumes "result_cb_frame result_cb st (env_with H V st (header s))" and "boot_env H V st s"
    and "notify result_cb rc s = Some s'"
  shows "boot_env H V st s'" "header s' = header s" "mem s' = mem s"
  using assms by (cases result_cb; auto simp: notify_def result_cb_frame_def)+

lemma from_bio_verified:
  assumes "load_auth_verify_from_bio P cfg s = Some (PB_OK, s')" and "boot_env H V st s"
    and "platform_ok P" and "driver_keeps cfg (boot_env H V st)"
  shows "image_verified P H V None s'"
proof -
  obtain s1 where s1: "choose_boot_device cfg s = Some (PB_OK, s1)"
    using assms(1) by (auto simp: load_auth_verify_from_bio_def Option.bind_eq_Some_conv split: if_splits)
  then have env: "boot_env H V st s1"
    using assms(2,4)
    by (auto simp: choose_boot_device_def driver_keeps_def Let_def Option.bind_eq_Some_conv
        split: option.splits if_splits prod.splits)
  obtain lba data s2 s4 where
    r: "bio_read (boot_device s1) lba 4096 s1 = (PB_OK, data, s2)"
    and a: "auth_header_at P None (s2\<lparr>header := dec_header (overlay (enc_header (header s2)) data)\<rparr>) = (PB_OK, s4)"
    and v: "boot_image_verify_parts (layout P) (header s4) = Some PB_OK"
    and l: "load_and_hash_at P None (Some boot_bio_read) None s4 = Some (PB_OK, s')"
    and p: "boot_image_verify_payload (header s') (payload_digest s') = PB_OK"
    using assms(1) s1
    by (auto simp: load_auth_verify_from_bio_def Let_def Option.bind_eq_Some_conv split: if_splits prod.splits)
  obtain w where "s2 = s1\<lparr>world := w\<rparr>" using bio_read_frame [OF r, of st] env by (auto simp: boot_env_def)
  then have env2: "boot_env H V st s2" using env by simp
  then have wf2: "header_wf (header s2)" by (simp add: boot_env_def)
  note env3 = boot_env_header [OF env2 header_wf_overlay [OF wf2]]
  show ?thesis
    using chain_verified [OF a env3 _ assms(3) _ refl _ l] auth_header_at_OK(4) [OF a env3 _ assms(3)]
      header_wf_overlay [OF wf2] v p
    by (simp add: header_at_def boot_bio_read_frame no_cb_frame)
qed

lemma in_mem_verified:
  assumes "auth_verify_in_mem P cfg s = Some (PB_OK, s')" and "boot_env H V st s"
    and "platform_ok P" and "driver_keeps cfg (boot_env H V st)"
  shows "image_verified P H V (header_ptr s') s'"
proof -
  obtain f q s1 s2 where f: "get_in_mem_image cfg = Some f" "f s = (PB_OK, q, s1)"
    and a: "auth_header_at P q (s1\<lparr>header_ptr := q\<rparr>) = (PB_OK, s2)"
    and v: "boot_image_verify_parts (layout P) (header_at q s2) = Some PB_OK"
    and l: "load_and_hash_at P q None None s2 = Some (PB_OK, s')"
    and p: "boot_image_verify_payload (header_at q s') (payload_digest s') = PB_OK"
    using assms(1)
    by (auto simp: auth_verify_in_mem_def Let_def Option.bind_eq_Some_conv split: if_splits prod.splits option.splits)
  have env1: "boot_env H V st (s1\<lparr>header_ptr := q\<rparr>)"
    using assms(2,4) f unfolding driver_keeps_def by (metis boot_env_update(6) snd_conv)
  have wf: "header_wf (header_at q (s1\<lparr>header_ptr := q\<rparr>))"
    using env1 by (auto simp: header_at_def boot_env_def header.wf_dec split: option.split)
  have "image_verified P H V q s'"
    using chain_verified(1) [OF a env1 wf assms(3) v refl _ l p] auth_header_at_OK(4) [OF a env1 wf assms(3)] no_cb_frame
    by blast
  moreover have "header_ptr s2 = q" using auth_header_at_OK(5) [OF a env1 wf assms(3)] by simp
  moreover have "header_ptr s' = header_ptr s2"
    using l assms(3) crypto_frame_boot(3) [OF load_and_hash_no_read]
    by (auto simp: load_and_hash_at_def platform_ok_def Option.bind_eq_Some_conv)
  ultimately show ?thesis by simp
qed

lemma from_cb_OK:
  assumes "load_auth_verify_from_cb P read_cb result_cb s = Some (PB_OK, s')"
  obtains f data s1 s2 t2 s3 where "read_cb = Some f" "f (-8) 4096 s = Some (PB_OK, data, s1)"
    "auth_header_at P None (s1\<lparr>header := dec_header (overlay (enc_header (header s1)) (take 4096 data))\<rparr>) = (PB_OK, s2)"
    "boot_image_verify_parts (layout P) (header s2) = Some PB_OK" "notify result_cb PB_OK s2 = Some t2"
    "load_and_hash_at P None read_cb result_cb t2 = Some (PB_OK, s3)"
    "boot_image_verify_payload (header s3) (payload_digest s3) = PB_OK" "notify result_cb PB_OK s3 = Some s'"
proof -
  obtain f where f: "read_cb = Some f"
    using assms by (cases read_cb) (simp_all add: load_auth_verify_from_cb_def)
  note eq = assms [unfolded load_auth_verify_from_cb_def f option.case]
  obtain rc data s1 where r: "f (-8) 4096 s = Some (rc, data, s1)"
    using eq by (cases "f (-8) 4096 s") auto
  let ?t = "s1\<lparr>header := dec_header (overlay (enc_header (header s1)) (take 4096 data))\<rparr>"
  have rc: "rc = PB_OK" using eq by (cases "rc = PB_OK") (simp_all add: r Let_def)
  obtain rc2 s2 where a: "auth_header_at P None ?t = (rc2, s2)" by (cases "auth_header_at P None ?t")
  have rc2: "rc2 = PB_OK"
    using eq by (cases "rc2 = PB_OK") (simp_all add: r rc a Let_def Option.bind_eq_Some_conv)
  obtain rc3 where v: "boot_image_verify_parts (layout P) (header s2) = Some rc3"
    using eq by (cases "boot_image_verify_parts (layout P) (header s2)") (simp_all add: r rc a rc2 Let_def)
  obtain t2 where t: "notify result_cb rc3 s2 = Some t2"
    using eq by (cases "notify result_cb rc3 s2") (simp_all add: r rc a rc2 v Let_def)
  have rc3: "rc3 = PB_OK"
    using eq by (cases "rc3 = PB_OK") (simp_all add: r rc a rc2 v t Let_def)
  note t' = t [unfolded rc3]
  obtain rc4 s3 where l: "load_and_hash_at P None read_cb result_cb t2 = Some (rc4, s3)"
    using eq f by (cases "load_and_hash_at P None read_cb result_cb t2") (auto simp: r rc a rc2 v t' rc3 Let_def)
  have rc4: "rc4 = PB_OK"
    using eq l f by (cases "rc4 = PB_OK") (simp_all add: r rc a rc2 v t' rc3 Let_def)
  have "boot_image_verify_payload (header s3) (payload_digest s3) = PB_OK" "notify result_cb PB_OK s3 = Some s'"
    using eq l f by (auto simp: r rc a rc2 v t' rc3 rc4 Let_def Option.bind_eq_Some_conv)
  then show thesis using that f r rc a rc2 v t' rc3 l rc4 by blast
qed

lemma from_cb_verified:
  assumes "load_auth_verify_from_cb P read_cb result_cb s = Some (PB_OK, s')" and "boot_env H V st s"
    and "platform_ok P" and "\<And>h. read_cb_frame read_cb st (env_with H V st h)"
    and "\<And>h. result_cb_frame result_cb st (env_with H V st h)"
  shows "image_verified P H V None s'"
proof -
  obtain f data s1 s2 t2 s3 where f: "read_cb = Some f" "f (-8) 4096 s = Some (PB_OK, data, s1)"
    and a: "auth_header_at P None (s1\<lparr>header := dec_header (overlay (enc_header (header s1)) (take 4096 data))\<rparr>) = (PB_OK, s2)"
    and v: "boot_image_verify_parts (layout P) (header s2) = Some PB_OK"
    and t: "notify result_cb PB_OK s2 = Some t2"
    and l: "load_and_hash_at P None read_cb result_cb t2 = Some (PB_OK, s3)"
    and p: "boot_image_verify_payload (header s3) (payload_digest s3) = PB_OK" "notify result_cb PB_OK s3 = Some s'"
    using assms(1) by (rule from_cb_OK)
  have env1: "boot_env H V st s1" using assms(2,4) f unfolding read_cb_frame_def by blast
  then have wf1: "header_wf (header s1)" by (simp add: boot_env_def)
  note wf2 = header_wf_overlay [OF wf1]
  note env2 = boot_env_header [OF env1 wf2]
  have env3: "boot_env H V st s2" using auth_header_at_OK(4) [OF a env2 _ assms(3)] wf2 by (simp add: header_at_def)
  note n2 = notify_frame [OF assms(5) env3 t]
  have 3: "image_verified P H V None s3" "boot_env H V st s3"
    using chain_verified [OF a env2 _ assms(3) _ _ n2(1) l] wf2 v p(1) n2(2) assms(4,5) by (simp_all add: header_at_def)
  then show ?thesis
    using notify_frame [OF assms(5) 3(2) p(2)] by (simp add: image_verified_def header_at_def)
qed

text \<open>
  C1: secure boot. Control is handed over only to a verified image. If \<open>boot\<close> calls \<open>jump\<close>
  in state \<open>h\<close>, then the image was verified in a state \<open>v\<close> (its header is signed by a key of
  the key store that is not revoked, its parts passed the placement check, and if they neither
  wrap nor overlap each other, the memory they occupy has the payload digest of the header),
  and \<open>h\<close> is what the board's \<open>prepare\<close> and \<open>late_boot_cb\<close> callbacks, both successful, made of
  \<open>v\<close>. It is assumed that the drivers implement the hash \<open>H\<close> and the signature check \<open>V\<close>, that
  the callbacks leave the drivers, the pool and the static buffers alone, and that the source
  is not the custom one.
\<close>

theorem boot_jumps_only_to_verified_image:
  assumes "boot P (Some cfg) read_cb result_cb uu s = Some (rc, Some h, s')"
    and "boot_env H V st s" and "platform_ok P"
    and "driver_keeps cfg (boot_env H V st)" and "driver_keeps cfg (\<lambda>s. boot_source_var s \<noteq> BOOT_SOURCE_CUSTOM)"
    and "boot_source_var s \<noteq> BOOT_SOURCE_CUSTOM"
    and "\<And>h. read_cb_frame read_cb st (env_with H V st h)" and "\<And>h. result_cb_frame result_cb st (env_with H V st h)"
  shows "\<exists>v p v1. image_verified P H V p v \<and> (p = None \<or> p = header_ptr v) \<and>
    run_hook (prepare cfg) v = (PB_OK, v1) \<and> run_hook (late_boot_cb cfg) (v1\<lparr>boot_flags := 0\<rparr>) = (PB_OK, h)"
proof -
  obtain s1 where bl: "boot_load P (Some cfg) read_cb result_cb uu s = Some (PB_OK, s1)"
      and bj: "boot_jump (Some cfg) s1 = Some (rc, Some h, s')"
    using assms(1) by (auto simp: boot_def Option.bind_eq_Some_conv split: if_splits)
  obtain s2 u v v1 where e: "(case early_boot_cb cfg of None \<Rightarrow> (PB_OK, s) | Some f \<Rightarrow> f s) = (PB_OK, s2)"
    and li: "load_image P cfg read_cb result_cb (s2\<lparr>boot_part_uu := u\<rparr>) = Some (PB_OK, v)"
    and p: "run_hook (prepare cfg) v = (PB_OK, v1)" "s1 = v1\<lparr>boot_flags := 0\<rparr>"
    using bl by (auto simp: boot_load_def Option.bind_eq_Some_conv split: if_splits prod.splits)
  have j: "run_hook (late_boot_cb cfg) s1 = (PB_OK, h)"
    using bj by (auto simp: boot_jump_def Option.bind_eq_Some_conv split: if_splits prod.splits)
  have s2: "boot_env H V st s2" "boot_source_var s2 \<noteq> BOOT_SOURCE_CUSTOM"
    using e assms(2,4-6) unfolding driver_keeps_def by (auto split: option.splits)
  have "image_verified P H V None v \<or> image_verified P H V (header_ptr v) v"
    using li s2 from_bio_verified [OF _ _ assms(3,4)] in_mem_verified [OF _ _ assms(3,4)]
      from_cb_verified [OF _ _ assms(3,7,8)]
    by (auto simp: load_image_def split: boot_source.splits)
  then show ?thesis using p j by blast
qed

subsection \<open>A device that boots\<close>

text \<open>
  The image of the loading example, signed; a callback that delivers it; and a board whose
  only callback is \<open>jump\<close>.
\<close>

definition demo_signed :: bpak_header where
  "demo_signed = demo_image\<lparr>signature := sum_hash HASH_SHA256 (enc_header demo_image) @ replicate 480 0,
     signature_sz := 32\<rparr>"

definition demo_read_cb :: "('w, 'z) boot_vars_scheme boot_read_cb_t" where
  "demo_read_cb lba n s = Some (PB_OK, if lba = -8 then enc_header demo_signed else replicate (unat n) 3, s)"

definition demo_driver :: "'s boot_driver" where
  "demo_driver = \<lparr>default_boot_source = BOOT_SOURCE_CB, early_boot_cb = None, get_boot_bio_device = None,
     set_boot_partition_cb = None, get_boot_partition_cb = None, get_in_mem_image = None,
     authenticate_image = None, prepare = None, late_boot_cb = None, jump = Some id\<rparr>"

definition demo_platform :: "('w, 'z) boot_vars_scheme platform" where
  "demo_platform = \<lparr>keystore_pb = demo_keystore, rot_cfg = Some test_rot_config, layout = demo_layout,
     load_chunk = 4096, stack_buf = replicate 64 0\<rparr>"

definition demo_boot :: "(hash_t \<times> u8 list) boot_vars" where
  "demo_boot = \<lparr>world = (0, []), mem = (\<lambda>_. 0), bio_pool = [], n_bios = 0, fuse_box = replicate 128 0,
     fuse_dev = 0, dsa_ops = [Some eq_dsa_ops], no_of_dsa_ops = 1, hash_ops = [Some sum_hash_ops], no_of_hash_ops = 1,
     current_hash_ops = None, primary_part = 0, backup_part = 0, boot_state = pb_boot_state_zero,
     boot_state_backup = pb_boot_state_zero, header = bpak_init_header, header_ptr = None, boot_flags = 0,
     boot_device = -1, boot_source_var = BOOT_SOURCE_CB, boot_part_uu = replicate 16 0, payload_digest = replicate 64 0\<rparr>"

lemma demo_driver_sel [simp]:
  "early_boot_cb demo_driver = None" "prepare demo_driver = None" "late_boot_cb demo_driver = None"
  "jump demo_driver = Some id"
  by (simp_all add: demo_driver_def)

lemma demo_signed_facts:
  "header_wf demo_signed" "unsigned_header demo_signed = demo_image" "bpak_valid_header demo_signed = BPAK_OK"
  "key_id demo_signed = 0xa90f9680" "image_hash_kind (hash_kind demo_signed) = Some (4, 32)"
  "bpak_copyz_signature demo_signed 512 = (BPAK_OK, sum_hash HASH_SHA256 (enc_header demo_image), 32, demo_image)"
proof -
  have i: "signature demo_image = replicate 512 0" "signature_sz demo_image = 0" "key_id demo_image = 0xa90f9680"
    by (simp_all add: demo_image_def demo_unsigned_def bpak_init_header_def)
  show "header_wf demo_signed"
    using demo_image_facts(1) by (simp add: header_wf_def demo_signed_def sum_hash_def digest_len_of_def)
  show un: "unsigned_header demo_signed = demo_image"
    using i by (simp add: demo_signed_def)
  show "bpak_valid_header demo_signed = BPAK_OK"
    using demo_image_facts(2) by (auto simp: bpak_valid_header_def demo_signed_def split: if_splits)
  show "key_id demo_signed = 0xa90f9680" "image_hash_kind (hash_kind demo_signed) = Some (4, 32)"
    using i demo_image_facts(3) by (simp_all add: demo_signed_def)
  show "bpak_copyz_signature demo_signed 512 = (BPAK_OK, sum_hash HASH_SHA256 (enc_header demo_image), 32, demo_image)"
    using un by (simp add: bpak_copyz_signature_def) (simp add: demo_signed_def sum_hash_def digest_len_of_def)
qed

lemma demo_boot_auth:
  fixes s :: "(hash_t \<times> u8 list, 'z) boot_vars_scheme"
  assumes "header s = demo_signed" and "hash_ops s = [Some sum_hash_ops]" and "dsa_ops s = [Some eq_dsa_ops]"
    and "fuse_box s = replicate 128 0"
  shows "auth_header_at demo_platform None s =
    (PB_OK, s\<lparr>current_hash_ops := None, world := (4, enc_header demo_image), header := demo_image\<rparr>)"
proof -
  let ?d = "sum_hash HASH_SHA256 (enc_header demo_image)"
  have d: "take 32 (overlay (replicate 64 0) ?d) = ?d"
    using take_overlay [of ?d "replicate 64 0"] by (simp add: sum_hash_def digest_len_of_def)
  have st: "rot_read_key_status (Some test_rot_config) 0xa90f9680 s = (PB_OK, s)"
    using assms(4) by (simp add: rot_read_key_status_def test_rot_config_def test_key_map_def qemu_read_key_status_eq)
  then have key: "rot_get_dsa_key demo_keystore (Some test_rot_config) 0xa90f9680 s = (PB_OK, Some (1, [1, 2]), s)"
    by (simp add: rot_get_dsa_key_def demo_keystore_def Let_def) (simp add: test_rot_config_def test_key_map_def)
  show ?thesis
    using assms d
    by (simp add: auth_header_at_def header_at_def store_header_def demo_platform_def boot_image_auth_header_def
        demo_signed_facts st key hash_init_def hash_update_def hash_final_def dsa_verify_def Let_def
        sum_hash_ops_def eq_dsa_ops_def digest_len_of_def)
qed

lemma demo_boot_load:
  fixes s :: "(hash_t \<times> u8 list, 'z) boot_vars_scheme"
  assumes "header s = demo_image" and "hash_ops s = [Some sum_hash_ops]" and "payload_digest s = replicate 64 0"
  shows "\<exists>s'. load_and_hash_at demo_platform None (Some demo_read_cb) None s = Some (PB_OK, s') \<and>
    header s' = demo_image \<and> header_ptr s' = header_ptr s \<and> payload_digest s' = sum_hash HASH_SHA256 (replicate 512 3) @ replicate 32 0"
proof -
  have [simp]: "parts demo_image = demo_part # replicate 31 part_zero" "p_id demo_part = 7" "p_id part_zero = 0"
    by (simp_all add: demo_image_def demo_part_def part_zero_def)
  have "replicate 31 part_zero = part_zero # replicate 30 part_zero" by (simp flip: replicate_Suc)
  then have [simp]: "load_parts_from h c r f (replicate 31 part_zero) s = Some (PB_OK, s)"
    for h c r f and s :: "(hash_t \<times> u8 list, 'z) boot_vars_scheme" by simp
  have m: "mem_read (mem_write m 0x1000 (replicate 512 3)) 0x1000 512 = replicate 512 3" for m
    using mem_read_mem_write [of "replicate 512 3" m "0x1000"] by simp
  have off: "bpak_part_offset demo_image demo_part = 4096"
    by (simp add: bpak_part_offset_def demo_image_def demo_part_def)
  have "overlay (replicate 64 0) (sum_hash 4 (replicate 512 3)) = sum_hash 4 (replicate 512 3) @ replicate 32 0"
    by (simp add: overlay_def sum_hash_def digest_len_of_def)
  with assms show ?thesis
    by (simp add: load_and_hash_at_def header_at_def demo_platform_def boot_image_load_and_hash_def demo_image_facts
        hash_init_def Let_def sum_hash_ops_def load_chunks.simps [of _ 4096 _ 4096] read_chunk_def demo_read_cb_def
        hash_update_async_def hash_final_def m off)
qed

lemma demo_loads:
  "\<exists>s'. load_image demo_platform demo_driver (Some demo_read_cb) None
       (demo_boot\<lparr>header_ptr := q, boot_part_uu := u\<rparr>) = Some (PB_OK, s') \<and> header s' = demo_image \<and> header_ptr s' = q"
proof -
  let ?s = "demo_boot\<lparr>header_ptr := q, boot_part_uu := u, header := demo_signed\<rparr>"
  have [simp]: "dec_header (overlay (enc_header (header demo_boot)) (take 4096 (enc_header demo_signed))) = demo_signed"
    using header.dec_enc [OF demo_signed_facts(1)] header.length_enc [OF demo_signed_facts(1)]
      header.length_enc [OF header_wf_init] by (simp add: demo_boot_def)
  define s2 where "s2 = ?s\<lparr>current_hash_ops := None, world := (4, enc_header demo_image), header := demo_image\<rparr>"
  have a: "auth_header_at demo_platform None ?s = (PB_OK, s2)"
    unfolding s2_def by (rule demo_boot_auth) (simp_all add: demo_boot_def)
  have "header s2 = demo_image" "hash_ops s2 = [Some sum_hash_ops]" "payload_digest s2 = replicate 64 0"
    by (simp_all add: s2_def demo_boot_def)
  then obtain s3 where l: "load_and_hash_at demo_platform None (Some demo_read_cb) None s2 = Some (PB_OK, s3)"
      "header s3 = demo_image" "header_ptr s3 = q"
      "payload_digest s3 = sum_hash HASH_SHA256 (replicate 512 3) @ replicate 32 0"
    using demo_boot_load [of s2] by (auto simp: s2_def)
  have v: "boot_image_verify_payload demo_image (sum_hash HASH_SHA256 (replicate 512 3) @ replicate 32 0) = PB_OK"
    using demo_image_facts by (simp add: boot_image_verify_payload_def) (simp add: demo_image_def)
  have [simp]: "boot_source_var demo_boot = BOOT_SOURCE_CB" "layout demo_platform = demo_layout" "header s2 = demo_image"
    by (simp_all add: demo_boot_def demo_platform_def s2_def)
  show ?thesis
    using a l v demo_verify_parts
    by (simp add: load_image_def load_auth_verify_from_cb_def demo_read_cb_def notify_def Let_def)
qed

lemma demo_boots:
  "\<exists>h s'. boot demo_platform (Some demo_driver) (Some demo_read_cb) None None demo_boot = Some (err PB_ERR, Some h, s')"
proof -
  have "demo_boot\<lparr>header_ptr := None, boot_part_uu := uuid_clear\<rparr> = demo_boot\<lparr>boot_part_uu := uuid_clear\<rparr>"
    by (simp add: demo_boot_def)
  then obtain s' where "load_image demo_platform demo_driver (Some demo_read_cb) None
      (demo_boot\<lparr>boot_part_uu := uuid_clear\<rparr>) = Some (PB_OK, s')"
    using demo_loads [of uuid_clear None] by auto
  then show ?thesis by (simp add: boot_def boot_load_def run_hook_def boot_jump_def)
qed

theorem boot_jumps_only_to_verified_image_witness:
  "\<exists>h s' p. \<exists>v :: (hash_t \<times> u8 list) boot_vars.
     boot demo_platform (Some demo_driver) (Some demo_read_cb) None None demo_boot = Some (err PB_ERR, Some h, s') \<and>
     image_verified demo_platform sum_hash eq_V p v"
proof -
  obtain h s' where b: "boot demo_platform (Some demo_driver) (Some demo_read_cb) None None demo_boot =
      Some (err PB_ERR, Some h, s')"
    using demo_boots by blast
  have env: "boot_env sum_hash eq_V id demo_boot"
    using header_wf_init
    by (simp add: boot_env_def demo_boot_def hash_drivers_def dsa_drivers_def io_separate_def hash_driver_sum
        dsa_driver_def eq_dsa_ops_def)
  have ok: "platform_ok demo_platform"
    by (simp add: platform_ok_def demo_platform_def rot_status_pure_test)
  have keeps: "driver_keeps demo_driver Q" for Q :: "(hash_t \<times> u8 list) boot_vars \<Rightarrow> bool"
    by (simp add: driver_keeps_def demo_driver_def)
  have fr: "read_cb_frame (Some demo_read_cb) id (env_with sum_hash eq_V id h)" for h :: bpak_header
    by (simp add: read_cb_frame_def demo_read_cb_def)
  have "boot_source_var demo_boot \<noteq> BOOT_SOURCE_CUSTOM" by (simp add: demo_boot_def)
  from boot_jumps_only_to_verified_image [OF b env ok keeps keeps this fr no_cb_frame(2)] b
  show ?thesis by blast
qed


end
