(* ===== verification/Gpt.thy ===== *)
theory Gpt
  imports Boot
begin

text \<open>
  GUID partition tables, \<open>src/drivers/partition/gpt.c\<close>, and static partition tables,
  \<open>src/drivers/partition/static.c\<close>.

  The static variables extend the state; the tables the board offers are data of the state.
  The two struct layouts \<open>gpt_primary_tbl\<close> (header, then entries) and \<open>gpt_backup_tbl\<close>
  (entries, then header) are a header and a list of 128 entries each. \<open>plat_get_us_tick\<close> is
  the argument \<open>tick\<close>. The shifts of \<open>gpt_prng\<close> are those of 32 bit two's complement
  integers. An access past the 128 entries is \<open>None\<close>.
\<close>

subsection \<open>Data\<close>

record gpt_header =
  gh_signature :: u64
  gh_rev :: u32
  gh_hdr_sz :: u32
  gh_hdr_crc :: u32
  gh_reserved :: u32
  gh_current_lba :: u64
  gh_backup_lba :: u64
  gh_first_lba :: u64
  gh_last_lba :: u64
  gh_disk_uuid :: "u8 list"
  gh_entries_start_lba :: u64
  gh_no_of_parts :: u32
  gh_part_entry_sz :: u32
  gh_part_array_crc :: u32
  gh_reserved2 :: "u8 list"

record gpt_part_hdr =
  gp_type_uuid :: "u8 list"
  gp_uuid :: "u8 list"
  gp_first_lba :: u64
  gp_last_lba :: u64
  gp_attr :: "u8 list"
  gp_name :: "u8 list"

record gpt_part_table =
  pt_uu :: uuid_t
  pt_description :: "u8 list"
  pt_size :: u64

record gpt_table_list =
  tl_name :: "u8 list"
  tl_variant :: int
  tl_table :: "gpt_part_table list"

record 'w gpt = "'w boot_vars" +
  prng_state :: u32
  pri_hdr :: gpt_header
  pri_part :: "gpt_part_hdr list"
  bak_hdr :: gpt_header
  bak_part :: "gpt_part_hdr list"
  gpt_pmbr :: "u8 list"
  gpt_dev :: int
  gpt_tables :: "gpt_table_list list"

definition enc_gpt_header_head :: "gpt_header \<Rightarrow> u8 list" where
  "enc_gpt_header_head h = le_bytes 8 (gh_signature h) @ le_bytes 4 (gh_rev h) @ le_bytes 4 (gh_hdr_sz h)"

definition enc_gpt_header_tail :: "gpt_header \<Rightarrow> u8 list" where
  "enc_gpt_header_tail h = le_bytes 4 (gh_reserved h) @ le_bytes 8 (gh_current_lba h) @ le_bytes 8 (gh_backup_lba h) @
     le_bytes 8 (gh_first_lba h) @ le_bytes 8 (gh_last_lba h) @ gh_disk_uuid h @ le_bytes 8 (gh_entries_start_lba h) @
     le_bytes 4 (gh_no_of_parts h) @ le_bytes 4 (gh_part_entry_sz h) @ le_bytes 4 (gh_part_array_crc h) @ gh_reserved2 h"

definition enc_gpt_header :: "gpt_header \<Rightarrow> u8 list" where
  "enc_gpt_header h = enc_gpt_header_head h @ le_bytes 4 (gh_hdr_crc h) @ enc_gpt_header_tail h"

definition dec_gpt_header :: "u8 list \<Rightarrow> gpt_header" where
  "dec_gpt_header bs = \<lparr>gh_signature = le_word (window 0 8 bs), gh_rev = le_word (window 8 4 bs),
     gh_hdr_sz = le_word (window 12 4 bs), gh_hdr_crc = le_word (window 16 4 bs), gh_reserved = le_word (window 20 4 bs),
     gh_current_lba = le_word (window 24 8 bs), gh_backup_lba = le_word (window 32 8 bs),
     gh_first_lba = le_word (window 40 8 bs), gh_last_lba = le_word (window 48 8 bs),
     gh_disk_uuid = window 56 16 bs, gh_entries_start_lba = le_word (window 72 8 bs),
     gh_no_of_parts = le_word (window 80 4 bs), gh_part_entry_sz = le_word (window 84 4 bs),
     gh_part_array_crc = le_word (window 88 4 bs), gh_reserved2 = window 92 420 bs\<rparr>"

definition gpt_header_wf :: "gpt_header \<Rightarrow> bool" where
  "gpt_header_wf h \<longleftrightarrow> length (gh_disk_uuid h) = 16 \<and> length (gh_reserved2 h) = 420"

definition enc_gpt_part :: "gpt_part_hdr \<Rightarrow> u8 list" where
  "enc_gpt_part p = gp_type_uuid p @ gp_uuid p @ le_bytes 8 (gp_first_lba p) @ le_bytes 8 (gp_last_lba p) @
     gp_attr p @ gp_name p"

definition dec_gpt_part :: "u8 list \<Rightarrow> gpt_part_hdr" where
  "dec_gpt_part bs = \<lparr>gp_type_uuid = window 0 16 bs, gp_uuid = window 16 16 bs,
     gp_first_lba = le_word (window 32 8 bs), gp_last_lba = le_word (window 40 8 bs),
     gp_attr = window 48 8 bs, gp_name = window 56 72 bs\<rparr>"

definition gpt_part_wf :: "gpt_part_hdr \<Rightarrow> bool" where
  "gpt_part_wf p \<longleftrightarrow> length (gp_type_uuid p) = 16 \<and> length (gp_uuid p) = 16 \<and> length (gp_attr p) = 8 \<and>
     length (gp_name p) = 72"

text \<open>The bytes of the two table structs.\<close>

definition enc_primary :: "gpt_header \<Rightarrow> gpt_part_hdr list \<Rightarrow> u8 list" where
  "enc_primary h ps = enc_gpt_header h @ enc_array enc_gpt_part ps"

definition enc_backup :: "gpt_header \<Rightarrow> gpt_part_hdr list \<Rightarrow> u8 list" where
  "enc_backup h ps = enc_array enc_gpt_part ps @ enc_gpt_header h"

definition dec_primary :: "u8 list \<Rightarrow> gpt_header \<times> gpt_part_hdr list" where
  "dec_primary bs = (dec_gpt_header (take 512 bs), dec_array dec_gpt_part 128 128 (drop 512 bs))"

definition dec_backup :: "u8 list \<Rightarrow> gpt_header \<times> gpt_part_hdr list" where
  "dec_backup bs = (dec_gpt_header (drop 16384 bs), dec_array dec_gpt_part 128 128 (take 16384 bs))"

definition gpt_header_signature :: u64 where "gpt_header_signature = 0x5452415020494645"

definition gpt_header_zero :: gpt_header where
  "gpt_header_zero = \<lparr>gh_signature = 0, gh_rev = 0, gh_hdr_sz = 0, gh_hdr_crc = 0, gh_reserved = 0,
     gh_current_lba = 0, gh_backup_lba = 0, gh_first_lba = 0, gh_last_lba = 0, gh_disk_uuid = replicate 16 0,
     gh_entries_start_lba = 0, gh_no_of_parts = 0, gh_part_entry_sz = 0, gh_part_array_crc = 0,
     gh_reserved2 = replicate 420 0\<rparr>"

definition gpt_part_zero :: gpt_part_hdr where
  "gpt_part_zero = \<lparr>gp_type_uuid = replicate 16 0, gp_uuid = replicate 16 0, gp_first_lba = 0, gp_last_lba = 0,
     gp_attr = replicate 8 0, gp_name = replicate 72 0\<rparr>"

subsection \<open>Checksums and validity\<close>

definition efi_crc32 :: "u8 list \<Rightarrow> u32" where
  "efi_crc32 buf = crc32 0xffffffff buf XOR 0xffffffff"

text \<open>
  The checksum of the entry array, over \<open>128 * no_of_parts\<close> bytes; this size is passed as a
  32 bit number.
\<close>

definition part_array_crc :: "u32 \<Rightarrow> gpt_part_hdr list \<Rightarrow> u32 option" where
  "part_array_crc no_of_parts ps =
     (let sz = unat (128 * no_of_parts) in
      if sz > 16384 then None else Some (efi_crc32 (take sz (enc_array enc_gpt_part ps))))"

definition gpt_has_valid_header :: "gpt_header \<Rightarrow> int \<times> gpt_header" where
  "gpt_has_valid_header hdr =
     (if gh_signature hdr \<noteq> gpt_header_signature then (errno PB_ERR, hdr)
      else
        let crc_tmp = gh_hdr_crc hdr; hdr = hdr\<lparr>gh_hdr_crc := 0\<rparr> in
        if efi_crc32 (take 92 (enc_gpt_header hdr)) \<noteq> crc_tmp then (errno PB_ERR, hdr)
        else (PB_OK, hdr\<lparr>gh_hdr_crc := crc_tmp\<rparr>))"

definition gpt_has_valid_part_array :: "gpt_header \<Rightarrow> gpt_part_hdr list \<Rightarrow> int option" where
  "gpt_has_valid_part_array hdr part =
     do {
       crc \<leftarrow> part_array_crc (gh_no_of_parts hdr) part;
       Some (if crc \<noteq> gh_part_array_crc hdr then errno PB_ERR else PB_OK)
     }"

definition gpt_is_valid :: "gpt_header \<Rightarrow> gpt_part_hdr list \<Rightarrow> (int \<times> gpt_header) option" where
  "gpt_is_valid hdr part =
     (case gpt_has_valid_header hdr of (rc, hdr) \<Rightarrow>
        if rc \<noteq> PB_OK then Some (errno PB_ERR, hdr)
        else do {
          rc \<leftarrow> gpt_has_valid_part_array hdr part;
          Some (if rc \<noteq> PB_OK then errno PB_ERR else PB_OK, hdr)
        })"

subsection \<open>Building a table\<close>

definition gpt_prng :: "u32 \<Rightarrow> u32" where
  "gpt_prng x =
     (let x = x XOR push_bit 13 x;
          x = x XOR signed_drop_bit 17 x
      in x XOR push_bit 5 x)"

primrec gpt_prng_bytes :: "nat \<Rightarrow> u32 \<Rightarrow> u8 list \<times> u32" where
  "gpt_prng_bytes 0 x = ([], x)"
| "gpt_prng_bytes (Suc n) x =
     (let x = gpt_prng x; (bs, y) = gpt_prng_bytes n x in (ucast x # bs, y))"

definition gpt_init_tbl :: "u32 \<Rightarrow> int \<Rightarrow> ('w, 'z) gpt_scheme \<Rightarrow> int \<times> ('w, 'z) gpt_scheme" where
  "gpt_init_tbl tick dev s =
     (let last_lba = (word_of_int (bio_get_last_block s dev) :: u32);
          (uu, prng) = gpt_prng_bytes 16 tick;
          hdr = gpt_header_zero\<lparr>gh_signature := gpt_header_signature, gh_rev := 0x00010000, gh_hdr_sz := 92,
            gh_current_lba := 1, gh_no_of_parts := 128,
            gh_first_lba := 1 + 1 + (128 * 128) div 512,
            gh_backup_lba := ucast last_lba,
            gh_last_lba := ucast last_lba - (128 * 128) div 512,
            gh_entries_start_lba := 1 + 1,
            gh_part_entry_sz := 128, gh_disk_uuid := uu\<rparr>
      in (PB_OK, s\<lparr>prng_state := prng, pri_hdr := hdr, pri_part := replicate 128 gpt_part_zero,
            bak_hdr := gpt_header_zero, bak_part := replicate 128 gpt_part_zero\<rparr>))"

text \<open>Every character of the name is followed by a zero byte.\<close>

definition gpt_wide :: "u8 list \<Rightarrow> u8 list" where
  "gpt_wide name = concat (map (\<lambda>c. [c, 0]) name)"

definition gpt_add_part ::
  "nat \<Rightarrow> u32 \<Rightarrow> uuid_t \<Rightarrow> u8 list \<Rightarrow> ('w, 'z) gpt_scheme \<Rightarrow> (int \<times> ('w, 'z) gpt_scheme) option" where
  "gpt_add_part part_idx no_of_blocks type_uuid part_name s =
     (if part_idx \<ge> 128 then None
      else
        let first = (if part_idx = 0 then gh_first_lba (pri_hdr s)
                     else gp_last_lba (pri_part s ! (part_idx - 1)) + 1);
            part = gpt_part_zero\<lparr>gp_first_lba := first, gp_last_lba := first + ucast no_of_blocks - 1\<rparr>;
            s = s\<lparr>pri_part := (pri_part s)[part_idx := part]\<rparr>
        in if gp_last_lba part \<ge> gh_last_lba (pri_hdr s) then Some (err PB_ERR_MEM, s)
           else if length part_name > 36 then Some (err PB_ERR, s)
           else
             let part = part\<lparr>gp_name := overlay (gp_name part) (gpt_wide part_name),
                   gp_attr := (gp_attr part)[7 := 0x80, 6 := 0x80],
                   gp_type_uuid := take 16 type_uuid, gp_uuid := take 16 type_uuid\<rparr>
             in Some (PB_OK, s\<lparr>pri_part := (pri_part s)[part_idx := part],
                               bak_part := (bak_part s)[part_idx := part]\<rparr>))"

definition pmbr_bytes :: "u32 \<Rightarrow> u8 list" where
  "pmbr_bytes llba =
     (blit 458 (le_bytes 4 llba)
       ((replicate 512 0)[448 := 2, 449 := 0, 450 := 0xEE, 451 := 0xFF, 452 := 0xFF, 453 := 0xFF, 454 := 0x01]))
       [510 := 0x55, 511 := 0xAA]"

definition gpt_write_tbl :: "int \<Rightarrow> ('w, 'z) gpt_scheme \<Rightarrow> (int \<times> ('w, 'z) gpt_scheme) option" where
  "gpt_write_tbl dev s =
     do {
       crc \<leftarrow> part_array_crc (gh_no_of_parts (pri_hdr s)) (pri_part s);
       let hdr = (pri_hdr s)\<lparr>gh_hdr_crc := 0, gh_part_array_crc := crc\<rparr>;
       let hdr = hdr\<lparr>gh_hdr_crc := efi_crc32 (take 92 (enc_gpt_header hdr))\<rparr>;
       let llba = (word_of_int (bio_get_last_block s dev) :: u32);
       let s = s\<lparr>pri_hdr := hdr, gpt_pmbr := pmbr_bytes llba\<rparr>;
       case bio_write dev 0 512 (gpt_pmbr s) s of (rc, s) \<Rightarrow>
       if rc \<noteq> PB_OK then Some (rc, s)
       else case bio_write dev (ucast (gh_current_lba hdr)) 16896 (enc_primary hdr (pri_part s)) s of (rc, s) \<Rightarrow>
       if rc \<noteq> PB_OK then Some (rc, s)
       else if bio_block_size s dev = 0 \<or> unat (gh_no_of_parts hdr) > 128 then None
       else
         let n = unat (gh_no_of_parts hdr);
             part = take n (pri_part s) @ drop n (bak_part s);
             last_lba = (word_of_int (bio_get_last_block s dev) :: u64);
             bhdr = hdr\<lparr>gh_backup_lba := gh_current_lba hdr, gh_current_lba := last_lba,
               gh_entries_start_lba := last_lba -
                 (ucast (gh_no_of_parts hdr) * 128) div word_of_int (bio_block_size s dev), gh_hdr_crc := 0\<rparr>
         in do {
           crc \<leftarrow> part_array_crc (gh_no_of_parts bhdr) part;
           let bhdr = bhdr\<lparr>gh_part_array_crc := crc\<rparr>;
           let bhdr = bhdr\<lparr>gh_hdr_crc := efi_crc32 (take 92 (enc_gpt_header bhdr))\<rparr>;
           let s = s\<lparr>bak_hdr := bhdr, bak_part := part\<rparr>;
           Some (bio_write dev (ucast (gh_entries_start_lba bhdr)) 16896 (enc_backup bhdr part) s)
         }
     }"

text \<open>The loop over the entries of a table, from index \<open>i\<close> on.\<close>

fun gpt_add_parts ::
  "int \<Rightarrow> nat \<Rightarrow> gpt_part_table list \<Rightarrow> ('w, 'z) gpt_scheme \<Rightarrow> (int \<times> ('w, 'z) gpt_scheme) option" where
  "gpt_add_parts dev i [] s = Some (PB_OK, s)"
| "gpt_add_parts dev i (ent # ents) s =
     (if bio_block_size s dev = 0 then None
      else do {
        (rc, s) \<leftarrow> gpt_add_part i (ucast (pt_size ent div word_of_int (bio_block_size s dev)))
          (uuid_to_guid (pt_uu ent)) (pt_description ent) s;
        if rc \<noteq> PB_OK then Some (rc, s) else gpt_add_parts dev (i + 1) ents s
      })"

definition gpt_install_partition_table ::
  "u32 \<Rightarrow> int \<Rightarrow> int \<Rightarrow> ('w, 'z) gpt_scheme \<Rightarrow> (int \<times> ('w, 'z) gpt_scheme) option" where
  "gpt_install_partition_table tick dev variant s =
     (if variant < 0 \<or> variant \<ge> int (length (gpt_tables s)) then Some (err PB_ERR_PARAM, s)
      else
        let tbl = gpt_tables s ! nat variant in
        case gpt_init_tbl tick dev s of (rc, s) \<Rightarrow>
        if rc \<noteq> PB_OK then Some (rc, s)
        else do {
          (rc, s) \<leftarrow> gpt_add_parts dev 0 (tl_table tbl) s;
          if rc \<noteq> PB_OK then Some (rc, s) else gpt_write_tbl dev s
        })"

subsection \<open>Start-up\<close>

text \<open>Registering the partitions up to the first entry whose \<open>first_lba\<close> is zero.\<close>

definition gpt_part_name :: "gpt_part_hdr \<Rightarrow> u8 list" where
  "gpt_part_name p = map (\<lambda>i. gp_name p ! (2 * i)) [0..<36] @ [0]"

fun gpt_register :: "int \<Rightarrow> gpt_part_hdr list \<Rightarrow> ('w, 'z) gpt_scheme \<Rightarrow> (int \<times> ('w, 'z) gpt_scheme) option" where
  "gpt_register dev [] s = None"
| "gpt_register dev (p # ps) s =
     (if gp_first_lba p = 0 then Some (PB_OK, s)
      else
        case bio_allocate_parent dev (ucast (gp_first_lba p)) (ucast (gp_last_lba p))
               (word_of_int (bio_block_size s dev)) (uuid_to_guid (gp_uuid p)) (c_str (gpt_part_name p)) s of
          (new_dev, s) \<Rightarrow> if new_dev < 0 then Some (new_dev, s) else gpt_register dev ps s)"

text \<open>The two recoveries, from the backup and from the primary table.\<close>

definition gpt_recover_primary :: "int \<Rightarrow> ('w, 'z) gpt_scheme \<Rightarrow> (int \<times> ('w, 'z) gpt_scheme) option" where
  "gpt_recover_primary dev s =
     (case gpt_has_valid_header (bak_hdr s) of (rc, bh) \<Rightarrow>
      let s = s\<lparr>bak_hdr := bh\<rparr> in
      if rc \<noteq> PB_OK then Some (err PB_ERR, s)
      else do {
        rc \<leftarrow> gpt_has_valid_part_array bh (bak_part s);
        if rc \<noteq> PB_OK then Some (err PB_ERR, s)
        else if unat (gh_no_of_parts bh) > 128 then None
        else
          let n = unat (gh_no_of_parts bh);
              hdr = bh\<lparr>gh_backup_lba := word_of_int (bio_get_last_block s dev), gh_current_lba := 1,
                gh_entries_start_lba := 1 + 1\<rparr>;
              s = s\<lparr>pri_hdr := hdr, pri_part := take n (bak_part s) @ drop n (pri_part s)\<rparr>
          in do {
            (rc, s) \<leftarrow> gpt_write_tbl dev s;
            Some (if rc \<noteq> PB_OK then err PB_ERR else PB_OK, s)
          }
      })"

definition gpt_recover_backup :: "int \<Rightarrow> ('w, 'z) gpt_scheme \<Rightarrow> (int \<times> ('w, 'z) gpt_scheme) option" where
  "gpt_recover_backup dev s =
     (case gpt_has_valid_header (pri_hdr s) of (rc, ph) \<Rightarrow>
      let s = s\<lparr>pri_hdr := ph\<rparr> in
      if rc \<noteq> PB_OK then Some (err PB_ERR, s)
      else do {
        rc \<leftarrow> gpt_has_valid_part_array ph (pri_part s);
        if rc \<noteq> PB_OK then Some (err PB_ERR, s)
        else if unat (gh_no_of_parts ph) > 128 then None
        else
          let n = unat (gh_no_of_parts ph);
              last_lba = (word_of_int (bio_get_last_block s dev) :: u64);
              hdr = ph\<lparr>gh_backup_lba := 1, gh_current_lba := last_lba,
                gh_entries_start_lba := last_lba - (ucast (gh_no_of_parts ph) * 128) div 512\<rparr>;
              s = s\<lparr>bak_hdr := hdr, bak_part := take n (pri_part s) @ drop n (bak_part s)\<rparr>
          in do {
            (rc, s) \<leftarrow> gpt_write_tbl dev s;
            Some (if rc \<noteq> PB_OK then err PB_ERR else PB_OK, s)
          }
      })"

text \<open>Both copies are read from the medium.\<close>

definition gpt_load :: "int \<Rightarrow> ('w, 'z) gpt_scheme \<Rightarrow> int \<times> ('w, 'z) gpt_scheme" where
  "gpt_load dev s =
     (case bio_read dev 1 16896 s of (rc, data, s) \<Rightarrow>
      let (h, ps) = dec_primary (overlay (enc_primary (pri_hdr s) (pri_part s)) data);
          s = s\<lparr>pri_hdr := h, pri_part := ps\<rparr> in
      if rc \<noteq> PB_OK then (rc, s)
      else
      let backup_lba = (word_of_int (bio_get_last_block s dev) - (128 * 128) div 512 :: u64) in
      case bio_read dev (ucast backup_lba) 16896 s of (rc, data, s) \<Rightarrow>
      let (h, ps) = dec_backup (overlay (enc_backup (bak_hdr s) (bak_part s)) data)
      in (rc, s\<lparr>bak_hdr := h, bak_part := ps\<rparr>))"

text \<open>Each copy is checked and, if it is damaged, recovered from the other one.\<close>

definition gpt_repair :: "int \<Rightarrow> ('w, 'z) gpt_scheme \<Rightarrow> (int \<times> ('w, 'z) gpt_scheme) option" where
  "gpt_repair dev s =
     do {
       (rc, h) \<leftarrow> gpt_is_valid (pri_hdr s) (pri_part s);
       let s = s\<lparr>pri_hdr := h\<rparr>;
       (rc, s) \<leftarrow> (if rc \<noteq> PB_OK then gpt_recover_primary dev s else Some (PB_OK, s));
       if rc \<noteq> PB_OK then Some (rc, s)
       else do {
         (rc, h) \<leftarrow> gpt_is_valid (bak_hdr s) (bak_part s);
         let s = s\<lparr>bak_hdr := h\<rparr>;
         if rc \<noteq> PB_OK then gpt_recover_backup dev s else Some (PB_OK, s)
       }
     }"

definition gpt_ptbl_init ::
  "int \<Rightarrow> gpt_table_list list \<Rightarrow> ('w, 'z) gpt_scheme \<Rightarrow> (int \<times> ('w, 'z) gpt_scheme) option" where
  "gpt_ptbl_init dev default_tables s =
     (let s = s\<lparr>gpt_dev := dev, gpt_tables := default_tables\<rparr> in
      case bio_set_install_partition_cb dev (Some GPT_INSTALL_PARTITION_TABLE) s of (rc, s) \<Rightarrow>
      if rc \<noteq> PB_OK then Some (rc, s)
      else case gpt_load dev s of (rc, s) \<Rightarrow>
      if rc \<noteq> PB_OK then Some (rc, s)
      else do {
        (rc, s) \<leftarrow> gpt_repair dev s;
        if rc \<noteq> PB_OK then Some (rc, s) else gpt_register dev (pri_part s) s
      })"

subsection \<open>Static tables\<close>

record static_part_table =
  st_uu :: uuid_t
  st_description :: "u8 list"
  st_first_lba :: u32
  st_size :: u64

text \<open>
  The loop ends at the entry whose \<open>uu\<close> is \<open>NULL\<close>, which the list leaves out. The block size
  \<open>block_sz\<close> is a \<open>size_t\<close>; the remainder by zero is \<open>None\<close>.
\<close>

fun static_ptbl_from ::
  "int \<Rightarrow> u64 \<Rightarrow> u32 \<Rightarrow> static_part_table list \<Rightarrow> ('w, 'z) bio_scheme \<Rightarrow> (int \<times> ('w, 'z) bio_scheme) option" where
  "static_ptbl_from dev bsz next_start_lba [] s = Some (PB_OK, s)"
| "static_ptbl_from dev bsz next_start_lba (entry # rest) s =
     (let next_start_lba = (if st_first_lba entry \<noteq> 0 then st_first_lba entry else next_start_lba) in
      if bsz = 0 then None
      else if st_size entry mod bsz \<noteq> 0 then Some (err PB_ERR_ALIGN, s)
      else
        let last_lba = (ucast (ucast next_start_lba + st_size entry div bsz - 1) :: u32) in
        case bio_allocate_parent dev next_start_lba last_lba bsz (st_uu entry) (st_description entry) s of
          (new_dev, s) \<Rightarrow>
            if new_dev < 0 then Some (new_dev, s)
            else static_ptbl_from dev bsz (last_lba + 1) rest s)"

definition static_ptbl_init ::
  "int \<Rightarrow> static_part_table list option \<Rightarrow> ('w, 'z) bio_scheme \<Rightarrow> (int \<times> ('w, 'z) bio_scheme) option" where
  "static_ptbl_init dev table s =
     (case table of
        None \<Rightarrow> Some (err PB_ERR_PARAM, s)
      | Some t \<Rightarrow> static_ptbl_from dev (word_of_int (bio_block_size s dev)) 0 t s)"

end
