(* ===== verification/Gpt_Table.thy ===== *)
theory Gpt_Table
  imports Gpt
begin

text \<open>
  What \<open>gpt.c\<close> makes of a disk: the two copies of the table on the medium, their validity,
  the recovery of one copy from the other, and the partitions that an installed table leads
  to.
\<close>

subsection \<open>The structs\<close>

interpretation gpt_hd: codec enc_gpt_header dec_gpt_header 512 gpt_header_wf
proof
  fix bs :: "u8 list" assume "length bs = 512"
  then show "enc_gpt_header (dec_gpt_header bs) = bs"
    by (simp add: enc_gpt_header_def enc_gpt_header_head_def enc_gpt_header_tail_def dec_gpt_header_def window_1 window_glues)
qed (simp_all add: enc_gpt_header_def enc_gpt_header_head_def enc_gpt_header_tail_def dec_gpt_header_def gpt_header_wf_def
    window_simps nth_append)

interpretation gpt_pt: codec enc_gpt_part dec_gpt_part 128 gpt_part_wf
proof
  fix bs :: "u8 list" assume "length bs = 128"
  then show "enc_gpt_part (dec_gpt_part bs) = bs" by (simp add: enc_gpt_part_def dec_gpt_part_def window_1 window_glues)
qed (simp_all add: enc_gpt_part_def dec_gpt_part_def gpt_part_wf_def window_simps nth_append)

text \<open>A header and its 128 entries.\<close>

definition gpt_table_wf :: "gpt_header \<times> gpt_part_hdr list \<Rightarrow> bool" where
  "gpt_table_wf t \<longleftrightarrow> gpt_header_wf (fst t) \<and> length (snd t) = 128 \<and> list_all gpt_part_wf (snd t)"

interpretation gpt_pts: codec "enc_array enc_gpt_part" "dec_array dec_gpt_part 128 128" 16384
  "\<lambda>ps. length ps = 128 \<and> list_all gpt_part_wf ps"
  using gpt_pt.codec_array [of 128] by simp

interpretation gpt_pri: codec "\<lambda>(h, ps). enc_primary h ps" dec_primary 16896 gpt_table_wf
  by unfold_locales
    (auto simp: enc_primary_def dec_primary_def gpt_table_wf_def gpt_hd.length_enc gpt_pts.length_enc gpt_hd.dec_enc
      gpt_pts.dec_enc gpt_hd.wf_dec gpt_pts.wf_dec [THEN conjunct2] gpt_hd.enc_dec gpt_pts.enc_dec)

interpretation gpt_bak: codec "\<lambda>(h, ps). enc_backup h ps" dec_backup 16896 gpt_table_wf
  by unfold_locales
    (auto simp: enc_backup_def dec_backup_def gpt_table_wf_def gpt_hd.length_enc gpt_pts.length_enc gpt_hd.dec_enc
      gpt_pts.dec_enc gpt_hd.wf_dec gpt_pts.wf_dec [THEN conjunct2] gpt_hd.enc_dec gpt_pts.enc_dec)

subsection \<open>Validity\<close>

definition gpt_array_sum :: "gpt_part_hdr list \<Rightarrow> u32" where
  "gpt_array_sum ps = efi_crc32 (enc_array enc_gpt_part ps)"

definition gpt_header_sum :: "gpt_header \<Rightarrow> u32" where
  "gpt_header_sum h = efi_crc32 (take 92 (enc_gpt_header (h\<lparr>gh_hdr_crc := 0\<rparr>)))"

text \<open>A table with both checksums right; \<open>gpt_full\<close> is one with all 128 entries covered.\<close>

definition gpt_valid :: "gpt_header \<Rightarrow> gpt_part_hdr list \<Rightarrow> bool" where
  "gpt_valid h ps \<longleftrightarrow> gh_signature h = gpt_header_signature \<and> gh_hdr_crc h = gpt_header_sum h \<and>
     part_array_crc (gh_no_of_parts h) ps = Some (gh_part_array_crc h)"

definition gpt_full :: "gpt_header \<Rightarrow> bool" where
  "gpt_full h \<longleftrightarrow> gh_no_of_parts h = 128 \<and> gh_signature h = gpt_header_signature"

lemma part_array_crc_full:
  "length ps = 128 \<Longrightarrow> list_all gpt_part_wf ps \<Longrightarrow> part_array_crc 128 ps = Some (gpt_array_sum ps)"
  using gpt_pts.length_enc [of ps] by (simp add: part_array_crc_def gpt_array_sum_def)

lemma gpt_is_valid_eq:
  "gpt_is_valid h ps = Some r \<Longrightarrow> (fst r = PB_OK \<longleftrightarrow> gpt_valid h ps) \<and> (fst r = PB_OK \<longrightarrow> snd r = h)"
  by (auto simp: gpt_is_valid_def gpt_has_valid_header_def gpt_has_valid_part_array_def gpt_valid_def gpt_header_sum_def
      Let_def Option.bind_eq_Some_conv split: if_splits)

lemma gpt_valid_check:
  assumes "gpt_valid h ps"
  shows "gpt_is_valid h ps = Some (PB_OK, h)" "gpt_has_valid_header h = (PB_OK, h)"
    "gpt_has_valid_part_array h ps = Some PB_OK"
  using assms
  by (auto simp: gpt_is_valid_def gpt_has_valid_header_def gpt_has_valid_part_array_def gpt_valid_def gpt_header_sum_def
      Let_def)

lemma gpt_is_valid_full: "gh_no_of_parts h = 128 \<Longrightarrow> \<exists>r. gpt_is_valid h ps = Some r"
  by (auto simp: gpt_is_valid_def gpt_has_valid_header_def gpt_has_valid_part_array_def part_array_crc_def Let_def)

text \<open>The header with its checksums computed.\<close>

definition gpt_seal :: "gpt_part_hdr list \<Rightarrow> gpt_header \<Rightarrow> gpt_header" where
  "gpt_seal ps h = (let h = h\<lparr>gh_hdr_crc := 0, gh_part_array_crc := gpt_array_sum ps\<rparr> in h\<lparr>gh_hdr_crc := gpt_header_sum h\<rparr>)"

lemma gpt_seal_sel [simp]:
  "gh_no_of_parts (gpt_seal ps h) = gh_no_of_parts h" "gh_signature (gpt_seal ps h) = gh_signature h"
  "gh_current_lba (gpt_seal ps h) = gh_current_lba h" "gh_backup_lba (gpt_seal ps h) = gh_backup_lba h"
  "gh_entries_start_lba (gpt_seal ps h) = gh_entries_start_lba h" "gh_first_lba (gpt_seal ps h) = gh_first_lba h"
  "gh_last_lba (gpt_seal ps h) = gh_last_lba h" "gpt_full (gpt_seal ps h) = gpt_full h"
  "gpt_header_wf (gpt_seal ps h) = gpt_header_wf h"
  by (simp_all add: gpt_seal_def Let_def gpt_full_def gpt_header_wf_def)

lemma gpt_seal_valid:
  assumes "gpt_full h" and "length ps = 128" and "list_all gpt_part_wf ps"
  shows "gpt_valid (gpt_seal ps h) ps"
proof -
  have "gpt_header_sum (h\<lparr>gh_hdr_crc := c\<rparr>) = gpt_header_sum h" for c h by (simp add: gpt_header_sum_def)
  then show ?thesis
    using assms part_array_crc_full [OF assms(2,3)]
    by (simp add: gpt_valid_def gpt_seal_def Let_def gpt_full_def) (simp add: gpt_header_sum_def)
qed

subsection \<open>The disk\<close>

text \<open>
  A whole disk with 512 byte blocks that is large enough for both copies. Its last block
  number fits the \<open>int\<close> that \<open>bio_get_last_block\<close> returns.
\<close>

definition gpt_disk :: "('w \<Rightarrow> nat \<Rightarrow> u8) \<Rightarrow> ('w, 'z) bio_scheme \<Rightarrow> int \<Rightarrow> bool" where
  "gpt_disk content s dev \<longleftrightarrow> medium_dev content s dev \<and> block_sz (bio_dev s dev) = 512 \<and> first_lba (bio_dev s dev) = 0 \<and>
     66 \<le> unat (last_lba (bio_dev s dev)) \<and> unat (last_lba (bio_dev s dev)) < 2 ^ 31"

abbreviation disk_end :: "('w, 'z) bio_scheme \<Rightarrow> int \<Rightarrow> u32" where
  "disk_end s dev \<equiv> last_lba (bio_dev s dev)"

definition pri_bytes :: "('w \<Rightarrow> nat \<Rightarrow> u8) \<Rightarrow> ('w, 'z) bio_scheme \<Rightarrow> int \<Rightarrow> u8 list" where
  "pri_bytes content s dev = dev_content content s dev 1 16896"

definition bak_bytes :: "('w \<Rightarrow> nat \<Rightarrow> u8) \<Rightarrow> ('w, 'z) bio_scheme \<Rightarrow> int \<Rightarrow> u8 list" where
  "bak_bytes content s dev = dev_content content s dev (disk_end s dev - 32) 16896"

lemma gpt_disk_cong:
  assumes "geometry s = geometry t"
  shows "gpt_disk content s dev = gpt_disk content t dev"
    and "check_dev t dev = PB_OK \<Longrightarrow> disk_end s dev = disk_end t dev"
  using geometry_nth [OF assms, OF check_dev_range] medium_dev_cong [OF assms, of content dev]
  by (auto simp: gpt_disk_def medium_dev_def)

lemma ucast_lba: "unat (ucast (l :: u32) :: u64) = unat l"
  by (simp add: unat_ucast_up)

lemma u64_no_overflow: "unat (a :: u64) + unat b < 2 ^ 64 \<Longrightarrow> unat (a + b) = unat a + unat b"
  by (simp add: unat_plus_no_wrap)

lemma unat_minus_le: "(b :: 'a::len word) \<le> a \<Longrightarrow> unat (a - b) = unat a - unat b"
  by (rule unat_sub)

lemma backup_lba:
  assumes "66 \<le> unat (l :: u32)"
  shows "unat (l - 32) = unat l - 32"
  using assms by (subst unat_minus_le) (simp_all add: word_le_nat_alt)

lemma gpt_disk_range:
  assumes "gpt_disk content s dev"
  shows "check_dev s dev = PB_OK" "check_lba_range s dev 0 512 = PB_OK" "check_lba_range s dev 1 16896 = PB_OK"
    "check_lba_range s dev (disk_end s dev - 32) 16896 = PB_OK" "bio_block_size s dev = 512"
    "bio_get_last_block s dev = int (unat (disk_end s dev))"
proof -
  let ?l = "disk_end s dev"
  have d: "check_dev s dev = PB_OK" "block_sz (bio_dev s dev) = 512" "first_lba (bio_dev s dev) = 0"
      "66 \<le> unat ?l" "unat ?l < 2 ^ 31"
    using assms by (simp_all add: gpt_disk_def medium_dev_def)
  have le: "x \<le> ucast ?l" if "unat x \<le> unat ?l" for x :: u64
    using that by (simp add: word_le_nat_alt ucast_lba)
  have up: "unat (ucast (x :: u32) + 32 :: u64) = unat x + 32" if "unat x < 2 ^ 31" for x
    using that by (subst u64_no_overflow) (simp_all add: ucast_lba)
  show "check_dev s dev = PB_OK" by (rule d)
  show "check_lba_range s dev 0 512 = PB_OK" "check_lba_range s dev 1 16896 = PB_OK"
    using le [of 0] le [of 33] d(4) by (simp_all add: check_lba_range_def d(2,3) not_less)
  have "unat (ucast (?l - 32) + 32 :: u64) = unat ?l"
    using up [of "?l - 32"] backup_lba [OF d(4)] d(4,5) by simp
  then have "32 + ucast (?l - 32) \<le> (ucast ?l :: u64)" using le [of "32 + ucast (?l - 32)"] by (simp add: add.commute)
  then show "check_lba_range s dev (?l - 32) 16896 = PB_OK"
    by (simp add: check_lba_range_def d(2,3)) (simp add: Let_def not_less)
  show "bio_block_size s dev = 512" by (simp add: bio_block_size_def d)
  have "int (unat ?l) < int (2 ^ 31)" using d(5) by (simp only: of_nat_less_iff)
  then have "sint ?l = int (unat ?l)" 
    by (simp add: sint_uint signed_take_bit_int_eq_self order.trans [OF _ uint_ge_0])
  then show "bio_get_last_block s dev = int (unat ?l)" by (simp add: bio_get_last_block_def d(1))
qed

text \<open>The backup header that belongs to a primary header.\<close>

definition gpt_backup_of :: "u32 \<Rightarrow> gpt_header \<Rightarrow> gpt_header" where
  "gpt_backup_of l h = h\<lparr>gh_backup_lba := 1, gh_current_lba := ucast l, gh_entries_start_lba := ucast l - 32\<rparr>"

lemma gpt_backup_of_sel [simp]:
  "gpt_full (gpt_backup_of l h) = gpt_full h" "gpt_header_wf (gpt_backup_of l h) = gpt_header_wf h"
  by (simp_all add: gpt_backup_of_def gpt_full_def gpt_header_wf_def)

lemma word_of_lba: "word_of_int (int (unat (l :: u32))) = (ucast l :: u64)" "word_of_int (int (unat l)) = l"
  by (simp_all add: unsigned_ucast_eq word_uint_eqI)

lemma backup_start:
  assumes "66 \<le> unat (l :: u32)"
  shows "ucast (ucast l - 32 :: u64) = l - 32"
proof -
  have "unat (ucast l - 32 :: u64) = unat l - 32"
    using assms by (subst unat_minus_le) (simp_all add: word_le_nat_alt ucast_lba)
  moreover have "unat l - 32 < 2 ^ 32" using unsigned_less [of l, where 'a = nat] by simp
  ultimately show ?thesis
    using backup_lba [OF assms] by (simp add: word_unat_eq_iff unsigned_ucast_eq take_bit_nat_eq_self)
qed

lemma gpt_disk_write:
  fixes s t :: "('w, 'z) bio_scheme"
  assumes "gpt_disk content s dev" and "bio_pool t = bio_pool s" and "check_lba_range s dev lba n = PB_OK" and "length buf = unat n"
  shows "\<exists>w. bio_write dev lba n buf t = (PB_OK, t\<lparr>world := w\<rparr>) \<and> dev_content content (s\<lparr>world := w\<rparr>) dev lba (unat n) = buf \<and>
    (\<forall>i. i \<notin> access_bytes (bio_dev s dev) lba n \<longrightarrow> content w i = content (world t) i)"
proof -
  have m: "medium_dev content t dev" "check_lba_range t dev lba n = PB_OK" "check_dev s dev = PB_OK"
    using assms(1-3) medium_dev_cong [OF geometry_pool [OF assms(2)], of content dev] gpt_disk_range(1) [OF assms(1)]
    by (simp_all add: gpt_disk_def check_lba_range_def)
  obtain w where "bio_write dev lba n buf t = (PB_OK, t\<lparr>world := w\<rparr>)"
      "dev_content content (t\<lparr>world := w\<rparr>) dev lba (unat n) = buf"
      "\<And>i. i \<notin> access_bytes (bio_dev t dev) lba n \<Longrightarrow> content w i = content (world t) i"
    using bio_write_medium [OF m(1,2) assms(4)] by blast
  then show ?thesis using assms(2) by (auto simp: dev_content_def)
qed

text \<open>
  Writing a table: both copies reach the medium, both are valid, and they hold the entries of
  the table in memory.
\<close>

lemma gpt_write_tbl_medium:
  assumes disk: "gpt_disk content s dev" and wf: "gpt_table_wf (pri_hdr s, pri_part s)"
    and full: "gpt_full (pri_hdr s)" and cur: "gh_current_lba (pri_hdr s) = 1" and bak: "length (bak_part s) = 128"
  obtains w where
    "gpt_write_tbl dev s = Some (PB_OK, s\<lparr>pri_hdr := gpt_seal (pri_part s) (pri_hdr s),
       gpt_pmbr := pmbr_bytes (disk_end s dev),
       bak_hdr := gpt_seal (pri_part s) (gpt_backup_of (disk_end s dev) (gpt_seal (pri_part s) (pri_hdr s))),
       bak_part := pri_part s, world := w\<rparr>)"
    "dev_content content (s\<lparr>world := w\<rparr>) dev 1 16896 = enc_primary (gpt_seal (pri_part s) (pri_hdr s)) (pri_part s)"
    "dev_content content (s\<lparr>world := w\<rparr>) dev (disk_end s dev - 32) 16896 =
       enc_backup (gpt_seal (pri_part s) (gpt_backup_of (disk_end s dev) (gpt_seal (pri_part s) (pri_hdr s)))) (pri_part s)"
proof -
  let ?l = "disk_end s dev" and ?ps = "pri_part s"
  define h where "h = gpt_seal ?ps (pri_hdr s)"
  define b where "b = gpt_seal ?ps (gpt_backup_of ?l h)"
  note r = gpt_disk_range [OF disk]
  have l: "66 \<le> unat ?l" using disk by (simp add: gpt_disk_def)
  have ps: "length ?ps = 128" "list_all gpt_part_wf ?ps" using wf by (simp_all add: gpt_table_wf_def)
  have crc: "part_array_crc 128 ?ps = Some (gpt_array_sum ?ps)" by (rule part_array_crc_full [OF ps])
  have wfs: "gpt_table_wf (h, ?ps)" "gpt_table_wf (b, ?ps)" using wf by (simp_all add: gpt_table_wf_def h_def b_def)
  have pm: "length (pmbr_bytes ?l) = 512" by (simp add: pmbr_bytes_def)
  let ?s1 = "s\<lparr>pri_hdr := h, gpt_pmbr := pmbr_bytes ?l\<rparr>"
  have e: "length (enc_primary h ?ps) = unat (16896 :: u64)" "length (enc_backup b ?ps) = unat (16896 :: u64)"
    using gpt_pri.length_enc [OF wfs(1)] gpt_bak.length_enc [OF wfs(2)] by simp_all
  obtain w1 where 1: "bio_write dev 0 512 (pmbr_bytes ?l) ?s1 = (PB_OK, ?s1\<lparr>world := w1\<rparr>)"
    using gpt_disk_write [OF disk _ r(2), of ?s1 "pmbr_bytes ?l"] pm by auto
  obtain w2 where 2: "bio_write dev 1 16896 (enc_primary h ?ps) (?s1\<lparr>world := w1\<rparr>) = (PB_OK, ?s1\<lparr>world := w2\<rparr>)"
    "dev_content content (s\<lparr>world := w2\<rparr>) dev 1 16896 = enc_primary h ?ps"
    using gpt_disk_write [OF disk _ r(3) e(1), of "?s1\<lparr>world := w1\<rparr>"] by auto
  let ?s3 = "?s1\<lparr>world := w2, bak_hdr := b, bak_part := ?ps\<rparr>"
  obtain w3 where 3: "bio_write dev (?l - 32) 16896 (enc_backup b ?ps) ?s3 = (PB_OK, ?s3\<lparr>world := w3\<rparr>)"
    "dev_content content (s\<lparr>world := w3\<rparr>) dev (?l - 32) 16896 = enc_backup b ?ps"
    "\<And>i. i \<notin> access_bytes (bio_dev s dev) (?l - 32) 16896 \<Longrightarrow> content w3 i = content w2 i"
    using gpt_disk_write [OF disk _ r(4) e(2), of ?s3] by auto
  have d: "block_sz (bio_dev s dev) = 512" "first_lba (bio_dev s dev) = 0" using disk by (simp_all add: gpt_disk_def)
  have "content w3 (512 + x) = content w2 (512 + x)" if "x < 16896" for x
    using that backup_lba [OF l] l by (intro 3(3)) (simp add: access_bytes_def d, arith)
  then have "dev_content content (s\<lparr>world := w3\<rparr>) dev 1 16896 = dev_content content (s\<lparr>world := w2\<rparr>) dev 1 16896"
    by (simp add: dev_content_def d)
  then have c: "dev_content content (s\<lparr>world := w3\<rparr>) dev 1 16896 = enc_primary h ?ps" using 2(2) by simp
  have last: "bio_get_last_block t dev = int (unat ?l)" "bio_block_size t dev = 512" if "bio_pool t = bio_pool s" for t :: "('a, 'b) gpt_scheme"
    using r(1,5,6) that check_dev_cong [OF geometry_pool [OF that], of dev]
    by (simp_all add: bio_get_last_block_def bio_block_size_def)
  have comm: "x\<lparr>gh_part_array_crc := c, gh_hdr_crc := d\<rparr> = x\<lparr>gh_hdr_crc := d, gh_part_array_crc := c\<rparr>" for x c d
    by (cases x) simp
  have h: "pri_hdr s\<lparr>gh_part_array_crc := gpt_array_sum ?ps, gh_hdr_crc := efi_crc32 (take 92 (enc_gpt_header
      (pri_hdr s\<lparr>gh_hdr_crc := 0, gh_part_array_crc := gpt_array_sum ?ps\<rparr>)))\<rparr> = h"
    by (simp add: h_def gpt_seal_def Let_def gpt_header_sum_def comm)
  have b: "h\<lparr>gh_backup_lba := 1, gh_current_lba := ucast ?l, gh_entries_start_lba := ucast ?l - 32,
      gh_part_array_crc := gpt_array_sum ?ps, gh_hdr_crc := efi_crc32 (take 92 (enc_gpt_header
      (h\<lparr>gh_backup_lba := 1, gh_current_lba := ucast ?l, gh_entries_start_lba := ucast ?l - 32, gh_hdr_crc := 0,
         gh_part_array_crc := gpt_array_sum ?ps\<rparr>)))\<rparr> = b"
    by (simp add: b_def gpt_seal_def gpt_backup_of_def Let_def gpt_header_sum_def comm)
  have sel: "gh_no_of_parts h = 128" "gh_current_lba h = 1" "gh_entries_start_lba b = ucast ?l - 32"
    using full cur by (simp_all add: h_def b_def gpt_full_def gpt_backup_of_def)
  have "gpt_write_tbl dev s = Some (PB_OK, ?s3\<lparr>world := w3\<rparr>)"
    using 1 2(1) 3(1) full crc bak ps(1) backup_start [OF l]
    by (simp add: gpt_write_tbl_def last word_of_lba gpt_full_def Let_def h b sel)
  then show thesis using that 3(2) c by (simp add: h_def b_def)
qed

subsection \<open>Start-up\<close>

lemma geometry_install_cb:
  assumes "bio_set_install_partition_cb dev cb s = (rc, s')"
  shows "geometry s' = geometry s \<and> world s' = world s"
proof -
  have "geometry (upd_dev dev (\<lambda>d. d\<lparr>install_partition_table := cb\<rparr>) s) = geometry s"
    by (cases "nat dev < length (bio_pool s)")
       (simp_all add: geometry_def upd_dev_def map_update list_update_same_conv list_update_beyond)
  then show ?thesis using assms by (auto simp: bio_set_install_partition_cb_def split: if_splits)
qed

text \<open>The two copies on the medium.\<close>

abbreviation pri_copy :: "('w \<Rightarrow> nat \<Rightarrow> u8) \<Rightarrow> ('w, 'z) bio_scheme \<Rightarrow> int \<Rightarrow> gpt_header \<times> gpt_part_hdr list" where
  "pri_copy content s dev \<equiv> dec_primary (pri_bytes content s dev)"

abbreviation bak_copy :: "('w \<Rightarrow> nat \<Rightarrow> u8) \<Rightarrow> ('w, 'z) bio_scheme \<Rightarrow> int \<Rightarrow> gpt_header \<times> gpt_part_hdr list" where
  "bak_copy content s dev \<equiv> dec_backup (bak_bytes content s dev)"

lemma copies_cong:
  assumes "geometry s = geometry t" and "content (world s) = content (world t)" and "check_dev t dev = PB_OK"
  shows "pri_bytes content s dev = pri_bytes content t dev" "bak_bytes content s dev = bak_bytes content t dev"
  using geometry_nth(1-3) [OF assms(1) check_dev_range [OF assms(3)]] assms(2)
  by (simp_all add: pri_bytes_def bak_bytes_def dev_content_def)

lemma copies_wf: "gpt_table_wf (pri_copy content s dev)" "gpt_table_wf (bak_copy content s dev)"
  by (auto simp: pri_bytes_def bak_bytes_def intro: gpt_pri.wf_dec gpt_bak.wf_dec)

lemma gpt_load_medium:
  assumes disk: "gpt_disk content s dev" and wf: "gpt_table_wf (pri_hdr s, pri_part s)" "gpt_table_wf (bak_hdr s, bak_part s)"
  obtains w where "gpt_load dev s = (PB_OK, s\<lparr>pri_hdr := fst (pri_copy content s dev), pri_part := snd (pri_copy content s dev),
      bak_hdr := fst (bak_copy content s dev), bak_part := snd (bak_copy content s dev), world := w\<rparr>)"
    "content w = content (world s)"
proof -
  note r = gpt_disk_range [OF disk]
  have l: "66 \<le> unat (disk_end s dev)" and m: "medium_dev content s dev" using disk by (simp_all add: gpt_disk_def)
  obtain w1 where 1: "bio_read dev 1 16896 s = (PB_OK, pri_bytes content s dev, s\<lparr>world := w1\<rparr>)" "content w1 = content (world s)"
    using bio_read_medium [OF m r(3)] by (auto simp: pri_bytes_def)
  let ?s1 = "s\<lparr>world := w1, pri_hdr := fst (pri_copy content s dev), pri_part := snd (pri_copy content s dev)\<rparr>"
  have "medium_dev content ?s1 dev" using m medium_dev_cong [OF geometry_pool, of ?s1 s] by simp
  moreover have "check_lba_range ?s1 dev (disk_end s dev - 32) 16896 = PB_OK" using r(4) by (simp add: check_lba_range_def)
  moreover have "dev_content content ?s1 dev (disk_end s dev - 32) 16896 = bak_bytes content s dev"
    using 1(2) by (simp add: bak_bytes_def dev_content_def)
  ultimately obtain w2 where 2: "bio_read dev (disk_end s dev - 32) 16896 ?s1 = (PB_OK, bak_bytes content s dev, ?s1\<lparr>world := w2\<rparr>)"
      "content w2 = content (world s)"
    using bio_read_medium [of content ?s1 dev "disk_end s dev - 32" 16896] 1(2) by auto
  have last: "bio_get_last_block ?s1 dev = int (unat (disk_end s dev))"
    using r(1,6) check_dev_cong [OF geometry_pool, of ?s1 s dev] by (simp add: bio_get_last_block_def)
  have len: "length (enc_primary (pri_hdr s) (pri_part s)) = 16896" "length (enc_backup (bak_hdr s) (bak_part s)) = 16896"
      "length (pri_bytes content s dev) = 16896" "length (bak_bytes content s dev) = 16896"
    using gpt_pri.length_enc [OF wf(1)] gpt_bak.length_enc [OF wf(2)] by (simp_all add: pri_bytes_def bak_bytes_def)
  have "gpt_load dev s = (PB_OK, s\<lparr>pri_hdr := fst (pri_copy content s dev), pri_part := snd (pri_copy content s dev),
      bak_hdr := fst (bak_copy content s dev), bak_part := snd (bak_copy content s dev), world := w2\<rparr>)"
    using 1 2(1) len last backup_start [OF l]
    by (simp add: gpt_load_def word_of_lba Let_def case_prod_beta)
  then show thesis using that 2(2) by blast
qed

text \<open>The tables in memory are the copies on the medium, and both are valid.\<close>

definition gpt_synced :: "('w \<Rightarrow> nat \<Rightarrow> u8) \<Rightarrow> ('w, 'z) gpt_scheme \<Rightarrow> int \<Rightarrow> bool" where
  "gpt_synced content s dev \<longleftrightarrow> pri_copy content s dev = (pri_hdr s, pri_part s) \<and> bak_copy content s dev = (bak_hdr s, bak_part s)"

definition gpt_healthy :: "('w \<Rightarrow> nat \<Rightarrow> u8) \<Rightarrow> ('w, 'z) gpt_scheme \<Rightarrow> int \<Rightarrow> bool" where
  "gpt_healthy content s dev \<longleftrightarrow> gpt_synced content s dev \<and> gpt_valid (pri_hdr s) (pri_part s) \<and> gpt_valid (bak_hdr s) (bak_part s)"

lemma gpt_write_tbl_healthy:
  assumes "gpt_disk content s dev" and "gpt_table_wf (pri_hdr s, pri_part s)"
    and "gpt_full (pri_hdr s)" and "gh_current_lba (pri_hdr s) = 1" and "length (bak_part s) = 128"
  obtains s' where "gpt_write_tbl dev s = Some (PB_OK, s')" "gpt_healthy content s' dev" "pri_part s' = pri_part s"
    "bak_part s' = pri_part s" "bio_pool s' = bio_pool s" "n_bios s' = n_bios s" "gpt_full (pri_hdr s')" "gpt_full (bak_hdr s')"
    "gh_current_lba (pri_hdr s') = 1"
proof -
  let ?ps = "pri_part s" and ?h = "gpt_seal (pri_part s) (pri_hdr s)"
  let ?b = "gpt_seal ?ps (gpt_backup_of (disk_end s dev) ?h)"
  obtain w where w: "gpt_write_tbl dev s = Some (PB_OK, s\<lparr>pri_hdr := ?h, gpt_pmbr := pmbr_bytes (disk_end s dev),
       bak_hdr := ?b, bak_part := ?ps, world := w\<rparr>)" (is "_ = Some (_, ?s')")
    "dev_content content (s\<lparr>world := w\<rparr>) dev 1 16896 = enc_primary ?h ?ps"
    "dev_content content (s\<lparr>world := w\<rparr>) dev (disk_end s dev - 32) 16896 = enc_backup ?b ?ps"
    using gpt_write_tbl_medium [OF assms] by blast
  have ps: "length ?ps = 128" "list_all gpt_part_wf ?ps" "gpt_header_wf (pri_hdr s)" using assms(2) by (simp_all add: gpt_table_wf_def)
  have "pri_bytes content ?s' dev = enc_primary ?h ?ps" "bak_bytes content ?s' dev = enc_backup ?b ?ps"
    using w(2,3) by (simp_all add: pri_bytes_def bak_bytes_def dev_content_def)
  moreover have "gpt_table_wf (?h, ?ps)" "gpt_table_wf (?b, ?ps)" using ps by (simp_all add: gpt_table_wf_def)
  ultimately have "gpt_synced content ?s' dev"
    using gpt_pri.dec_enc [of "(?h, ?ps)"] gpt_bak.dec_enc [of "(?b, ?ps)"] by (simp add: gpt_synced_def)
  then have "gpt_healthy content ?s' dev"
    using gpt_seal_valid [OF _ ps(1,2)] assms(3) by (simp add: gpt_healthy_def)
  then show thesis using that w(1) assms(3,4) by simp
qed

lemma gpt_recover_primary_healthy:
  assumes disk: "gpt_disk content s dev" and wf: "gpt_table_wf (bak_hdr s, bak_part s)" "length (pri_part s) = 128"
    and valid: "gpt_valid (bak_hdr s) (bak_part s)" "gpt_full (bak_hdr s)"
  obtains s' where "gpt_recover_primary dev s = Some (PB_OK, s')" "gpt_healthy content s' dev" "pri_part s' = bak_part s"
    "bak_part s' = bak_part s" "bio_pool s' = bio_pool s" "n_bios s' = n_bios s"
proof -
  let ?h = "(bak_hdr s)\<lparr>gh_backup_lba := word_of_int (bio_get_last_block s dev), gh_current_lba := 1, gh_entries_start_lba := 2\<rparr>"
  let ?s = "s\<lparr>pri_hdr := ?h, pri_part := bak_part s\<rparr>"
  have l: "length (bak_part s) = 128" using wf(1) by (simp add: gpt_table_wf_def)
  have "gpt_disk content ?s dev" using disk gpt_disk_cong(1) [OF geometry_pool, of ?s s] by simp
  moreover have "gpt_table_wf (pri_hdr ?s, pri_part ?s)" using wf(1) by (simp add: gpt_table_wf_def gpt_header_wf_def)
  moreover have "gpt_full (pri_hdr ?s)" using valid(2) by (simp add: gpt_full_def)
  ultimately obtain s' where "gpt_write_tbl dev ?s = Some (PB_OK, s')" "gpt_healthy content s' dev" "pri_part s' = bak_part s"
      "bak_part s' = bak_part s" "bio_pool s' = bio_pool s" "n_bios s' = n_bios s"
    using gpt_write_tbl_healthy [of content ?s dev] l by auto
  moreover have "gh_no_of_parts (bak_hdr s) = 128" using valid(2) by (simp add: gpt_full_def)
  ultimately show thesis
    using that [of s'] gpt_valid_check(2,3) [OF valid(1)] l wf(2) by (simp add: gpt_recover_primary_def Let_def)
qed

lemma gpt_recover_backup_healthy:
  assumes disk: "gpt_disk content s dev" and wf: "gpt_table_wf (pri_hdr s, pri_part s)" "length (bak_part s) = 128"
    and valid: "gpt_valid (pri_hdr s) (pri_part s)" "gpt_full (pri_hdr s)" "gh_current_lba (pri_hdr s) = 1"
  obtains s' where "gpt_recover_backup dev s = Some (PB_OK, s')" "gpt_healthy content s' dev" "pri_part s' = pri_part s"
    "bak_part s' = pri_part s" "bio_pool s' = bio_pool s" "n_bios s' = n_bios s"
proof -
  let ?l = "word_of_int (bio_get_last_block s dev) :: u64"
  let ?h = "(pri_hdr s)\<lparr>gh_backup_lba := 1, gh_current_lba := ?l, gh_entries_start_lba := ?l - 32\<rparr>"
  let ?s = "s\<lparr>bak_hdr := ?h, bak_part := pri_part s\<rparr>"
  have l: "length (pri_part s) = 128" using wf(1) by (simp add: gpt_table_wf_def)
  have "gpt_disk content ?s dev" using disk gpt_disk_cong(1) [OF geometry_pool, of ?s s] by simp
  then obtain s' where "gpt_write_tbl dev ?s = Some (PB_OK, s')" "gpt_healthy content s' dev" "pri_part s' = pri_part s"
      "bak_part s' = pri_part s" "bio_pool s' = bio_pool s" "n_bios s' = n_bios s"
    using gpt_write_tbl_healthy [of content ?s dev] l wf(1) valid(2,3) by auto
  moreover have "gh_no_of_parts (pri_hdr s) = 128" using valid(2) by (simp add: gpt_full_def)
  ultimately show thesis
    using that [of s'] gpt_valid_check(2,3) [OF valid(1)] l wf(2) by (simp add: gpt_recover_backup_def Let_def)
qed

text \<open>A copy that start-up can check, and that covers its entries if it is valid.\<close>

definition gpt_checkable :: "gpt_header \<times> gpt_part_hdr list \<Rightarrow> bool" where
  "gpt_checkable t \<longleftrightarrow> gpt_is_valid (fst t) (snd t) \<noteq> None \<and> (gpt_valid (fst t) (snd t) \<longrightarrow> gpt_full (fst t))"

lemma gpt_repair_healthy:
  assumes disk: "gpt_disk content s dev" and sync: "gpt_synced content s dev"
    and chk: "gpt_checkable (pri_hdr s, pri_part s)" "gpt_checkable (bak_hdr s, bak_part s)"
    and cur: "gpt_valid (pri_hdr s) (pri_part s) \<Longrightarrow> gh_current_lba (pri_hdr s) = 1"
    and one: "gpt_valid (pri_hdr s) (pri_part s) \<or> gpt_valid (bak_hdr s) (bak_part s)"
  obtains s' where "gpt_repair dev s = Some (PB_OK, s')" "gpt_healthy content s' dev"
    "pri_part s' = (if gpt_valid (pri_hdr s) (pri_part s) then pri_part s else bak_part s)"
    "bio_pool s' = bio_pool s" "n_bios s' = n_bios s"
    "gpt_healthy content s dev \<Longrightarrow> s' = s" "\<not> gpt_healthy content s dev \<Longrightarrow> bak_part s' = pri_part s'"
proof -
  have wf: "gpt_table_wf (pri_hdr s, pri_part s)" "gpt_table_wf (bak_hdr s, bak_part s)"
    using sync copies_wf [of content s dev] by (simp_all add: gpt_synced_def)
  have len: "length (pri_part s) = 128" "length (bak_part s) = 128" using wf by (simp_all add: gpt_table_wf_def)
  obtain rc1 h1 where 1: "gpt_is_valid (pri_hdr s) (pri_part s) = Some (rc1, h1)"
      "rc1 = PB_OK \<longleftrightarrow> gpt_valid (pri_hdr s) (pri_part s)" "rc1 = PB_OK \<longrightarrow> h1 = pri_hdr s"
    using chk(1) gpt_is_valid_eq [of "pri_hdr s" "pri_part s"] by (auto simp: gpt_checkable_def)
  obtain rc2 h2 where 2: "gpt_is_valid (bak_hdr s) (bak_part s) = Some (rc2, h2)"
      "rc2 = PB_OK \<longleftrightarrow> gpt_valid (bak_hdr s) (bak_part s)" "rc2 = PB_OK \<longrightarrow> h2 = bak_hdr s"
    using chk(2) gpt_is_valid_eq [of "bak_hdr s" "bak_part s"] by (auto simp: gpt_checkable_def)
  consider (both) "rc1 = PB_OK" "rc2 = PB_OK" | (pri) "rc1 = PB_OK" "rc2 \<noteq> PB_OK" | (bak) "rc1 \<noteq> PB_OK" "rc2 = PB_OK"
    using one 1(2) 2(2) by blast
  then show thesis
  proof cases
    case both
    then have "gpt_healthy content s dev" using 1 2 sync by (simp add: gpt_healthy_def)
    then show thesis using that [of s] both 1 2 by (simp add: gpt_repair_def)
  next
    case pri
    let ?s = "s\<lparr>bak_hdr := h2\<rparr>"
    have d: "gpt_disk content ?s dev" using disk gpt_disk_cong(1) [OF geometry_pool, of ?s s] by simp
    have v: "gpt_valid (pri_hdr s) (pri_part s)" "gpt_full (pri_hdr s)" "gh_current_lba (pri_hdr s) = 1"
      using pri 1 chk(1) cur by (simp_all add: gpt_checkable_def)
    obtain s' where "gpt_recover_backup dev ?s = Some (PB_OK, s')" "gpt_healthy content s' dev" "pri_part s' = pri_part s"
        "bak_part s' = pri_part s" "bio_pool s' = bio_pool s" "n_bios s' = n_bios s"
      using gpt_recover_backup_healthy [OF d] wf(1) len(2) v by auto
    then show thesis using that [of s'] pri 1 2 v by (simp add: gpt_repair_def gpt_healthy_def)
  next
    case bak
    let ?s = "s\<lparr>pri_hdr := h1\<rparr>"
    have d: "gpt_disk content ?s dev" using disk gpt_disk_cong(1) [OF geometry_pool, of ?s s] by simp
    have v: "gpt_valid (bak_hdr s) (bak_part s)" "gpt_full (bak_hdr s)" using bak 2 chk(2) by (simp_all add: gpt_checkable_def)
    obtain s' where s': "gpt_recover_primary dev ?s = Some (PB_OK, s')" "gpt_healthy content s' dev" "pri_part s' = bak_part s"
        "bak_part s' = bak_part s" "bio_pool s' = bio_pool s" "n_bios s' = n_bios s"
      using gpt_recover_primary_healthy [OF d] wf(2) len(1) v by auto
    have "gpt_is_valid (bak_hdr s') (bak_part s') = Some (PB_OK, bak_hdr s')"
      using s'(2) gpt_valid_check(1) by (simp add: gpt_healthy_def)
    then show thesis using that [of s'] bak 1 2 s' by (simp add: gpt_repair_def gpt_healthy_def)
  qed
qed

lemma gpt_start:
  assumes "pri_copy content s dev = (ph, pp)" and "bak_copy content s dev = (bh, bp)"
    and "gpt_disk content s dev" and "gpt_table_wf (pri_hdr s, pri_part s)" and "gpt_table_wf (bak_hdr s, bak_part s)"
    and "gpt_checkable (ph, pp)" and "gpt_checkable (bh, bp)" and "gpt_valid ph pp \<longrightarrow> gh_current_lba ph = 1"
    and "gpt_valid ph pp \<or> gpt_valid bh bp"
  obtains s' where "gpt_ptbl_init dev tables s = gpt_register dev (pri_part s') s'" "gpt_healthy content s' dev"
    "pri_part s' = (if gpt_valid ph pp then pp else bp)"
    "if gpt_valid ph pp \<and> gpt_valid bh bp then content (world s') = content (world s) else bak_part s' = pri_part s'"
    "geometry s' = geometry s" "n_bios s' = n_bios s"
proof -
  let ?s0 = "s\<lparr>gpt_dev := dev, gpt_tables := tables\<rparr>"
  obtain s1 where 1: "bio_set_install_partition_cb dev (Some GPT_INSTALL_PARTITION_TABLE) ?s0 = (PB_OK, s1)"
    using gpt_disk_range(1) [OF assms(3)] check_dev_cong [OF geometry_pool, of ?s0 s dev]
    by (simp add: bio_set_install_partition_cb_def)
  have g1: "geometry s1 = geometry s" "world s1 = world s"
    using geometry_install_cb [OF 1] geometry_pool [of ?s0 s] by simp_all
  have f1: "pri_hdr s1 = pri_hdr s" "pri_part s1 = pri_part s" "bak_hdr s1 = bak_hdr s" "bak_part s1 = bak_part s" "n_bios s1 = n_bios s"
    using 1 by (auto simp: bio_set_install_partition_cb_def upd_dev_def split: if_splits)
  note chk = gpt_disk_range(1) [OF assms(3)]
  have d1: "gpt_disk content s1 dev" using gpt_disk_cong(1) [OF g1(1)] assms(3) by simp
  have c1: "pri_bytes content s1 dev = pri_bytes content s dev" "bak_bytes content s1 dev = bak_bytes content s dev"
    using copies_cong [of s1 s content dev] g1 chk by simp_all
  let ?s2 = "\<lambda>w. s1\<lparr>pri_hdr := ph, pri_part := pp, bak_hdr := bh, bak_part := bp, world := w\<rparr>"
  have wf1: "gpt_table_wf (pri_hdr s1, pri_part s1)" "gpt_table_wf (bak_hdr s1, bak_part s1)" using assms(4,5) f1 by simp_all
  obtain w where w: "gpt_load dev s1 = (PB_OK, ?s2 w)" "content w = content (world s)"
    by (rule gpt_load_medium [OF d1 wf1]) (simp only: c1 assms(1,2) g1(2) fst_conv snd_conv)
  have g2: "geometry (?s2 w) = geometry s" using g1(1) geometry_pool [of "?s2 w" s1] by simp
  have c2: "pri_bytes content (?s2 w) dev = pri_bytes content s dev" "bak_bytes content (?s2 w) dev = bak_bytes content s dev"
    using copies_cong [of "?s2 w" s content dev] g2 w(2) chk by simp_all
  have d2: "gpt_disk content (?s2 w) dev" using gpt_disk_cong(1) [OF g2] assms(3) by simp
  have sync: "gpt_synced content (?s2 w) dev" unfolding gpt_synced_def c2 by (simp add: assms(1,2))
  have prem: "gpt_checkable (pri_hdr (?s2 w), pri_part (?s2 w))" "gpt_checkable (bak_hdr (?s2 w), bak_part (?s2 w))"
      "gpt_valid (pri_hdr (?s2 w)) (pri_part (?s2 w)) \<Longrightarrow> gh_current_lba (pri_hdr (?s2 w)) = 1"
      "gpt_valid (pri_hdr (?s2 w)) (pri_part (?s2 w)) \<or> gpt_valid (bak_hdr (?s2 w)) (bak_part (?s2 w))"
    using assms(6-9) by simp_all
  obtain s' where s': "gpt_repair dev (?s2 w) = Some (PB_OK, s')" "gpt_healthy content s' dev"
    "pri_part s' = (if gpt_valid ph pp then pp else bp)" "bio_pool s' = bio_pool (?s2 w)" "n_bios s' = n_bios (?s2 w)"
    "gpt_healthy content (?s2 w) dev \<Longrightarrow> s' = ?s2 w" "\<not> gpt_healthy content (?s2 w) dev \<Longrightarrow> bak_part s' = pri_part s'"
    by (rule gpt_repair_healthy [OF d2 sync prem]) simp_all
  have "gpt_healthy content (?s2 w) dev \<longleftrightarrow> gpt_valid ph pp \<and> gpt_valid bh bp"
    using sync by (simp add: gpt_healthy_def)
  then have changed: "if gpt_valid ph pp \<and> gpt_valid bh bp then content (world s') = content (world s)
      else bak_part s' = pri_part s'" using s'(6,7) w(2) by auto
  have "gpt_ptbl_init dev tables s = gpt_register dev (pri_part s') s'"
    using 1 w(1) s'(1) by (simp add: gpt_ptbl_init_def)
  moreover have "geometry s' = geometry s" using geometry_pool [OF s'(4)] g2 by simp
  moreover have "n_bios s' = n_bios s" using s'(5) f1(5) by simp
  ultimately show thesis using that s'(2,3) changed by blast
qed

text \<open>
  C14: The partition table survives the loss of either copy. If at least one of the two copies
  on the medium has the right checksums when the boot loader starts, then start-up takes the
  entries of the primary copy, or those of the backup copy if the primary one is damaged; a
  damaged copy is rewritten, and afterwards the medium holds two valid copies with these
  entries. Nothing is written if both copies are valid.
\<close>

theorem gpt_start_recovers:
  assumes "pri_copy content s dev = (ph, pp)" and "bak_copy content s dev = (bh, bp)"
    and "gpt_disk content s dev" and "gpt_table_wf (pri_hdr s, pri_part s)" and "gpt_table_wf (bak_hdr s, bak_part s)"
    and "gpt_checkable (ph, pp)" and "gpt_checkable (bh, bp)" and "gpt_valid ph pp \<longrightarrow> gh_current_lba ph = 1"
    and "gpt_valid ph pp \<or> gpt_valid bh bp"
  shows "\<exists>s'. gpt_ptbl_init dev tables s = gpt_register dev (pri_part s') s' \<and>
    pri_part s' = (if gpt_valid ph pp then pp else bp) \<and>
    gpt_valid (pri_hdr s') (pri_part s') \<and> pri_copy content s' dev = (pri_hdr s', pri_part s') \<and>
    gpt_valid (bak_hdr s') (bak_part s') \<and> bak_copy content s' dev = (bak_hdr s', bak_part s') \<and>
    (if gpt_valid ph pp \<and> gpt_valid bh bp then content (world s') = content (world s)
     else bak_part s' = pri_part s') \<and>
    geometry s' = geometry s \<and> n_bios s' = n_bios s"
proof -
  obtain s' where "gpt_ptbl_init dev tables s = gpt_register dev (pri_part s') s'" "gpt_healthy content s' dev"
      "pri_part s' = (if gpt_valid ph pp then pp else bp)"
      "if gpt_valid ph pp \<and> gpt_valid bh bp then content (world s') = content (world s) else bak_part s' = pri_part s'"
      "geometry s' = geometry s" "n_bios s' = n_bios s"
    using gpt_start [OF assms] .
  then show ?thesis unfolding gpt_healthy_def gpt_synced_def by blast
qed

subsection \<open>Registering the partitions\<close>

text \<open>The block device of a partition on the disk \<open>d\<close>.\<close>

definition gpt_child :: "'w bio_device \<Rightarrow> gpt_part_hdr \<Rightarrow> 'w bio_device" where
  "gpt_child d p = bio_device_zero\<lparr>first_lba := ucast (gp_first_lba p), last_lba := ucast (gp_last_lba p), block_sz := 512,
     dev_uu := uuid_copy (uuid_to_guid (gp_uuid p)), description := strncpy (c_str (gpt_part_name p)) 36 @ [0], valid := True,
     flags := flags d, dev_read := dev_read d, dev_write := dev_write d, dev_erase := dev_erase d, dev_private := dev_private d\<rparr>"

lemma gpt_child_sel [simp]:
  "first_lba (gpt_child d p) = ucast (gp_first_lba p)" "last_lba (gpt_child d p) = ucast (gp_last_lba p)"
  "dev_uu (gpt_child d p) = uuid_to_guid (gp_uuid p)" "block_sz (gpt_child d p) = 512"
  "dev_read (gpt_child d p) = dev_read d" "dev_write (gpt_child d p) = dev_write d"
  by (simp_all add: gpt_child_def uuid_copy_def uuid_to_guid_def)

text \<open>One partition: it gets the next free entry of the pool.\<close>

lemma allocate_partition:
  assumes inv: "bio_inv s" and dev: "check_dev s dev = PB_OK" and room: "n_bios s < length (bio_pool s)"
    and p: "ucast (gp_first_lba p) \<le> (ucast (gp_last_lba p) :: u32)" and bs: "bio_block_size s dev = 512"
  obtains s' where
    "bio_allocate_parent dev (ucast (gp_first_lba p)) (ucast (gp_last_lba p)) (word_of_int (bio_block_size s dev))
       (uuid_to_guid (gp_uuid p)) (c_str (gpt_part_name p)) s = (int (n_bios s), s')"
    "s' = s\<lparr>bio_pool := (bio_pool s)[n_bios s := gpt_child (bio_dev s dev) p], n_bios := n_bios s + 1\<rparr>" "bio_inv s'"
proof -
  have n: "nat dev < n_bios s" "0 \<le> dev" using dev check_dev_iff [OF inv] by simp_all
  let ?a = "bio_allocate_parent dev (ucast (gp_first_lba p)) (ucast (gp_last_lba p)) (word_of_int (bio_block_size s dev))
       (uuid_to_guid (gp_uuid p)) (c_str (gpt_part_name p)) s"
  have "?a = (int (n_bios s), s\<lparr>bio_pool := (bio_pool s)[n_bios s := gpt_child (bio_dev s dev) p], n_bios := n_bios s + 1\<rparr>)"
    using dev room p bs n
    by (simp add: bio_allocate_parent_def bio_allocate_def upd_dev_def gpt_child_def Let_def not_less)
  moreover have "bio_inv (snd ?a)" by (rule bio_inv_allocate_parent [OF inv]) simp
  ultimately show thesis using that by simp
qed

lemma gpt_register_partitions:
  assumes "bio_inv s" and "check_dev s dev = PB_OK" and "bio_block_size s dev = 512"
    and "n_bios s + length ps \<le> length (bio_pool s)"
    and "\<forall>p\<in>set ps. gp_first_lba p \<noteq> 0 \<and> ucast (gp_first_lba p) \<le> (ucast (gp_last_lba p) :: u32)"
    and "gp_first_lba q = 0"
  shows "\<exists>s'. gpt_register dev (ps @ q # qs) s = Some (PB_OK, s') \<and> bio_inv s' \<and> n_bios s' = n_bios s + length ps \<and>
    registered s' = registered s @ map (gpt_child (bio_dev s dev)) ps \<and> world s' = world s"
  using assms
proof (induction ps arbitrary: s)
  case Nil
  then show ?case by simp
next
  case (Cons p ps)
  have n: "nat dev < n_bios s" "0 \<le> dev" using Cons.prems(2) check_dev_iff [OF Cons.prems(1)] by simp_all
  obtain s1 where 1: "bio_allocate_parent dev (ucast (gp_first_lba p)) (ucast (gp_last_lba p)) (word_of_int (bio_block_size s dev))
       (uuid_to_guid (gp_uuid p)) (c_str (gpt_part_name p)) s = (int (n_bios s), s1)"
    "s1 = s\<lparr>bio_pool := (bio_pool s)[n_bios s := gpt_child (bio_dev s dev) p], n_bios := n_bios s + 1\<rparr>" "bio_inv s1"
    using allocate_partition [OF Cons.prems(1,2), of p] Cons.prems(3-5) by auto
  have d: "bio_dev s1 dev = bio_dev s dev" using 1(2) n by simp
  have c: "check_dev s1 dev = PB_OK" using check_dev_iff [OF 1(3)] n 1(2) by simp
  have r: "registered s1 = registered s @ [gpt_child (bio_dev s dev) p]"
    using 1(2) Cons.prems(4) by (simp add: take_Suc_conv_app_nth)
  have "\<exists>s'. gpt_register dev (ps @ q # qs) s1 = Some (PB_OK, s') \<and> bio_inv s' \<and> n_bios s' = n_bios s1 + length ps \<and>
    registered s' = registered s1 @ map (gpt_child (bio_dev s1 dev)) ps \<and> world s' = world s1"
    using Cons.prems 1 c d by (intro Cons.IH) (simp_all add: bio_block_size_def)
  then show ?case
    using Cons.prems(5) 1(1,2) r d by auto
qed

subsection \<open>Installing a table\<close>

text \<open>The entry that is built for a partition that starts at \<open>first\<close>, and all entries of a table.\<close>

abbreviation gpt_size :: "gpt_part_table \<Rightarrow> u32" where
  "gpt_size ent \<equiv> ucast (pt_size ent div 512)"

definition gpt_entry :: "u64 \<Rightarrow> gpt_part_table \<Rightarrow> gpt_part_hdr" where
  "gpt_entry start ent = gpt_part_zero\<lparr>gp_first_lba := start, gp_last_lba := start + ucast (gpt_size ent) - 1,
     gp_name := overlay (replicate 72 0) (gpt_wide (pt_description ent)), gp_attr := [0, 0, 0, 0, 0, 0, 0x80, 0x80],
     gp_type_uuid := uuid_to_guid (pt_uu ent), gp_uuid := uuid_to_guid (pt_uu ent)\<rparr>"

fun gpt_entries :: "u64 \<Rightarrow> gpt_part_table list \<Rightarrow> gpt_part_hdr list" where
  "gpt_entries start [] = []"
| "gpt_entries start (ent # ents) = gpt_entry start ent # gpt_entries (gp_last_lba (gpt_entry start ent) + 1) ents"

lemma length_gpt_entries [simp]: "length (gpt_entries start ents) = length ents"
  by (induction start ents rule: gpt_entries.induct) simp_all

lemma gpt_entries_wf: "list_all gpt_part_wf (gpt_entries start ents)"
  by (induction start ents rule: gpt_entries.induct) 
     (simp_all add: gpt_part_wf_def gpt_entry_def uuid_to_guid_def)

lemma gpt_entries_uuid: "map gp_uuid (gpt_entries start ents) = map (uuid_to_guid \<circ> pt_uu) ents"
  by (induction start ents rule: gpt_entries.induct) (simp_all add: gpt_entry_def)

text \<open>The partitions back to back from block \<open>a\<close> on: the specification of the layout.\<close>

fun back_to_back :: "nat \<Rightarrow> nat list \<Rightarrow> (nat \<times> nat) list" where
  "back_to_back a [] = []"
| "back_to_back a (n # ns) = (a, a + n - 1) # back_to_back (a + n) ns"

lemma gpt_entry_range:
  assumes "unat start + unat (gpt_size ent) < 2 ^ 63" and "0 < unat (gpt_size ent)"
  shows "unat (gp_last_lba (gpt_entry start ent)) = unat start + unat (gpt_size ent) - 1"
    "unat (gp_last_lba (gpt_entry start ent) + 1) = unat start + unat (gpt_size ent)"
proof -
  let ?x = "start + ucast (gpt_size ent) :: u64"
  have x: "unat ?x = unat start + unat (gpt_size ent)"
    using assms(1) by (subst u64_no_overflow) (simp_all add: ucast_lba)
  show "unat (gp_last_lba (gpt_entry start ent)) = unat start + unat (gpt_size ent) - 1"
    using x assms(2) by (simp add: gpt_entry_def unat_minus_le word_le_nat_alt)
  show "unat (gp_last_lba (gpt_entry start ent) + 1) = unat start + unat (gpt_size ent)"
    using x by (simp add: gpt_entry_def)
qed

lemma gpt_entries_layout:
  assumes "unat start + sum_list (map (unat \<circ> gpt_size) ents) < 2 ^ 63" and "\<forall>e\<in>set ents. 0 < unat (gpt_size e)"
  shows "map (\<lambda>p. (unat (gp_first_lba p), unat (gp_last_lba p))) (gpt_entries start ents) =
    back_to_back (unat start) (map (unat \<circ> gpt_size) ents)"
  using assms
proof (induction start ents rule: gpt_entries.induct)
  case (2 start ent ents)
  have r: "unat (gp_last_lba (gpt_entry start ent)) = unat start + unat (gpt_size ent) - 1"
      "unat (gp_last_lba (gpt_entry start ent) + 1) = unat start + unat (gpt_size ent)"
    using gpt_entry_range [of start ent] "2.prems" by simp_all
  have "gp_first_lba (gpt_entry start ent) = start" by (simp add: gpt_entry_def)
  then show ?case using "2.IH" "2.prems" r by (simp add: add.assoc)
qed simp

lemma back_to_back_bounds: "(f, l) \<in> set (back_to_back a ns) \<Longrightarrow> \<forall>n\<in>set ns. 0 < n \<Longrightarrow> a \<le> f \<and> f \<le> l \<and> l < a + sum_list ns"
proof (induction a ns rule: back_to_back.induct)
  case (2 a n ns)
  then show ?case by fastforce
qed simp

lemma bio_block_size_pool: "bio_pool t = bio_pool s \<Longrightarrow> bio_block_size t dev = bio_block_size s dev"
  using check_dev_cong [OF geometry_pool, of t s dev] by (simp add: bio_block_size_def Let_def)

lemma gpt_add_part_OK:
  assumes "i < 128" and "length (pri_part s) = 128"
    and "start = (if i = 0 then gh_first_lba (pri_hdr s) else gp_last_lba (pri_part s ! (i - 1)) + 1)"
    and "gp_last_lba (gpt_entry start ent) < gh_last_lba (pri_hdr s)" and "length (pt_description ent) \<le> 36"
  shows "gpt_add_part i (gpt_size ent) (uuid_to_guid (pt_uu ent)) (pt_description ent) s =
    Some (PB_OK, s\<lparr>pri_part := (pri_part s)[i := gpt_entry start ent], bak_part := (bak_part s)[i := gpt_entry start ent]\<rparr>)"
proof -
  have attr: "(replicate 8 0 :: u8 list)[7 := 0x80, 6 := 0x80] = [0, 0, 0, 0, 0, 0, 0x80, 0x80]" by code_simp
  have "length (uuid_to_guid (pt_uu ent)) = 16" by (simp add: uuid_to_guid_def)
  then show ?thesis
    using assms attr
    by (simp add: gpt_add_part_def Let_def gpt_entry_def gpt_part_zero_def not_le)
qed

lemma gpt_add_parts_OK:
  assumes "bio_block_size s dev = 512" and "i + length ents \<le> 128" and "length (pri_part s) = 128" and "length (bak_part s) = 128"
    and "start = (if i = 0 then gh_first_lba (pri_hdr s) else gp_last_lba (pri_part s ! (i - 1)) + 1)"
    and "\<forall>p\<in>set (gpt_entries start ents). gp_last_lba p < gh_last_lba (pri_hdr s)"
    and "\<forall>e\<in>set ents. length (pt_description e) \<le> 36"
  shows "gpt_add_parts dev i ents s = Some (PB_OK, s\<lparr>
    pri_part := take i (pri_part s) @ gpt_entries start ents @ drop (i + length ents) (pri_part s),
    bak_part := take i (bak_part s) @ gpt_entries start ents @ drop (i + length ents) (bak_part s)\<rparr>)"
  using assms
proof (induction ents arbitrary: i s start)
  case Nil
  then show ?case by simp
next
  case (Cons ent ents)
  let ?p = "gpt_entry start ent"
  let ?s = "s\<lparr>pri_part := (pri_part s)[i := ?p], bak_part := (bak_part s)[i := ?p]\<rparr>"
  have i: "i < 128" using Cons.prems(2) by simp
  have 1: "gpt_add_part i (gpt_size ent) (uuid_to_guid (pt_uu ent)) (pt_description ent) s = Some (PB_OK, ?s)"
    using Cons.prems by (intro gpt_add_part_OK [OF i]) simp_all
  have b: "bio_block_size ?s dev = 512" using bio_block_size_pool [of ?s s dev] Cons.prems(1) by simp
  have 2: "gpt_add_parts dev (i + 1) ents ?s = Some (PB_OK, ?s\<lparr>
    pri_part := take (i + 1) (pri_part ?s) @ gpt_entries (gp_last_lba ?p + 1) ents @ drop (i + 1 + length ents) (pri_part ?s),
    bak_part := take (i + 1) (bak_part ?s) @ gpt_entries (gp_last_lba ?p + 1) ents @ drop (i + 1 + length ents) (bak_part ?s)\<rparr>)"
    using Cons.prems i by (intro Cons.IH [OF b]) simp_all
  have t: "take (i + 1) (xs[i := ?p]) = take i xs @ [?p]" if "length xs = 128" for xs
    using that i by (simp add: take_Suc_conv_app_nth)
  have "gpt_add_parts dev i (ent # ents) s = gpt_add_parts dev (i + 1) ents ?s"
    using 1 Cons.prems(1) by simp
  then show ?case using 2 t Cons.prems(3,4) i by simp
qed

lemma gpt_init_tbl_medium:
  assumes "gpt_disk content s dev"
  obtains s' where "gpt_init_tbl tick dev s = (PB_OK, s')" "gpt_full (pri_hdr s')" "gpt_header_wf (pri_hdr s')"
    "gh_current_lba (pri_hdr s') = 1" "gh_first_lba (pri_hdr s') = 34" "gh_last_lba (pri_hdr s') = ucast (disk_end s dev) - 32"
    "pri_part s' = replicate 128 gpt_part_zero" "bak_part s' = replicate 128 gpt_part_zero"
    "bio_pool s' = bio_pool s" "n_bios s' = n_bios s" "world s' = world s"
proof -
  note r = gpt_disk_range [OF assms]
  have len: "length (fst (gpt_prng_bytes n x)) = n" for n x
    by (induction n arbitrary: x) (simp_all add: Let_def case_prod_beta)
  obtain uu pr where p: "gpt_prng_bytes 16 tick = (uu, pr)" by fastforce
  then have "length uu = 16" using len [of 16 tick] by simp
  then show thesis
    using that [of "snd (gpt_init_tbl tick dev s)"] p
    by (simp add: gpt_init_tbl_def r(6) word_of_lba Let_def gpt_full_def gpt_header_wf_def gpt_header_zero_def)
qed

text \<open>What a table has to be for a disk that ends at block \<open>l\<close>.\<close>

definition gpt_fits :: "u32 \<Rightarrow> gpt_part_table list \<Rightarrow> bool" where
  "gpt_fits l ents \<longleftrightarrow> length ents < 128 \<and>
     (\<forall>e\<in>set ents. 0 < unat (gpt_size e) \<and> length (pt_description e) \<le> 36 \<and> uuid_ok (pt_uu e)) \<and>
     34 + sum_list (map (unat \<circ> gpt_size) ents) \<le> unat l - 32"

lemma gpt_fits_layout:
  assumes "gpt_fits l ents" and "66 \<le> unat l" and "p \<in> set (gpt_entries 34 ents)"
  shows "gp_last_lba p < ucast l - 32" "gp_first_lba p \<noteq> 0" "ucast (gp_first_lba p) \<le> (ucast (gp_last_lba p) :: u32)"
    "unat (ucast (gp_first_lba p) :: u32) = unat (gp_first_lba p)" "unat (ucast (gp_last_lba p) :: u32) = unat (gp_last_lba p)"
proof -
  let ?ns = "map (unat \<circ> gpt_size) ents"
  have l: "unat l < 2 ^ 32" using unsigned_less [of l, where 'a = nat] by simp
  have pos: "\<forall>e\<in>set ents. 0 < unat (gpt_size e)" "\<forall>n\<in>set ?ns. 0 < n" and sum: "34 + sum_list ?ns \<le> unat l - 32"
    using assms(1) by (auto simp: gpt_fits_def)
  have "map (\<lambda>p. (unat (gp_first_lba p), unat (gp_last_lba p))) (gpt_entries 34 ents) = back_to_back 34 ?ns"
    using gpt_entries_layout [of 34 ents] sum l pos(1) by simp
  then have "(unat (gp_first_lba p), unat (gp_last_lba p)) \<in> set (back_to_back 34 ?ns)"
    using assms(3) by (metis (no_types, lifting) image_eqI list.set_map)
  then have b: "34 \<le> unat (gp_first_lba p)" "unat (gp_first_lba p) \<le> unat (gp_last_lba p)" "unat (gp_last_lba p) < 34 + sum_list ?ns"
    using back_to_back_bounds [OF _ pos(2)] by blast+
  have e: "unat (ucast l - 32 :: u64) = unat l - 32"
    using assms(2) by (subst unat_minus_le) (simp_all add: word_le_nat_alt ucast_lba)
  show "gp_last_lba p < ucast l - 32" using b(3) sum e by (simp add: word_less_nat_alt)
  show "gp_first_lba p \<noteq> 0" using b(1) by auto
  have lt: "unat (gp_first_lba p) < 2 ^ 32" "unat (gp_last_lba p) < 2 ^ 32" using b sum l by simp_all
  then show c: "unat (ucast (gp_first_lba p) :: u32) = unat (gp_first_lba p)" "unat (ucast (gp_last_lba p) :: u32) = unat (gp_last_lba p)"
    by (simp_all add: unsigned_ucast_eq take_bit_nat_eq_self)
  show "ucast (gp_first_lba p) \<le> (ucast (gp_last_lba p) :: u32)" using b(2) c by (simp add: word_le_nat_alt)
qed

lemma gpt_install_healthy:
  assumes disk: "gpt_disk content s dev" and v: "0 \<le> v" "v < int (length (gpt_tables s))"
    and ents: "tl_table (gpt_tables s ! nat v) = ents" and fits: "gpt_fits (disk_end s dev) ents"
  obtains s' where "gpt_install_partition_table tick dev v s = Some (PB_OK, s')" "gpt_healthy content s' dev"
    "pri_part s' = gpt_entries 34 ents @ replicate (128 - length ents) gpt_part_zero" "bak_part s' = pri_part s'"
    "gpt_full (pri_hdr s')" "gpt_full (bak_hdr s')" "gh_current_lba (pri_hdr s') = 1" "bio_pool s' = bio_pool s" "n_bios s' = n_bios s"
proof -
  obtain s1 where 1: "gpt_init_tbl tick dev s = (PB_OK, s1)" "gpt_full (pri_hdr s1)" "gpt_header_wf (pri_hdr s1)"
    "gh_current_lba (pri_hdr s1) = 1" "gh_first_lba (pri_hdr s1) = 34" "gh_last_lba (pri_hdr s1) = ucast (disk_end s dev) - 32"
    "pri_part s1 = replicate 128 gpt_part_zero" "bak_part s1 = replicate 128 gpt_part_zero"
    "bio_pool s1 = bio_pool s" "n_bios s1 = n_bios s" "world s1 = world s"
    using gpt_init_tbl_medium [OF disk] .
  have l: "66 \<le> unat (disk_end s dev)" using disk by (simp add: gpt_disk_def)
  let ?ps = "gpt_entries 34 ents @ replicate (128 - length ents) gpt_part_zero"
  let ?s2 = "s1\<lparr>pri_part := ?ps, bak_part := ?ps\<rparr>"
  have b: "bio_block_size s1 dev = 512" using gpt_disk_range(5) [OF disk] bio_block_size_pool [OF 1(9)] by simp
  have 2: "gpt_add_parts dev 0 ents s1 = Some (PB_OK, ?s2)"
    using gpt_add_parts_OK [OF b, of 0 ents 34] 1 fits gpt_fits_layout(1) [OF fits l] by (simp add: gpt_fits_def)
  have z: "gpt_part_wf gpt_part_zero" by (simp add: gpt_part_wf_def gpt_part_zero_def)
  have "gpt_disk content ?s2 dev" using disk gpt_disk_cong(1) [OF geometry_pool, of ?s2 s] 1(9) by simp
  moreover have "gpt_table_wf (pri_hdr ?s2, pri_part ?s2)" "length (bak_part ?s2) = 128"
    using 1(3) fits gpt_entries_wf z by (simp_all add: gpt_table_wf_def gpt_fits_def list_all_iff)
  ultimately obtain s' where s': "gpt_write_tbl dev ?s2 = Some (PB_OK, s')" "gpt_healthy content s' dev" "pri_part s' = ?ps"
    "bak_part s' = ?ps" "bio_pool s' = bio_pool ?s2" "n_bios s' = n_bios ?s2" "gpt_full (pri_hdr s')" "gpt_full (bak_hdr s')"
    "gh_current_lba (pri_hdr s') = 1"
    using gpt_write_tbl_healthy [of content ?s2 dev] 1(2,4) by auto
  have "gpt_install_partition_table tick dev v s = Some (PB_OK, s')"
    using v ents 1(1) 2 s'(1) by (simp add: gpt_install_partition_table_def Let_def)
  then show thesis using that s' 1(9,10) by simp
qed

subsection \<open>From an installed table to block devices\<close>

lemma bio_inv_cong:
  fixes s t :: "('w, 'z) bio_scheme"
  assumes "geometry s = geometry t" and "n_bios s = n_bios t"
  shows "bio_inv s = bio_inv t"
proof -
  have "bio_inv s \<longleftrightarrow> n_bios s \<le> length (geometry s) \<and> list_all (\<lambda>d. valid d \<and> dev_inv d) (take (n_bios s) (geometry s)) \<and>
      list_all (\<lambda>d. \<not> valid d) (drop (n_bios s) (geometry s))" for s :: "('w, 'z) bio_scheme"
    by (simp add: bio_inv_def geometry_def take_map drop_map list.pred_map comp_def dev_inv_def)
  then show ?thesis using assms by metis
qed

lemma registered_uu_cong:
  fixes s t :: "('w, 'z) bio_scheme"
  assumes "geometry s = geometry t" and "n_bios s = n_bios t"
  shows "map dev_uu (registered s) = map dev_uu (registered t)"
proof -
  have "map dev_uu (registered s) = map dev_uu (take (n_bios s) (geometry s))" for s :: "('w, 'z) bio_scheme"
    by (simp add: geometry_def take_map comp_def)
  then show ?thesis using assms by metis
qed

lemma copies_of_disk:
  assumes "gpt_disk content s dev" and "gpt_disk content t dev" and "disk_end t dev = disk_end s dev"
    and "content (world t) = content (world s)"
  shows "pri_bytes content t dev = pri_bytes content s dev" "bak_bytes content t dev = bak_bytes content s dev"
  using assms by (simp_all add: pri_bytes_def bak_bytes_def dev_content_def gpt_disk_def)

lemma lookup_new:
  assumes "bio_inv s" and "registered s = old @ new" and "distinct (map dev_uu new)"
    and "dev_uu ` set old \<inter> dev_uu ` set new = {}" and "i < length new"
  shows "bio_get_part_by_uu (Some (dev_uu (new ! i))) s = int (length old + i)"
proof -
  let ?uu = "dev_uu (new ! i)"
  have "new ! i \<in> set (registered s)" using assms(2,5) by simp
  then have "dev_inv (new ! i)" using assms(1) by (auto simp: bio_inv_def list_all_iff)
  then have ok: "uuid_ok ?uu" by (simp add: dev_inv_def)
  have "takeWhile (\<lambda>d. dev_uu d \<noteq> ?uu) new = take i new"
    using assms(3,5) by (intro takeWhile_eq_take_P_nth) (auto simp: distinct_conv_nth)
  moreover have "\<forall>d\<in>set old. dev_uu d \<noteq> ?uu" using assms(4,5) by (metis IntI empty_iff imageI nth_mem)
  ultimately have "takeWhile (\<lambda>d. dev_uu d \<noteq> ?uu) (old @ new) = old @ take i new" by simp
  then show ?thesis
    using bio_get_part_by_uu_eq [OF assms(1) ok] assms(2,5) by simp
qed

lemma gpt_children:
  assumes "gpt_fits l ents" and "66 \<le> unat l"
  shows "map dev_uu (map (gpt_child d) (gpt_entries 34 ents)) = map pt_uu ents"
    "map (\<lambda>d. (unat (first_lba d), unat (last_lba d))) (map (gpt_child d) (gpt_entries 34 ents)) =
      back_to_back 34 (map (unat \<circ> gpt_size) ents)"
proof -
  have "unat l < 2 ^ 32" using unsigned_less [of l, where 'a = nat] by simp
  moreover have "34 + sum_list (map (unat \<circ> gpt_size) ents) \<le> unat l - 32" using assms(1) by (simp add: gpt_fits_def)
  ultimately have sum: "34 + sum_list (map (unat \<circ> gpt_size) ents) < 2 ^ 63" by simp
  have "map dev_uu (map (gpt_child d) (gpt_entries 34 ents)) = map uuid_to_guid (map gp_uuid (gpt_entries 34 ents))" by simp
  also have "\<dots> = map pt_uu ents"
    using assms(1) by (simp add: gpt_entries_uuid gpt_fits_def uuid_to_guid_invol)
  finally show "map dev_uu (map (gpt_child d) (gpt_entries 34 ents)) = map pt_uu ents" .
  have "map (\<lambda>d. (unat (first_lba d), unat (last_lba d))) (map (gpt_child d) (gpt_entries 34 ents)) =
      map (\<lambda>p. (unat (gp_first_lba p), unat (gp_last_lba p))) (gpt_entries 34 ents)"
    using gpt_fits_layout(4,5) [OF assms] by simp
  also have "\<dots> = back_to_back 34 (map (unat \<circ> gpt_size) ents)"
    using gpt_entries_layout [of 34 ents] assms(1) sum by (simp add: gpt_fits_def)
  finally show "map (\<lambda>d. (unat (first_lba d), unat (last_lba d))) (map (gpt_child d) (gpt_entries 34 ents)) =
      back_to_back 34 (map (unat \<circ> gpt_size) ents)" .
qed

text \<open>
  C13: Installing a table and booting again gives the partitions of the table. For a table that
  fits the disk, \<open>gpt_install_partition_table\<close> succeeds; when the boot loader then starts
  on the same medium, with room in its pool, \<open>gpt_ptbl_init\<close> registers one block device for each
  entry, in the order of the table, with the UUID of the entry. They lie back to back from block
  34 on, each with the number of blocks of its entry, use the drivers of the disk, and each is
  found under its UUID.
\<close>

theorem gpt_installed_partitions_appear:
  assumes "gpt_disk content s dev" and "0 \<le> v" and "v < int (length (gpt_tables s))"
    and "tl_table (gpt_tables s ! nat v) = ents" and "gpt_fits (disk_end s dev) ents"
    and "gpt_install_partition_table tick dev v s = Some (rc, s')"
    and "gpt_disk content t dev" and "disk_end t dev = disk_end s dev" and "content (world t) = content (world s')"
    and "gpt_table_wf (pri_hdr t, pri_part t)" and "gpt_table_wf (bak_hdr t, bak_part t)"
    and "bio_inv t" and "n_bios t + length ents \<le> length (bio_pool t)"
    and "distinct (map pt_uu ents)" and "pt_uu ` set ents \<inter> dev_uu ` set (registered t) = {}"
  shows "rc = PB_OK \<and> (\<exists>t'. gpt_ptbl_init dev tables t = Some (PB_OK, t') \<and> bio_inv t' \<and>
    map dev_uu (drop (n_bios t) (registered t')) = map pt_uu ents \<and>
    map (\<lambda>d. (unat (first_lba d), unat (last_lba d))) (drop (n_bios t) (registered t')) = back_to_back 34 (map (unat \<circ> gpt_size) ents) \<and>
    (\<forall>d\<in>set (drop (n_bios t) (registered t')). dev_read d = dev_read (bio_dev t dev) \<and> dev_write d = dev_write (bio_dev t dev)) \<and>
    (\<forall>i<length ents. bio_get_part_by_uu (Some (pt_uu (ents ! i))) t' = int (n_bios t + i)))"
proof -
  let ?es = "gpt_entries 34 ents"
  obtain rc: "rc = PB_OK" and s': "gpt_healthy content s' dev"
    "pri_part s' = ?es @ replicate (128 - length ents) gpt_part_zero" "bak_part s' = pri_part s'"
    "gpt_full (pri_hdr s')" "gpt_full (bak_hdr s')" "gh_current_lba (pri_hdr s') = 1" "bio_pool s' = bio_pool s" "n_bios s' = n_bios s"
    using gpt_install_healthy [OF assms(1-5), of tick thesis] assms(6) by auto
  have l: "66 \<le> unat (disk_end s dev)" using assms(1) by (simp add: gpt_disk_def)
  have ds': "gpt_disk content s' dev" "disk_end t dev = disk_end s' dev"
    using gpt_disk_cong(1) [OF geometry_pool [OF s'(7)]] assms(1,8) s'(7) by simp_all
  have copies: "pri_copy content t dev = (pri_hdr s', pri_part s')" "bak_copy content t dev = (bak_hdr s', bak_part s')"
    using copies_of_disk [OF ds'(1) assms(7) ds'(2) assms(9)] s'(1) by (simp_all add: gpt_healthy_def gpt_synced_def)
  have valid: "gpt_valid (pri_hdr s') (pri_part s')" "gpt_valid (bak_hdr s') (bak_part s')" using s'(1) by (simp_all add: gpt_healthy_def)
  have chk: "gpt_checkable (pri_hdr s', pri_part s')" "gpt_checkable (bak_hdr s', bak_part s')"
    using gpt_valid_check(1) [OF valid(1)] gpt_valid_check(1) [OF valid(2)] s'(4,5) by (simp_all add: gpt_checkable_def)
  obtain t1 where t1: "gpt_ptbl_init dev tables t = gpt_register dev (pri_part t1) t1"
      "pri_part t1 = pri_part s'" "geometry t1 = geometry t" "n_bios t1 = n_bios t"
    using gpt_start [OF copies assms(7,10,11) chk, of tables] s'(6) valid by auto
  have d1: "gpt_disk content t1 dev" "bio_inv t1" using gpt_disk_cong(1) [OF t1(3)] bio_inv_cong [OF t1(3,4)] assms(7,12) by simp_all
  note r1 = gpt_disk_range [OF d1(1)]
  have len: "n_bios t1 + length ?es \<le> length (bio_pool t1)" using assms(13) t1(4) geometry_length [OF t1(3)] by simp
  have n: "128 - length ents = Suc (127 - length ents)" using assms(5) by (auto simp: gpt_fits_def)
  have "pri_part t1 = ?es @ gpt_part_zero # replicate (127 - length ents) gpt_part_zero"
    using t1(2) s'(2) n by (simp flip: replicate_Suc)
  then obtain t' where t': "gpt_ptbl_init dev tables t = Some (PB_OK, t')" "bio_inv t'"
      "registered t' = registered t1 @ map (gpt_child (bio_dev t1 dev)) ?es"
    using gpt_register_partitions [OF d1(2) r1(1,5) len, of gpt_part_zero "replicate (127 - length ents) gpt_part_zero"]
      gpt_fits_layout(2,3) [OF assms(5) l] t1(1) by (auto simp: gpt_part_zero_def)
  let ?new = "map (gpt_child (bio_dev t1 dev)) ?es"
  have old: "length (registered t1) = n_bios t" using len t1(4) by simp
  then have new: "drop (n_bios t) (registered t') = ?new" using t'(3) by simp
  note ch = gpt_children [OF assms(5) l, of "bio_dev t1 dev"]
  have rw: "dev_read (bio_dev t1 dev) = dev_read (bio_dev t dev)" "dev_write (bio_dev t1 dev) = dev_write (bio_dev t dev)"
    using geometry_nth(4,5) [OF t1(3) check_dev_range [OF gpt_disk_range(1) [OF assms(7)]]] by simp_all
  have "dev_uu ` set (registered t1) = dev_uu ` set (registered t)" using arg_cong [OF registered_uu_cong [OF t1(3,4)], of set] by simp
  moreover have "dev_uu ` set ?new = pt_uu ` set ents" using arg_cong [OF ch(1), of set] by (simp add: image_image)
  ultimately have look: "bio_get_part_by_uu (Some (dev_uu (?new ! i))) t' = int (n_bios t + i)" if "i < length ents" for i
    using lookup_new [OF t'(2,3), of i] ch(1) assms(14,15) that old by (auto simp: Int_commute)
  have "dev_uu (?new ! i) = pt_uu (ents ! i)" if "i < length ents" for i
    using arg_cong [OF ch(1), of "\<lambda>xs. xs ! i"] that by simp
  then show ?thesis using rc t'(1,2) look new ch rw by (intro conjI exI [of _ t']) auto
qed

subsection \<open>A disk of 101 blocks\<close>

definition demo_disk :: "(nat \<Rightarrow> u8) bio_device" where
  "demo_disk = bio_device_zero\<lparr>first_lba := 0, last_lba := 100, block_sz := 512, valid := True,
     dev_uu := replicate 16 1, description := replicate 37 0, dev_read := Some (ram_read 512), dev_write := Some (ram_write 512)\<rparr>"

definition demo_table :: gpt_table_list where
  "demo_table = \<lparr>tl_name = [100, 101, 109, 111], tl_variant = 0,
     tl_table = [\<lparr>pt_uu = replicate 16 9, pt_description = [115, 121, 115], pt_size = 2048\<rparr>]\<rparr>"

definition demo_gpt :: "(nat \<Rightarrow> u8) \<Rightarrow> (nat \<Rightarrow> u8) gpt" where
  "demo_gpt w = \<lparr>world = w, mem = (\<lambda>_. 0), bio_pool = [demo_disk, bio_device_zero, bio_device_zero], n_bios = 1, fuse_box = [],
     fuse_dev = 0, dsa_ops = [], no_of_dsa_ops = 0, hash_ops = [], no_of_hash_ops = 0,
     current_hash_ops = None, primary_part = 0, backup_part = 0, boot_state = pb_boot_state_zero,
     boot_state_backup = pb_boot_state_zero, header = bpak_init_header, header_ptr = None, boot_flags = 0,
     boot_device = -1, boot_source_var = BOOT_SOURCE_CB, boot_part_uu = replicate 16 0, payload_digest = replicate 64 0,
     prng_state = 0, pri_hdr = gpt_header_zero, pri_part = replicate 128 gpt_part_zero,
     bak_hdr = gpt_header_zero, bak_part = replicate 128 gpt_part_zero, gpt_pmbr = replicate 512 0, gpt_dev = -1,
     gpt_tables = [demo_table]\<rparr>"

lemma demo_gpt_sel [simp]:
  "world (demo_gpt w) = w" "bio_pool (demo_gpt w) = [demo_disk, bio_device_zero, bio_device_zero]" "n_bios (demo_gpt w) = 1"
  "pri_hdr (demo_gpt w) = gpt_header_zero" "pri_part (demo_gpt w) = replicate 128 gpt_part_zero"
  "bak_hdr (demo_gpt w) = gpt_header_zero" "bak_part (demo_gpt w) = replicate 128 gpt_part_zero" "gpt_tables (demo_gpt w) = [demo_table]"
  by (simp_all add: demo_gpt_def)

lemma demo_disk_sel [simp]:
  "first_lba demo_disk = 0" "last_lba demo_disk = 100" "block_sz demo_disk = 512" "valid demo_disk" "dev_uu demo_disk = replicate 16 1"
  "dev_read demo_disk = Some (ram_read 512)" "dev_write demo_disk = Some (ram_write 512)"
  by (simp_all add: demo_disk_def)

lemma demo_gpt_disk: "gpt_disk id (demo_gpt w) 0" "bio_inv (demo_gpt w)"
  "gpt_table_wf (pri_hdr (demo_gpt w), pri_part (demo_gpt w))" "gpt_table_wf (bak_hdr (demo_gpt w), bak_part (demo_gpt w))"
proof -
  show "gpt_disk id (demo_gpt w) 0"
    using medium_ram [of 512] by (auto simp: gpt_disk_def medium_dev_def check_dev_def ram_read_def ram_write_def)
  show "bio_inv (demo_gpt w)"
    by (simp add: bio_inv_def dev_inv_def uuid_ok_def) (simp add: demo_disk_def bio_device_zero_def)
  have "gpt_table_wf (gpt_header_zero, replicate 128 gpt_part_zero)"
    by (simp add: gpt_table_wf_def gpt_header_wf_def gpt_header_zero_def gpt_part_wf_def gpt_part_zero_def list_all_iff)
  then show "gpt_table_wf (pri_hdr (demo_gpt w), pri_part (demo_gpt w))" "gpt_table_wf (bak_hdr (demo_gpt w), bak_part (demo_gpt w))"
    by simp_all
qed

lemma demo_fits: "gpt_fits 100 (tl_table demo_table)"
  by (simp add: gpt_fits_def demo_table_def uuid_ok_def)

lemma demo_install:
  obtains s' where "gpt_install_partition_table 5 0 0 (demo_gpt w) = Some (PB_OK, s')" "gpt_healthy id s' 0"
    "gpt_full (bak_hdr s')" "bio_pool s' = bio_pool (demo_gpt w)"
  using gpt_install_healthy [OF demo_gpt_disk(1), of 0 w "tl_table demo_table" 5 thesis] demo_fits by simp

theorem gpt_installed_partitions_appear_witness:
  "\<exists>rc s' t'. gpt_install_partition_table 5 0 0 (demo_gpt (\<lambda>_. 0)) = Some (rc, s') \<and>
     gpt_ptbl_init 0 [] (demo_gpt (world s')) = Some (PB_OK, t') \<and> bio_get_part_by_uu (Some (replicate 16 9)) t' = 1"
proof -
  obtain s' where s': "gpt_install_partition_table 5 0 0 (demo_gpt (\<lambda>_. 0)) = Some (PB_OK, s')" using demo_install .
  have "\<exists>t'. gpt_ptbl_init 0 [] (demo_gpt (world s')) = Some (PB_OK, t') \<and>
      (\<forall>i<length (tl_table demo_table). bio_get_part_by_uu (Some (pt_uu (tl_table demo_table ! i))) t' = int (1 + i))"
    using gpt_installed_partitions_appear [OF demo_gpt_disk(1) _ _ refl _ s' demo_gpt_disk(1) _ _ demo_gpt_disk(3,4,2), where tables = "[]"] demo_fits
    by (auto simp: demo_table_def)
  then show ?thesis using s' by (auto simp: demo_table_def)
qed

lemma le_word_zeros: "le_word (replicate n 0) = 0"
  by (induction n) simp_all

text \<open>The same disk after its first 34 blocks were cleared.\<close>

theorem gpt_start_recovers_witness:
  "\<exists>w s. \<not> gpt_valid (fst (pri_copy id (demo_gpt w) 0)) (snd (pri_copy id (demo_gpt w) 0)) \<and>
     gpt_ptbl_init 0 [] (demo_gpt w) = gpt_register 0 (pri_part s) s \<and>
     gpt_valid (fst (pri_copy id s 0)) (snd (pri_copy id s 0))"
proof -
  obtain s' where "gpt_install_partition_table 5 0 0 (demo_gpt (\<lambda>_. 0)) = Some (PB_OK, s')" and
    s': "gpt_healthy id s' 0" "gpt_full (bak_hdr s')" "bio_pool s' = bio_pool (demo_gpt (\<lambda>_. 0))"
    using demo_install .
  define w where "w = (\<lambda>i. if i < 17408 then 0 else world s' i)"
  have "pri_bytes id (demo_gpt w) 0 = replicate 16896 0"
    by (intro nth_equalityI) (simp_all add: pri_bytes_def dev_content_def w_def)
  moreover have "gh_signature (fst (dec_primary (replicate 16896 0))) = 0"
    by (simp add: dec_primary_def dec_gpt_header_def window_def le_word_zeros)
  ultimately obtain h ps where p: "pri_copy id (demo_gpt w) 0 = (h, ps)" "gh_signature h = 0" by (metis prod.collapse)
  have "bak_bytes id (demo_gpt w) 0 = bak_bytes id s' 0"
    using s'(3) by (simp add: bak_bytes_def dev_content_def w_def)
  then have b: "bak_copy id (demo_gpt w) 0 = (bak_hdr s', bak_part s')" and v: "gpt_valid (bak_hdr s') (bak_part s')"
    using s'(1) by (simp_all add: gpt_healthy_def gpt_synced_def)
  have nv: "\<not> gpt_valid h ps" "gpt_checkable (h, ps)"
    using p(2) by (simp_all add: gpt_valid_def gpt_checkable_def gpt_is_valid_def gpt_has_valid_header_def gpt_header_signature_def)
  have "gpt_checkable (bak_hdr s', bak_part s')" using gpt_valid_check(1) [OF v] s'(2) by (simp add: gpt_checkable_def)
  then have "\<exists>s. gpt_ptbl_init 0 [] (demo_gpt w) = gpt_register 0 (pri_part s) s \<and>
      gpt_valid (fst (pri_copy id s 0)) (snd (pri_copy id s 0))"
    using gpt_start_recovers [OF p(1) b demo_gpt_disk(1,3,4) nv(2), where tables = "[]"] nv(1) v by auto
  then show ?thesis using p(1) nv(1) by (intro exI [of _ w]) auto
qed

end
