(* ===== verification/Cstring.thy ===== *)
theory Cstring
  imports Libc
begin

text \<open>
  The memory and string routines of \<open>src/lib/libc\<close> and the character classes of
  \<open>include/libc/ctype.h\<close>. \<open>memcpy\<close>, \<open>memmove\<close> and \<open>memset\<close> work on the main memory, so
  that overlapping arguments are covered; the string routines work on the bytes before the
  terminator and a pointer into a string is an offset. A \<open>char\<close> is unsigned, as on the
  targets. Copying is shown to be a write of the bytes read before the call, for
  \<open>memmove\<close> also when the two areas overlap, and each string routine is shown to agree
  with a reference definition on lists.
\<close>

subsection \<open>Character classes\<close>

definition isspace :: "u8 \<Rightarrow> bool" where
  "isspace c \<longleftrightarrow> c = 32 \<or> (c \<ge> 9 \<and> c \<le> 13)"

definition isascii :: "u8 \<Rightarrow> bool" where
  "isascii c \<longleftrightarrow> c AND NOT 0x7f = 0"

definition isupper :: "u8 \<Rightarrow> bool" where
  "isupper c \<longleftrightarrow> c \<ge> 65 \<and> c \<le> 90"

definition islower :: "u8 \<Rightarrow> bool" where
  "islower c \<longleftrightarrow> c \<ge> 97 \<and> c \<le> 122"

definition isalpha :: "u8 \<Rightarrow> bool" where
  "isalpha c \<longleftrightarrow> isupper c \<or> islower c"

definition isdigit :: "u8 \<Rightarrow> bool" where
  "isdigit c \<longleftrightarrow> c \<ge> 48 \<and> c \<le> 57"

definition isxdigit :: "u8 \<Rightarrow> bool" where
  "isxdigit c \<longleftrightarrow> isdigit c \<or> (c \<ge> 65 \<and> c \<le> 70) \<or> (c \<ge> 97 \<and> c \<le> 102)"

definition isprint :: "u8 \<Rightarrow> bool" where
  "isprint c \<longleftrightarrow> c \<ge> 32 \<and> c \<le> 126"

definition toupper :: "u8 \<Rightarrow> u8" where
  "toupper c = c - 0x20 * (if c \<ge> 97 \<and> c \<le> 122 then 1 else 0)"

definition tolower :: "u8 \<Rightarrow> u8" where
  "tolower c = c + 0x20 * (if c \<ge> 65 \<and> c \<le> 90 then 1 else 0)"

subsection \<open>Blocks of memory\<close>

text \<open>
  The counter of the loop in \<open>memcpy\<close> is a \<open>uint32_t\<close>, its bound a \<open>size_t\<close>; a loop that
  does not end is \<open>None\<close>.
\<close>

partial_function (option) memcpy_from :: "u32 \<Rightarrow> u64 \<Rightarrow> u64 \<Rightarrow> u64 \<Rightarrow> memory \<Rightarrow> memory option" where
  "memcpy_from i p1 p2 sz m =
     (if ucast i < sz then memcpy_from (i + 1) (p1 + 1) (p2 + 1) sz (m(p1 := m p2)) else Some m)"

definition memcpy :: "u64 \<Rightarrow> u64 \<Rightarrow> u64 \<Rightarrow> memory \<Rightarrow> memory option" where
  "memcpy dest src sz m = memcpy_from 0 dest src sz m"

text \<open>\<open>while (d != end) *--d = *--s\<close>; \<open>n\<close> is \<open>d - end\<close>.\<close>

primrec copy_backwards :: "nat \<Rightarrow> u64 \<Rightarrow> u64 \<Rightarrow> memory \<Rightarrow> memory" where
  "copy_backwards 0 d s m = m"
| "copy_backwards (Suc n) d s m = copy_backwards n (d - 1) (s - 1) (m(d - 1 := m (s - 1)))"

definition memmove :: "u64 \<Rightarrow> u64 \<Rightarrow> u64 \<Rightarrow> memory \<Rightarrow> memory option" where
  "memmove dst src len m =
     (if dst = src then Some m
      else if dst - src \<ge> len then memcpy dst src len m
      else Some (copy_backwards (unat len) (dst + len) (src + len) m))"

primrec memset_from :: "nat \<Rightarrow> u64 \<Rightarrow> u8 \<Rightarrow> memory \<Rightarrow> memory" where
  "memset_from 0 ptr val m = m"
| "memset_from (Suc n) ptr val m = memset_from n (ptr + 1) val (m(ptr := val))"

definition memset :: "u64 \<Rightarrow> int \<Rightarrow> u64 \<Rightarrow> memory \<Rightarrow> memory" where
  "memset dst val count m = memset_from (unat count) dst (word_of_int val) m"

fun memchr :: "u8 list \<Rightarrow> int \<Rightarrow> nat option" where
  "memchr [] c = None"
| "memchr (b # s) c = (if uint b = c then Some 0 else map_option Suc (memchr s c))"

subsection \<open>Strings\<close>

text \<open>The byte a pointer points to.\<close>

definition deref :: "u8 list \<Rightarrow> u8" where
  "deref s = (case s of [] \<Rightarrow> 0 | c # _ \<Rightarrow> c)"

lemma deref_Cons [simp]: "deref (c # s) = c" and deref_Nil [simp]: "deref [] = 0"
  by (simp_all add: deref_def)

lemma deref_advances [termination_simp]: "deref s \<noteq> 0 \<Longrightarrow> length s - Suc 0 < length s"
  by (cases s) simp_all

primrec strlen :: "u8 list \<Rightarrow> nat" where
  "strlen [] = 0"
| "strlen (c # s) = (if c \<noteq> 0 then Suc (strlen s) else 0)"

text \<open>\<open>strnlen\<close> tests the bound before the byte.\<close>

primrec strnlen :: "nat \<Rightarrow> u8 list \<Rightarrow> nat" where
  "strnlen 0 s = 0"
| "strnlen (Suc maxlen) s = (if deref s = 0 then 0 else Suc (strnlen maxlen (tl s)))"

fun strcmp :: "u8 list \<Rightarrow> u8 list \<Rightarrow> int" where
  "strcmp s1 s2 =
     (if deref s1 = deref s2
      then (if deref s1 = 0 then 0 else strcmp (tl s1) (tl s2))
      else uint (deref s1) - uint (deref s2))"

declare strcmp.simps [simp del]

primrec strncmp :: "nat \<Rightarrow> u8 list \<Rightarrow> u8 list \<Rightarrow> int" where
  "strncmp 0 s1 s2 = 0"
| "strncmp (Suc n) s1 s2 =
     (if deref s1 \<noteq> deref s2 then uint (deref s1) - uint (deref s2)
      else if deref s1 = 0 then 0
      else strncmp n (tl s1) (tl s2))"

text \<open>The offset of the character; that of the terminator for \<open>ch = 0\<close>.\<close>

fun strchr :: "u8 list \<Rightarrow> u8 \<Rightarrow> nat option" where
  "strchr p c =
     (if deref p = c then Some 0
      else if deref p = 0 then None
      else map_option Suc (strchr (tl p) c))"

declare strchr.simps [simp del]

text \<open>\<open>save\<close> is the last match so far, \<open>i\<close> the offset of \<open>p\<close>.\<close>

fun strrchr_from :: "nat option \<Rightarrow> nat \<Rightarrow> u8 list \<Rightarrow> u8 \<Rightarrow> nat option" where
  "strrchr_from save i p c =
     (let save = (if deref p = c then Some i else save) in
      if deref p = 0 then save else strrchr_from save (i + 1) (tl p) c)"

declare strrchr_from.simps [simp del]

definition strrchr :: "u8 list \<Rightarrow> u8 \<Rightarrow> nat option" where
  "strrchr p c = strrchr_from None 0 p c"

fun strspn :: "u8 list \<Rightarrow> u8 list \<Rightarrow> nat" where
  "strspn s accept =
     (if deref s \<noteq> 0 \<and> strchr accept (deref s) \<noteq> None then Suc (strspn (tl s) accept) else 0)"

declare strspn.simps [simp del]

fun strcspn :: "u8 list \<Rightarrow> u8 list \<Rightarrow> nat" where
  "strcspn s reject =
     (if deref s \<noteq> 0 \<and> strchr reject (deref s) = None then Suc (strcspn (tl s) reject) else 0)"

declare strcspn.simps [simp del]

text \<open>The bytes \<open>strcpy\<close> stores, with the terminator.\<close>

fun strcpy :: "u8 list \<Rightarrow> u8 list" where
  "strcpy src = deref src # (if deref src \<noteq> 0 then strcpy (tl src) else [])"

declare strcpy.simps [simp del]

subsection \<open>Copying\<close>

text \<open>What a copy should do: the bytes that were at the source are at the destination.\<close>

definition block_copy :: "u64 \<Rightarrow> u64 \<Rightarrow> nat \<Rightarrow> memory \<Rightarrow> memory" where
  "block_copy dest src n m = mem_write m dest (mem_read m src n)"

lemma block_copy_eq:
  "n \<le> 2 ^ 64 \<Longrightarrow> block_copy d s n m x = (if unat (x - d) < n then m (s + (x - d)) else m x)"
  by (simp add: block_copy_def mem_write_eq mem_read_def)

lemma memcpy_from_ends:
  assumes "memcpy_from i p1 p2 sz m = Some m'"
  shows "unat sz < 2 ^ 32"
proof (rule memcpy_from.raw_induct [where P = "\<lambda>i p1 p2 sz m m'. unat sz < 2 ^ 32", OF _ assms])
  fix f i p1 p2 sz m m'
  assume IH: "\<And>i p1 p2 sz m m'. f i p1 p2 sz m = Some m' \<Longrightarrow> unat (sz :: u64) < 2 ^ 32"
    and body: "(if ucast (i :: u32) < sz then f (i + 1) (p1 + 1) (p2 + 1) sz (m(p1 := m p2)) else Some m) = Some m'"
  show "unat sz < 2 ^ 32"
  proof (cases "ucast i < sz")
    case True then show ?thesis using IH body by simp
  next
    case False
    then have "unat sz \<le> unat (ucast i :: u64)" by (simp add: word_le_nat_alt not_less)
    also have "\<dots> < 2 ^ 32" using unsigned_less [of i] by (simp add: unat_ucast_up)
    finally show ?thesis .
  qed
qed

text \<open>
  The loop of \<open>memcpy\<close> with \<open>n\<close> rounds left. The areas may overlap as long as the
  destination does not start inside of the source.
\<close>

lemma block_copy_step:
  assumes "Suc n \<le> 2 ^ 64" and "\<not> (0 < unat (d - s) \<and> unat (d - s) < Suc n)"
  shows "block_copy (d + 1) (s + 1) n (m(d := m s)) = block_copy d s (Suc n) m"
proof
  fix x
  have shift: "unat (x - d) = Suc (unat (x - (d + 1)))" if "x \<noteq> d"
  proof -
    have "unat (x - d) = unat (1 + (x - (d + 1)))" by simp
    also have "\<dots> = Suc (unat (x - (d + 1)))"
      using that by (intro unatSuc) (auto simp: algebra_simps)
    finally show ?thesis .
  qed
  show "block_copy (d + 1) (s + 1) n (m(d := m s)) x = block_copy d s (Suc n) m x"
  proof (cases "x = d")
    case True
    have "unat (d - (d + 1)) = 2 ^ 64 - 1" by (simp add: unsigned_minus_1_eq_mask mask_eq_exp_minus_1)
    then show ?thesis using True assms(1) by (simp add: block_copy_eq)
  next
    case False
    moreover have "s + 1 + (x - (d + 1)) \<noteq> d" if "unat (x - (d + 1)) < n"
    proof
      assume "s + 1 + (x - (d + 1)) = d"
      then have "d - s = x - d" by (simp add: algebra_simps)
      with assms(2) shift [OF False] that show False by simp
    qed
    ultimately show ?thesis using assms(1) shift [OF False] by (simp add: block_copy_eq)
  qed
qed

lemma block_copy_0 [simp]: "block_copy d s 0 m = m"
  by (simp add: block_copy_def)

lemma unat_u32_Suc: "Suc (unat i) < 2 ^ 32 \<Longrightarrow> unat (i + 1 :: u32) = Suc (unat i)"
  using unat_plus_no_wrap [of i 1] by simp

text \<open>The loop ends, whatever the two addresses are; how the memory changes is a matter of overlap.\<close>

lemma memcpy_from_total:
  "unat sz < 2 ^ 32 \<Longrightarrow> unat i + n = unat sz \<Longrightarrow> \<exists>m'. memcpy_from i p1 p2 sz m = Some m'"
proof (induction n arbitrary: i p1 p2 m)
  case 0
  then show ?case by (subst memcpy_from.simps) (simp add: word_less_nat_alt)
next
  case (Suc n)
  then show ?case by (subst memcpy_from.simps) (simp add: word_less_nat_alt unat_u32_Suc)
qed

lemma memcpy_from_block_copy:
  assumes "unat sz < 2 ^ 32" and "unat i + n = unat sz" and "\<not> (0 < unat (d - s) \<and> unat (d - s) < n)"
  shows "memcpy_from i d s sz m = Some (block_copy d s n m)"
  using assms(2,3)
proof (induction n arbitrary: i d s m)
  case 0
  then show ?case by (subst memcpy_from.simps) (simp add: word_less_nat_alt)
next
  case (Suc n)
  have "memcpy_from (i + 1) (d + 1) (s + 1) sz (m(d := m s)) =
      Some (block_copy (d + 1) (s + 1) n (m(d := m s)))"
    using Suc.prems assms(1) by (intro Suc.IH) (auto simp: unat_u32_Suc)
  also have "\<dots> = Some (block_copy d s (Suc n) m)"
    using Suc.prems assms(1) by (subst block_copy_step) auto
  finally show ?case
    using Suc.prems by (subst memcpy_from.simps) (simp add: word_less_nat_alt)
qed

lemma copy_backwards_block_copy:
  assumes "2 * n \<le> 2 ^ 64" and "unat (d - s) < n" and "k \<le> n"
  shows "copy_backwards k (d + of_nat k) (s + of_nat k) m = block_copy d s k m"
  using assms(3)
proof (induction k arbitrary: m)
  case (Suc k)
  let ?d = "d + of_nat k" and ?s = "s + of_nat k"
  have "copy_backwards (Suc k) (d + of_nat (Suc k)) (s + of_nat (Suc k)) m =
      block_copy d s k (m(?d := m ?s))"
    using Suc by (simp add: algebra_simps)
  also have "\<dots> = block_copy d s (Suc k) m"
  proof
    fix x
    have k: "unat (of_nat k :: u64) = k" using Suc.prems assms(1) by (simp add: unat_of_nat)
    have last: "x = ?d \<longleftrightarrow> unat (x - d) = k"
      proof
      assume "unat (x - d) = k"
      then have "x - d = of_nat k" using k by (simp add: word_unat_eq_iff)
      then show "x = ?d" by (simp add: algebra_simps)
    qed (use k in simp)
    have "s + (x - d) \<noteq> ?d" if "unat (x - d) < k"
    proof
      assume "s + (x - d) = ?d"
      then have "x - d = (d - s) + of_nat k" by (simp add: algebra_simps)
      moreover have "unat ((d - s) + of_nat k) = unat (d - s) + unat (of_nat k :: u64)"
        using assms Suc.prems k by (intro unat_plus_no_wrap) simp
      ultimately have "unat (x - d) = unat (d - s) + k" by (simp only: k)
      with that show False by simp
    qed
    then show "block_copy d s k (m(?d := m ?s)) x = block_copy d s (Suc k) m x"
      using Suc.prems assms(1) last by (auto simp: block_copy_eq less_Suc_eq)
  qed
  finally show ?case .
qed simp

text \<open>
  C37: \<open>memmove\<close> is right also when the two areas overlap: for up to \<open>2\<^sup>3\<^sup>2 - 1\<close> bytes
  it returns, and the destination holds what the source held before the call, nothing else
  having changed.
\<close>

theorem memmove_is_block_copy:
  assumes "unat len < 2 ^ 32"
  shows "memmove dst src len m = Some (block_copy dst src (unat len) m)"
proof -
  have same: "block_copy src src n m = m" if "n \<le> 2 ^ 64" for n
    using that by (auto simp: block_copy_eq)
  have forward: "memcpy_from 0 dst src len m = Some (block_copy dst src (unat len) m)" if "len \<le> dst - src"
    using assms that by (intro memcpy_from_block_copy) (auto simp: word_le_nat_alt)
  have "copy_backwards (unat len) (dst + of_nat (unat len)) (src + of_nat (unat len)) m
      = block_copy dst src (unat len) m" if "\<not> len \<le> dst - src"
    using assms that by (intro copy_backwards_block_copy [where n = "unat len"]) (auto simp: word_le_nat_alt)
  with same [of "unat len"] forward show ?thesis
    using assms by (auto simp: memmove_def memcpy_def)
qed

theorem memmove_is_block_copy_witness:
  "map (the (memmove 102 100 4 (\<lambda>a. ucast a))) [100, 101, 102, 103, 104, 105, 106] = [100, 101, 100, 101, 102, 103, 106]"
  using memmove_is_block_copy [of 4 102 100 "\<lambda>a. ucast a"] by (simp add: block_copy_eq unsigned_minus_1_eq_mask mask_eq_exp_minus_1)

text \<open>
  \<open>memcpy\<close> does not return for \<open>2\<^sup>3\<^sup>2\<close> bytes or more, because the counter of its loop
  has 32 bits, and returns for fewer.
\<close>

theorem memcpy_returns_iff:
  "memcpy dest src sz m = None \<longleftrightarrow> unat sz \<ge> 2 ^ 32"
proof (cases "unat sz < 2 ^ 32")
  case True
  then show ?thesis
    using memcpy_from_total [of sz 0 "unat sz" dest src m] by (auto simp: memcpy_def)
next
  case False
  then show ?thesis
    using memcpy_from_ends [of 0 dest src sz m]
    by (cases "memcpy_from 0 dest src sz m") (simp_all add: memcpy_def)
qed

lemma memset_from_eq:
  "n \<le> 2 ^ 64 \<Longrightarrow> memset_from n a v m = mem_write m a (replicate n v)"
  by (induction n arbitrary: a m) simp_all

lemma memset_fills: "memset dst val count m = mem_write m dst (replicate (unat count) (word_of_int val))"
  by (simp add: memset_def memset_from_eq less_imp_le [OF unsigned_less [of count, simplified]])

subsection \<open>The string routines on lists\<close>

lemma c_str_simps [simp]:
  "c_str [] = []" "c_str (c # s) = (if c = 0 then [] else c # c_str s)"
  by (simp_all add: c_str_def)

lemma strlen_c_str: "strlen s = length (c_str s)"
  by (induction s) simp_all

lemma strnlen_c_str: "strnlen n s = min n (length (c_str s))"
proof (induction n arbitrary: s)
  case (Suc n)
  then show ?case by (cases s) auto
qed simp

lemma strcmp_simps [simp]:
  "strcmp [] [] = 0"
  "strcmp [] (b # t) = - uint b"
  "strcmp (a # s) [] = uint a"
  "strcmp (a # s) (b # t) = (if a = b then if a = 0 then 0 else strcmp s t else uint a - uint b)"
  by (subst strcmp.simps, simp)+

lemma strchr_simps [simp]:
  "strchr [] c = (if c = 0 then Some 0 else None)"
  "strchr (a # s) c = (if a = c then Some 0 else if a = 0 then None else map_option Suc (strchr s c))"
  by (subst strchr.simps, simp)+

lemma strspn_simps [simp]:
  "strspn [] acc = 0"
  "strspn (a # s) acc = (if a \<noteq> 0 \<and> strchr acc a \<noteq> None then Suc (strspn s acc) else 0)"
  by (subst strspn.simps, simp)+

lemma strcspn_simps [simp]:
  "strcspn [] acc = 0"
  "strcspn (a # s) acc = (if a \<noteq> 0 \<and> strchr acc a = None then Suc (strcspn s acc) else 0)"
  by (subst strcspn.simps, simp)+

lemma strcpy_simps [simp]:
  "strcpy [] = [0]" "strcpy (a # s) = a # (if a \<noteq> 0 then strcpy s else [])"
  by (subst strcpy.simps, simp)+

lemma strcmp_eq_0: "strcmp s1 s2 = 0 \<longleftrightarrow> c_str s1 = c_str s2"
proof (induction s1 arbitrary: s2)
  case Nil
  then show ?case by (cases s2) (auto simp: word_uint_eq_iff)
next
  case (Cons a s1)
  then show ?case by (cases s2) (auto simp: word_uint_eq_iff)
qed

lemma strncmp_eq_0: "strncmp n s1 s2 = 0 \<longleftrightarrow> take n (c_str s1) = take n (c_str s2)"
proof (induction n arbitrary: s1 s2)
  case (Suc n)
  then show ?case
    by (cases s1; cases s2) (auto simp: word_uint_eq_iff split: if_splits)
qed simp

lemma strchr_in: "c \<noteq> 0 \<Longrightarrow> strchr s c = None \<longleftrightarrow> c \<notin> set (c_str s)"
  by (induction s) auto

lemma strchr_first: "strchr s c = Some i \<Longrightarrow> c \<noteq> 0 \<Longrightarrow> i < length (c_str s) \<and> c_str s ! i = c \<and> c \<notin> set (take i (c_str s))"
  by (induction s arbitrary: i) (auto split: if_splits)

lemma strspn_c_str: "strspn s acc = length (takeWhile (\<lambda>c. c \<in> set (c_str acc)) (c_str s))"
  by (induction s) (auto simp: strchr_in simp del: not_None_eq)

lemma strcspn_c_str: "strcspn s rej = length (takeWhile (\<lambda>c. c \<notin> set (c_str rej)) (c_str s))"
  by (induction s) (auto simp: strchr_in simp del: not_None_eq)

lemma strcpy_c_str: "strcpy s = c_str s @ [0]"
  by (induction s) auto

end
