(* ===== verification/Printf.thy ===== *)
theory Printf
  imports Cstring Uuid
begin

text \<open>
  Numbers and UUIDs as text: \<open>snprintf\<close> and \<open>strtoul\<close> of \<open>src/lib/libc\<close>, and on top of them
  \<open>uuid_unparse\<close> and \<open>uuid_parse\<close> of \<open>src/lib/uuid\<close>. A string is the list of its bytes;
  string literals are converted by \<open>bytes\<close>. \<open>snprintf\<close> spins forever on a conversion it
  does not know, which is the result \<open>None\<close>.
\<close>

definition bytes :: "string \<Rightarrow> u8 list" where
  "bytes s = map of_char s"

subsection \<open>\<open>snprintf\<close>\<close>

datatype printf_arg = Int_arg u32 | Str_arg "u8 list"

text \<open>
  What has been stored at \<open>s\<close> so far, and \<open>chars_printed\<close>. The string and decimal printers
  respect the bound \<open>n\<close>, the hexadecimal one does not have it as an argument.
\<close>

type_synonym print_st = "u8 list \<times> nat"

fun put_bounded :: "nat \<Rightarrow> u8 \<Rightarrow> print_st \<Rightarrow> print_st" where
  "put_bounded n c (out, chars_printed) =
     (if chars_printed < n then out @ [c] else out, chars_printed + 1)"

fun put_unbounded :: "u8 \<Rightarrow> print_st \<Rightarrow> print_st" where
  "put_unbounded c (out, chars_printed) = (out @ [c], chars_printed + 1)"

definition string_print :: "nat \<Rightarrow> u8 list \<Rightarrow> print_st \<Rightarrow> print_st" where
  "string_print n str st = fold (put_bounded n) (c_str str) st"

text \<open>The digits \<open>unum % radix\<close>, the last one first; the radix is 10 or 16.\<close>

lemma div_decreases [termination_simp]: "0 < unum div radix \<Longrightarrow> Suc 0 < radix \<Longrightarrow> unum div radix < (unum :: nat)"
  by (cases "unum = 0") simp_all

fun digits :: "nat \<Rightarrow> nat \<Rightarrow> nat list" where
  "digits radix unum =
     unum mod radix # (if unum div radix > 0 \<and> radix > 1 then digits radix (unum div radix) else [])"

declare digits.simps [simp del]

definition digit_char :: "nat \<Rightarrow> u8" where
  "digit_char rem = (if rem < 10 then 48 + of_nat rem else 97 + (of_nat rem - 10))"

definition unsigned_dec_print :: "nat \<Rightarrow> u32 \<Rightarrow> print_st \<Rightarrow> print_st" where
  "unsigned_dec_print n unum st =
     fold (put_bounded n) (rev (map (\<lambda>rem. 48 + of_nat rem) (digits 10 (unat unum)))) st"

definition unsigned_num_print :: "u64 \<Rightarrow> nat \<Rightarrow> u8 \<Rightarrow> int \<Rightarrow> print_st \<Rightarrow> print_st" where
  "unsigned_num_print unum radix padc padn st =
     (let num_buf = map digit_char (digits radix (unat unum)); i = length num_buf;
          st = (if padn > 0 then fold put_unbounded (replicate (nat (padn - int i)) padc) st else st)
      in fold put_unbounded (rev num_buf) st)"

text \<open>The digits after a \<open>0\<close> flag: the pad width and the rest of the format.\<close>

fun fmt_width :: "int \<Rightarrow> u8 list \<Rightarrow> int \<times> u8 list" where
  "fmt_width padn [] = (padn, [])"
| "fmt_width padn (ch # fmt) =
     (if ch < 48 \<or> ch > 57 then (padn, ch # fmt)
      else fmt_width (padn * 10 + (uint ch - 48)) fmt)"

text \<open>
  The label \<open>snprintf_loop\<close>: pad character, pad width and the format at the conversion
  character. Behind the digits there is no second flag.
\<close>

definition fmt_flag :: "u8 \<Rightarrow> u8 list \<Rightarrow> u8 \<times> int \<times> u8 list" where
  "fmt_flag padc fmt =
     (if deref fmt = 48 then (48, fmt_width 0 (tl fmt)) else (padc, 0, fmt))"

text \<open>One conversion; the arguments left.\<close>

fun convert :: "nat \<Rightarrow> u8 \<Rightarrow> u8 \<Rightarrow> int \<Rightarrow> printf_arg list \<Rightarrow> print_st \<Rightarrow> (printf_arg list \<times> print_st) option" where
  "convert n k padc padn (Int_arg a # args) st =
     (if k = 105 \<or> k = 100 then
        (if sint a < 0 then Some (args, unsigned_dec_print n (- a) (put_bounded n 45 st))
         else Some (args, unsigned_dec_print n a st))
      else if k = 117 then Some (args, unsigned_dec_print n a st)
      else if k = 120 then Some (args, unsigned_num_print (ucast a) 16 padc padn st)
      else None)"
| "convert n k padc padn (Str_arg str # args) st =
     (if k = 115 then Some (args, string_print n str st) else None)"
| "convert n k padc padn [] st = None"

lemma fmt_width_length: "length (snd (fmt_width padn fmt)) \<le> length fmt"
  by (induction padn fmt rule: fmt_width.induct) auto

lemma fmt_flag_length [termination_simp]:
  "(padc', padn, k # fmt') = fmt_flag padc fmt \<Longrightarrow> length fmt' < length fmt"
proof -
  assume flag: "(padc', padn, k # fmt') = fmt_flag padc fmt"
  then have "length (k # fmt') \<le> length fmt"
    using fmt_width_length [of 0 "tl fmt"] by (cases fmt) (auto simp: fmt_flag_def split: if_splits dest: sym)
  then show ?thesis by simp
qed

fun snprintf_loop :: "nat \<Rightarrow> u8 \<Rightarrow> u8 list \<Rightarrow> printf_arg list \<Rightarrow> print_st \<Rightarrow> print_st option" where
  "snprintf_loop n padc [] args st = Some st"
| "snprintf_loop n padc (c # fmt) args st =
     (if c = 37 then
        (case fmt_flag padc fmt of
           (padc, padn, []) \<Rightarrow> None
         | (padc, padn, k # fmt) \<Rightarrow>
             (case convert n k padc padn args st of
                None \<Rightarrow> None
              | Some (args, st) \<Rightarrow> snprintf_loop n padc fmt args st))
      else snprintf_loop n padc fmt args (put_bounded n c st))"

text \<open>The result and the bytes stored from \<open>s\<close> on.\<close>

definition snprintf :: "nat \<Rightarrow> u8 list \<Rightarrow> printf_arg list \<Rightarrow> (int \<times> u8 list) option" where
  "snprintf n fmt args =
     (let n' = n - 1 in
      case snprintf_loop n' 0 fmt args ([], 0) of
        None \<Rightarrow> None
      | Some (out, chars_printed) \<Rightarrow>
          Some (int chars_printed,
                if n' > 0 then out @ [0] else if n = 1 \<and> out = [] then [0] else out))"

subsection \<open>\<open>strtoul\<close>\<close>

text \<open>
  The loop over the digits: \<open>any\<close>, the accumulator and the rest of the string. The value of
  a character is computed in an \<open>unsigned char\<close>.
\<close>

definition digit_value :: "u8 \<Rightarrow> u8 option" where
  "digit_value c =
     (if \<not> isascii c then None
      else if isdigit c then Some (c - 48)
      else if isalpha c then Some (c - (if isupper c then 65 - 10 else 97 - 10))
      else None)"

fun strtoul_digits :: "u64 \<Rightarrow> u64 \<Rightarrow> u64 \<Rightarrow> int \<Rightarrow> u64 \<Rightarrow> u8 list \<Rightarrow> int \<times> u64 \<times> u8 list" where
  "strtoul_digits base cutoff cutlim any acc [] = (any, acc, [])"
| "strtoul_digits base cutoff cutlim any acc (c # s) =
     (case digit_value c of
        None \<Rightarrow> (any, acc, c # s)
      | Some c' \<Rightarrow>
          if ucast c' \<ge> base then (any, acc, c # s)
          else if any < 0 \<or> acc > cutoff \<or> (acc = cutoff \<and> ucast c' > cutlim)
          then strtoul_digits base cutoff cutlim (-1) acc s
          else strtoul_digits base cutoff cutlim 1 (acc * base + ucast c') s)"

text \<open>The value and the offset \<open>*endptr\<close> points to.\<close>

definition strtoul :: "u8 list \<Rightarrow> u64 \<Rightarrow> u64 \<times> nat" where
  "strtoul nptr base =
     (let s = dropWhile isspace nptr;
          neg = (deref s = 45);
          s = (if deref s = 45 \<or> deref s = 43 then tl s else s);
          hex = ((base = 0 \<or> base = 16) \<and> deref s = 48 \<and> (deref (tl s) = 120 \<or> deref (tl s) = 88));
          s = (if hex then drop 2 s else s);
          base = (if hex then 16 else base);
          base = (if base = 0 then if deref s = 48 then 8 else 10 else base);
          cutoff = -1 div base; cutlim = -1 mod base
      in case strtoul_digits base cutoff cutlim 0 0 s of (any, acc, rest) \<Rightarrow>
         (if any < 0 then -1 else if neg then - acc else acc,
          if any \<noteq> 0 then length nptr - length rest else 0))"

subsection \<open>UUIDs as text\<close>

definition fmt_lower :: "u8 list" where
  "fmt_lower = bytes ''%08x-%04x-%04x-%02x%02x-%02x%02x%02x%02x%02x%02x''"

definition fmt_upper :: "u8 list" where
  "fmt_upper = bytes ''%08X-%04X-%04X-%02X%02X-%02X%02X%02X%02X%02X%02X''"

text \<open>The bytes stored to \<open>out\<close>.\<close>

definition uuid_unparse_x :: "uuid_t \<Rightarrow> u8 list \<Rightarrow> u8 list option" where
  "uuid_unparse_x uu fmt =
     (let u = uuid_unpack uu in
      map_option snd (snprintf 37 fmt
        (map Int_arg [time_low u, ucast (time_mid u), ucast (time_hi_and_version u),
           ucast (drop_bit 8 (clock_seq u)), ucast (clock_seq u AND 0xFF),
           ucast (node u ! 0), ucast (node u ! 1), ucast (node u ! 2),
           ucast (node u ! 3), ucast (node u ! 4), ucast (node u ! 5)])))"

definition uuid_unparse_lower :: "uuid_t \<Rightarrow> u8 list option" where
  "uuid_unparse_lower uu = uuid_unparse_x uu fmt_lower"

definition uuid_unparse_upper :: "uuid_t \<Rightarrow> u8 list option" where
  "uuid_unparse_upper uu = uuid_unparse_x uu fmt_upper"

definition uuid_unparse :: "uuid_t \<Rightarrow> u8 list option" where
  "uuid_unparse uu = uuid_unparse_x uu fmt_lower"

text \<open>The check of the 36 characters, at position \<open>i\<close>, and the terminator.\<close>

fun uuid_text_ok :: "nat \<Rightarrow> u8 list \<Rightarrow> bool" where
  "uuid_text_ok i [] = True"
| "uuid_text_ok i (c # cp) =
     ((if i = 8 \<or> i = 13 \<or> i = 18 \<or> i = 23 then c = 45 else isxdigit c) \<and> uuid_text_ok (i + 1) cp)"

definition uuid_parse :: "u8 list \<Rightarrow> uuid_t option" where
  "uuid_parse s =
     (if strlen s \<noteq> 36 then None
      else if \<not> uuid_text_ok 0 s then None
      else Some (uuid_pack
        \<lparr>time_low = ucast (fst (strtoul s 16)),
         time_mid = ucast (fst (strtoul (drop 9 s) 16)),
         time_hi_and_version = ucast (fst (strtoul (drop 14 s) 16)),
         clock_seq = ucast (fst (strtoul (drop 19 s) 16)),
         node = map (\<lambda>i. ucast (fst (strtoul (window (24 + 2 * i) 2 s) 16))) [0..<6]\<rparr>))"

subsection \<open>Hexadecimal numbers of fixed width\<close>

primrec hex :: "nat \<Rightarrow> nat \<Rightarrow> u8 list" where
  "hex 0 v = []"
| "hex (Suc k) v = hex k (v div 16) @ [digit_char (v mod 16)]"

lemma length_hex [simp]: "length (hex k v) = k"
  by (induction k arbitrary: v) simp_all

lemma hex_0: "hex k 0 = replicate k 48"
  by (induction k) (simp_all add: digit_char_def replicate_append_same)

lemma digits_length: "v < 16 ^ k \<Longrightarrow> 0 < k \<Longrightarrow> length (digits 16 v) \<le> k"
proof (induction k arbitrary: v)
  case (Suc k)
  show ?case
  proof (cases "v div 16 > 0")
    case True
    then have "0 < k" using Suc.prems by (cases k) auto
    then have "length (digits 16 (v div 16)) \<le> k" using Suc by (intro Suc.IH) auto
    then show ?thesis by (subst digits.simps) simp
  qed (subst digits.simps, simp)
qed simp

text \<open>Padding with zeros gives the number in the width.\<close>

lemma hex_pad:
  "v < 16 ^ k \<Longrightarrow> 0 < k \<Longrightarrow>
   replicate (k - length (digits 16 v)) 48 @ rev (map digit_char (digits 16 v)) = hex k v"
proof (induction k arbitrary: v)
  case (Suc k)
  show ?case
  proof (cases "v div 16 > 0")
    case True
    then have "0 < k" using Suc.prems by (cases k) auto
    then have "replicate (k - length (digits 16 (v div 16))) 48 @ rev (map digit_char (digits 16 (v div 16))) = hex k (v div 16)"
      using Suc by (intro Suc.IH) auto
    then show ?thesis using True by (subst (1 2) digits.simps) simp
  next
    case False
    then show ?thesis by (subst (1 2) digits.simps) (simp add: hex_0)
  qed
qed simp

lemma fold_put_unbounded: "fold put_unbounded cs (out, c) = (out @ cs, c + length cs)"
  by (induction cs arbitrary: out c) simp_all

lemma unsigned_num_print_hex:
  assumes "unat v < 16 ^ k" and "0 < k"
  shows "unsigned_num_print v 16 48 (int k) (out, c) = (out @ hex k (unat v), c + k)"
proof -
  have len: "length (digits 16 (unat v)) \<le> k" by (rule digits_length [OF assms])
  have "nat (int k - int (length (digits 16 (unat v)))) = k - length (digits 16 (unat v))" using len by simp
  then show ?thesis
    using assms len
    by (simp add: unsigned_num_print_def Let_def fold_put_unbounded del: fold_replicate flip: hex_pad [OF assms])
qed

lemma digit_chars:
  "\<forall>d\<in>set [0..<16]. digit_value (digit_char d) = Some (of_nat d) \<and> isxdigit (digit_char d) \<and>
     digit_char d \<notin> set [0, 32, 43, 45, 88, 120] \<and> \<not> isspace (digit_char d)"
  by code_simp

lemma digit_value_digit_char:
  assumes "d < 16"
  shows "digit_value (digit_char d) = Some (of_nat d)" and "isxdigit (digit_char d)"
    and "digit_char d \<notin> {0, 32, 43, 45, 88, 120}" and "\<not> isspace (digit_char d)"
  using digit_chars assms by simp_all

lemma hex_chars: "c \<in> set (hex k v) \<Longrightarrow> \<exists>d<16. c = digit_char d"
proof (induction k arbitrary: v)
  case (Suc k)
  then consider "c \<in> set (hex k (v div 16))" | "c = digit_char (v mod 16)" by auto
  then show ?case
  proof cases
    case 2 then show ?thesis by (intro exI [of _ "v mod 16"]) simp
  qed (rule Suc.IH)
qed simp

lemma hex_shift: "16 * x + y < 2 ^ 64 \<Longrightarrow> x < (2 ^ 60 :: nat)"
  by simp

lemma small_digit:
  assumes "d < 16"
  shows "(ucast (of_nat d :: u8) :: u64) = of_nat d" and "\<not> (of_nat d :: u64) \<ge> 16" and "\<not> (of_nat d :: u64) > 15"
proof -
  have "unat (of_nat d :: u64) = d" "unat (ucast (of_nat d :: u8) :: u64) = d"
    using assms by (simp_all add: unat_of_nat)
  then show "(ucast (of_nat d :: u8) :: u64) = of_nat d" "\<not> (of_nat d :: u64) \<ge> 16" "\<not> (of_nat d :: u64) > 15"
    using assms by (simp_all add: word_unat_eq_iff word_le_nat_alt word_less_nat_alt)
qed

lemma strtoul_digits_step:
  assumes "d < 16" and "a < 2 ^ 60" and "0 \<le> any"
  shows "strtoul_digits 16 0xfffffffffffffff 15 any (of_nat a) (digit_char d # rest) =
    strtoul_digits 16 0xfffffffffffffff 15 1 (of_nat a * 16 + of_nat d) rest"
proof -
  have "unat (of_nat a :: u64) = a" using assms(2) by (simp add: unat_of_nat)
  then have "\<not> (of_nat a :: u64) > 0xfffffffffffffff" using assms(2) by (simp add: word_less_nat_alt)
  then show ?thesis
    using assms(3) small_digit [OF assms(1)] by (simp add: digit_value_digit_char(1) [OF assms(1)])
qed

lemma strtoul_digits_hex:
  assumes "0 \<le> any" and "v < 16 ^ k" and "a * 16 ^ k + v < 2 ^ 64"
  shows "strtoul_digits 16 0xfffffffffffffff 15 any (of_nat a) (hex k v @ rest) =
    strtoul_digits 16 0xfffffffffffffff 15 (if k = 0 then any else 1) (of_nat (a * 16 ^ k + v)) rest"
  using assms(2,3)
proof (induction k arbitrary: v rest)
  case (Suc k)
  let ?a = "a * 16 ^ k + v div 16" and ?d = "v mod 16"
  have split: "16 * ?a + ?d = a * 16 ^ Suc k + v"
    by (simp add: distrib_left)
  have d: "?d < 16" by simp
  have "16 * ?a + ?d < 2 ^ 64" using Suc.prems(2) unfolding split .
  then have a: "?a < 2 ^ 60" by (rule hex_shift)
  have next_acc: "(of_nat ?a * 16 + of_nat ?d :: u64) = of_nat (a * 16 ^ Suc k + v)"
    unfolding split [symmetric] by (simp only: of_nat_add of_nat_mult of_nat_numeral mult.commute)
  have IH: "strtoul_digits 16 0xfffffffffffffff 15 any (of_nat a) (hex k (v div 16) @ (digit_char ?d # rest)) =
    strtoul_digits 16 0xfffffffffffffff 15 (if k = 0 then any else 1) (of_nat ?a) (digit_char ?d # rest)"
    using Suc.prems(1) a by (intro Suc.IH) auto
  have "strtoul_digits 16 0xfffffffffffffff 15 any (of_nat a) (hex (Suc k) v @ rest) =
    strtoul_digits 16 0xfffffffffffffff 15 (if k = 0 then any else 1) (of_nat ?a) (digit_char ?d # rest)"
    using IH by simp
  also have "\<dots> = strtoul_digits 16 0xfffffffffffffff 15 1 (of_nat ?a * 16 + of_nat ?d) rest"
    by (rule strtoul_digits_step [OF d a]) (simp add: assms(1))
  finally show ?case unfolding next_acc by simp
qed simp

text \<open>\<open>strtoul\<close> in base 16 reads such a number, up to the first character that is no digit.\<close>

lemma strtoul_hex:
  assumes "0 < k" and "v < 16 ^ k" and "k \<le> 16" and "rest = [] \<or> hd rest = 45"
  shows "strtoul (hex k v @ rest) 16 = (of_nat v, k)"
proof -
  obtain c s where cs: "hex k v = c # s" using assms(1) by (cases "hex k v") (auto dest: arg_cong [of _ _ length])
  have chars: "\<exists>d<16. x = digit_char d" if "x \<in> set (hex k v)" for x using hex_chars that by blast
  have c: "c \<notin> {0, 32, 43, 45, 88, 120} \<and> \<not> isspace c"
    using chars [of c] cs digit_value_digit_char(3,4) by auto
  have next_char: "deref (s @ rest) \<notin> {88, 120}"
  proof (cases s)
    case Nil then show ?thesis using assms(4) by (cases rest) auto
  next
    case (Cons x xs) then show ?thesis using chars [of x] cs digit_value_digit_char(3) by auto
  qed
  have stop: "strtoul_digits 16 0xfffffffffffffff 15 1 a rest = (1, a, rest)" for a
    using assms(4) by (cases rest) (auto simp: digit_value_def isdigit_def isalpha_def isupper_def islower_def)
  have "v < 2 ^ 64"
    using assms(2,3) power_increasing [of k 16 "16 :: nat"] by simp
  then have loop: "strtoul_digits 16 0xfffffffffffffff 15 0 0 (hex k v @ rest) = (1, of_nat v, rest)"
    using strtoul_digits_hex [of 0 v k 0 rest] assms(1,2) stop by simp
  have div16: "(-1 :: u64) div 16 = 0xfffffffffffffff" "(-1 :: u64) mod 16 = 15" by simp_all
  have start: "dropWhile isspace (hex k v @ rest) = hex k v @ rest" "deref (hex k v @ rest) = c"
    "tl (hex k v @ rest) = s @ rest"
    using c by (simp_all add: cs)
  show ?thesis
    using c next_char by (simp add: strtoul_def start loop div16 Let_def)
qed

subsection \<open>Printing and parsing a UUID\<close>

lemma fmt_lower_eq:
  "fmt_lower = [37, 48, 56, 120, 45, 37, 48, 52, 120, 45, 37, 48, 52, 120, 45,
     37, 48, 50, 120, 37, 48, 50, 120, 45, 37, 48, 50, 120, 37, 48, 50, 120, 37, 48, 50, 120,
     37, 48, 50, 120, 37, 48, 50, 120, 37, 48, 50, 120]"
  by code_simp

lemma fmt_upper_eq: "\<exists>fmt. fmt_upper = 37 # 48 # 56 # 88 # fmt"
  by (simp add: fmt_upper_def bytes_def)

lemma snprintf_loop_hex:
  assumes "unat a < 16 ^ k" and "0 < k" and "fmt_flag padc fmt = (48, int k, 120 # fmt')"
  shows "snprintf_loop n padc (37 # fmt) (Int_arg a # args) (out, c) =
    snprintf_loop n 48 fmt' args (out @ hex k (unat a), c + k)"
  using assms(3) unsigned_num_print_hex [of "ucast a" k out c] assms(1,2) by simp

lemma fmt_flag_widths:
  "fmt_flag padc (48 # 56 # 120 # fmt) = (48, int 8, 120 # fmt)"
  "fmt_flag padc (48 # 52 # 120 # fmt) = (48, int 4, 120 # fmt)"
  "fmt_flag padc (48 # 50 # 120 # fmt) = (48, int 2, 120 # fmt)"
  by (simp_all add: fmt_flag_def)

definition uuid_text :: "uuid_t \<Rightarrow> u8 list" where
  "uuid_text uu =
     (let u = uuid_unpack uu; b = (\<lambda>i. hex 2 (unat (node u ! i))) in
      hex 8 (unat (time_low u)) @ 45 # hex 4 (unat (time_mid u)) @ 45 # hex 4 (unat (time_hi_and_version u)) @ 45 #
      hex 2 (unat (drop_bit 8 (clock_seq u))) @ hex 2 (unat (clock_seq u AND 0xFF)) @ 45 #
      b 0 @ b 1 @ b 2 @ b 3 @ b 4 @ b 5)"

lemma unat_word_less: "unat (w :: 'a::len word) < 2 ^ LENGTH('a)"
  by (rule unsigned_less)

lemma clock_seq_bytes:
  "unat (drop_bit 8 (b :: u16)) = unat b div 256" "unat (b AND 0xFF) = unat b mod 256"
proof -
  have "unat (drop_bit 8 b) = drop_bit 8 (unat b)" using unat_word_less [of b] by (simp add: unsigned_drop_bit_eq take_bit_nat_eq_self)
  then show "unat (drop_bit 8 b) = unat b div 256" by (simp add: drop_bit_eq_div)
  have "b AND 0xFF = take_bit 8 b" by (simp add: take_bit_eq_mask mask_eq_exp_minus_1)
  then show "unat (b AND 0xFF) = unat b mod 256" by (simp add: take_bit_eq_mod unat_mod)
qed

lemma snprintf_loop_fields:
  "snprintf_loop n padc (37 # 48 # 56 # 120 # fmt) (Int_arg a # args) (out, c) =
     snprintf_loop n 48 fmt args (out @ hex 8 (unat a), c + 8)"
  "snprintf_loop n padc (37 # 48 # 52 # 120 # fmt) (Int_arg (ucast (b :: u16)) # args) (out, c) =
     snprintf_loop n 48 fmt args (out @ hex 4 (unat b), c + 4)"
  "snprintf_loop n padc (37 # 48 # 50 # 120 # fmt) (Int_arg (ucast (d :: u8)) # args) (out, c) =
     snprintf_loop n 48 fmt args (out @ hex 2 (unat d), c + 2)"
  "snprintf_loop n padc (37 # 48 # 50 # 120 # fmt) (Int_arg (ucast (drop_bit 8 b)) # args) (out, c) =
     snprintf_loop n 48 fmt args (out @ hex 2 (unat b div 256), c + 2)"
  "snprintf_loop n padc (37 # 48 # 50 # 120 # fmt) (Int_arg (ucast (b AND 0xFF)) # args) (out, c) =
     snprintf_loop n 48 fmt args (out @ hex 2 (unat b mod 256), c + 2)"
  using snprintf_loop_hex [OF _ _ fmt_flag_widths(1), of a n padc fmt args out c]
    snprintf_loop_hex [OF _ _ fmt_flag_widths(2), of "ucast b" n padc fmt args out c]
    snprintf_loop_hex [OF _ _ fmt_flag_widths(3), of "ucast d" n padc fmt args out c]
    snprintf_loop_hex [OF _ _ fmt_flag_widths(3), of "ucast (drop_bit 8 b)" n padc fmt args out c]
    snprintf_loop_hex [OF _ _ fmt_flag_widths(3), of "ucast (b AND 0xFF)" n padc fmt args out c]
    unat_word_less [of a] unat_word_less [of b] unat_word_less [of d]
  by (simp_all add: clock_seq_bytes del: snprintf_loop.simps)

lemma snprintf_loop_dash:
  "c < n \<Longrightarrow> snprintf_loop n padc (45 # fmt) args (out, c) = snprintf_loop n padc fmt args (out @ [45], c + 1)"
  by simp

lemma uuid_unparse_text: "uuid_unparse uu = Some (uuid_text uu @ [0])"
  by (simp add: uuid_unparse_def uuid_unparse_x_def snprintf_def fmt_lower_eq Let_def uuid_text_def
      snprintf_loop_fields snprintf_loop_dash clock_seq_bytes del: snprintf_loop.simps(2))

lemma hex_4: "hex 2 (x div 256) @ hex 2 (x mod 256) = hex 4 x"
proof -
  have "x mod 256 mod 16 = x mod 16" by (rule mod_mod_cancel) simp
  moreover have "x mod 256 div 16 mod 16 = x div 16 mod 16"
    by (simp add: mod_mult2_eq [of x 16 16, simplified])
  moreover have "x div 256 = x div 16 div 16" by (simp flip: div_mult2_eq)
  moreover have two: "hex 2 y = [digit_char (y div 16 mod 16), digit_char (y mod 16)]" for y
    by (simp add: numeral_2_eq_2)
  moreover have "hex 4 x = hex 2 (x div 16 div 16) @ [digit_char (x div 16 mod 16), digit_char (x mod 16)]"
    using hex.simps(2) [of 3 x] hex.simps(2) [of 2 "x div 16"] by simp
  ultimately show ?thesis by simp
qed

lemma uuid_text_ok_append:
  "uuid_text_ok i (xs @ ys) \<longleftrightarrow> uuid_text_ok i xs \<and> uuid_text_ok (i + length xs) ys"
  by (induction xs arbitrary: i) auto

lemma uuid_text_ok_digits:
  "\<forall>c\<in>set cs. isxdigit c \<Longrightarrow> {i..<i + length cs} \<inter> {8, 13, 18, 23} = {} \<Longrightarrow> uuid_text_ok i cs"
proof (induction cs arbitrary: i)
  case (Cons c cs)
  have sub: "{Suc i..<Suc i + length cs} \<subseteq> {i..<i + length (c # cs)}" "i \<in> {i..<i + length (c # cs)}" by auto
  then have "uuid_text_ok (Suc i) cs" using Cons.prems by (intro Cons.IH) auto
  moreover have "i \<notin> {8, 13, 18, 23}" using sub(2) Cons.prems(2) by blast
  ultimately show ?case using Cons.prems(1) by simp
qed simp

lemma uuid_text_ok_hex: "{i..<i + k} \<inter> {8, 13, 18, 23} = {} \<Longrightarrow> uuid_text_ok i (hex k v)"
proof (rule uuid_text_ok_digits)
  show "\<forall>c\<in>set (hex k v). isxdigit c"
  proof
    fix c assume "c \<in> set (hex k v)"
    then obtain d where "d < 16" "c = digit_char d" using hex_chars by blast
    then show "isxdigit c" by (simp add: digit_value_digit_char(2))
  qed
qed simp

lemma zero_not_hex: "0 \<notin> set (hex k v)"
proof
  assume "0 \<in> set (hex k v)"
  then obtain d where "d < 16" "0 = digit_char d" using hex_chars by blast
  then show False using digit_value_digit_char(3) [of d] by simp
qed

lemma strlen_all: "0 \<notin> set s \<Longrightarrow> strlen s = length s"
  by (induction s) auto

lemma uuid_text_valid: "strlen (uuid_text uu) = 36" "uuid_text_ok 0 (uuid_text uu)"
proof -
  have "0 \<notin> set (uuid_text uu)" using zero_not_hex by (simp add: uuid_text_def Let_def)
  then show "strlen (uuid_text uu) = 36" by (simp add: strlen_all) (simp add: uuid_text_def Let_def)
  show "uuid_text_ok 0 (uuid_text uu)"
    by (simp add: uuid_text_def Let_def uuid_text_ok_append uuid_text_ok_hex)
qed

lemma strtoul_fields:
  "strtoul (hex 8 (unat (a :: u32)) @ 45 # rest) 16 = (of_nat (unat a), 8)"
  "strtoul (hex 4 (unat (b :: u16)) @ 45 # rest) 16 = (of_nat (unat b), 4)"
  "strtoul (hex 2 (unat (d :: u8))) 16 = (of_nat (unat d), 2)"
  using strtoul_hex [of 8 "unat a" "45 # rest"] strtoul_hex [of 4 "unat b" "45 # rest"] strtoul_hex [of 2 "unat d" "[]"]
    unat_word_less [of a] unat_word_less [of b] unat_word_less [of d] by simp_all

lemma ucast_of_unat: "LENGTH('a) \<le> 64 \<Longrightarrow> (ucast (of_nat (unat w) :: u64) :: 'a::len word) = w"
proof -
  assume le: "LENGTH('a) \<le> 64"
  then have "unat w < 2 ^ 64"
    using less_le_trans [OF unat_word_less [of w] power_increasing [of "LENGTH('a)" 64 "2 :: nat"]] by simp
  then show ?thesis
    using le by (simp add: word_unat_eq_iff unsigned_ucast_eq unsigned_of_nat take_bit_nat_eq_self unsigned_less
        take_bit_word_eq_self)
qed

lemma ucast_down_up: "LENGTH('a) \<le> 64 \<Longrightarrow> (ucast (ucast w :: u64) :: 'a::len word) = w"
  using ucast_of_unat [of w] by simp

lemma window_concat:
  assumes "\<And>x. x \<in> set xs \<Longrightarrow> length (f x) = k" and "i < length xs"
  shows "window (k * i) k (concat (map f xs)) = f (xs ! i)"
  using assms
proof (induction xs arbitrary: i)
  case (Cons x xs)
  then show ?case by (cases i) (auto simp: window_def)
qed simp

lemma uuid_text_fields:
  "uuid_text uu =
     (let u = uuid_unpack uu in
      hex 8 (unat (time_low u)) @ 45 # hex 4 (unat (time_mid u)) @ 45 # hex 4 (unat (time_hi_and_version u)) @ 45 #
      hex 4 (unat (clock_seq u)) @ 45 # concat (map (\<lambda>i. hex 2 (unat (node u ! i))) [0..<6]))"
proof -
  have "[0..<6] = [0, 1, 2, 3, 4, 5 :: nat]" by code_simp
  then show ?thesis by (simp add: uuid_text_def Let_def clock_seq_bytes del: upt.simps flip: hex_4)
qed

lemma uuid_parse_text:
  assumes "uuid_ok uu"
  shows "uuid_parse (uuid_text uu) = Some uu"
proof -
  let ?u = "uuid_unpack uu" and ?nodes = "concat (map (\<lambda>i. hex 2 (unat (node (uuid_unpack uu) ! i))) [0..<6])"
  have len: "length (node ?u) = 6" using assms by (simp add: uuid_unpack_def uuid_ok_def)
  have "window (24 + 2 * i) 2 (uuid_text uu) = hex 2 (unat (node ?u ! i))" if "i < 6" for i
  proof -
    obtain pre where "uuid_text uu = pre @ ?nodes" "length pre = 24"
      using that by (simp add: uuid_text_fields Let_def flip: append_assoc append_Cons)
    then show ?thesis using that window_concat [of "[0..<6]" "\<lambda>i. hex 2 (unat (node ?u ! i))" 2 i] by (simp add: window_append2)
  qed
  then have nodes: "map (\<lambda>i. ucast (fst (strtoul (window (24 + 2 * i) 2 (uuid_text uu)) 16))) [0..<6] = node ?u"
    by (intro nth_equalityI) (simp_all add: len strtoul_fields ucast_down_up)
  have fields: "fst (strtoul (uuid_text uu) 16) = of_nat (unat (time_low ?u))"
    "fst (strtoul (drop 9 (uuid_text uu)) 16) = of_nat (unat (time_mid ?u))"
    "fst (strtoul (drop 14 (uuid_text uu)) 16) = of_nat (unat (time_hi_and_version ?u))"
    "fst (strtoul (drop 19 (uuid_text uu)) 16) = of_nat (unat (clock_seq ?u))"
    by (simp_all add: uuid_text_fields Let_def strtoul_fields)
  have "uuid_parse (uuid_text uu) = Some (uuid_pack ?u)"
    by (simp only: uuid_parse_def uuid_text_valid fields nodes) (simp add: ucast_down_up uuid_pack_def)
  then show ?thesis using uuid_pack_unpack [OF assms] by simp
qed

text \<open>
  C36: a UUID survives printing and parsing. \<open>uuid_unparse\<close> returns for every UUID and
  stores 36 characters and the terminator, which fit into the 37 bytes of its callers, and
  \<open>uuid_parse\<close> of that string gives the UUID back.
\<close>

theorem uuid_unparse_parse_roundtrip:
  assumes "uuid_ok uu"
  shows "\<exists>s. uuid_unparse uu = Some (s @ [0]) \<and> length s = 36 \<and> uuid_parse s = Some uu"
proof -
  have "length (uuid_text uu) = 36" by (simp add: uuid_text_def Let_def)
  then show ?thesis using uuid_parse_text [OF assms] uuid_unparse_text [of uu] by simp
qed

theorem uuid_unparse_parse_roundtrip_witness:
  "\<exists>s. uuid_unparse (map word_of_int [0..15]) = Some (s @ [0]) \<and> length s = 36 \<and> uuid_parse s = Some (map word_of_int [0..15])"
  using uuid_unparse_parse_roundtrip [of "map word_of_int [0..15]"] by (simp add: uuid_ok_def)


end
