(* ===== verification/Device_Uuid.thy ===== *)
theory Device_Uuid
  imports Gpt Printf
begin

text \<open>
  The identity of the device, \<open>src/device_uuid.c\<close> and \<open>src/lib/uuid/uuid3.c\<close>: a name based UUID
  of the platform's unique number, computed once and then kept. \<open>plat_get_unique_id\<close> and the
  name space of the platform are arguments; the bytes the former stores are part of its
  result, and their number is the length it returns.
\<close>

record 'w devid = "'w gpt" +
  dev_id :: uuid_t

text \<open>
  \<open>output_uu\<close> is the buffer of the result. \<open>time_hi_and_version\<close> is a little-endian field at
  offset 6, \<open>clock_seq_hi_and_res\<close> the byte at offset 8.
\<close>

definition set_uuid_version :: "uuid_t \<Rightarrow> uuid_t" where
  "set_uuid_version uu =
     (let th = ((le_word (window 6 2 uu) :: u16) AND 0xFF0F) OR 0x0030;
          uu = blit 6 (le_bytes 2 th) uu
      in uu[8 := ((uu ! 8) AND 0x3F) OR 0x80])"

definition uuid_gen_uuid3 ::
  "uuid_t \<Rightarrow> u8 list \<Rightarrow> uuid_t \<Rightarrow> ('w, 'z) crypto_scheme \<Rightarrow> int \<times> uuid_t \<times> ('w, 'z) crypto_scheme" where
  "uuid_gen_uuid3 namespace_uu uniq output_uu s =
     (case hash_init HASH_MD5 s of (rc, s) \<Rightarrow>
      if rc \<noteq> PB_OK then (rc, output_uu, s)
      else case hash_update (take 16 namespace_uu) s of (rc, s) \<Rightarrow>
      if rc \<noteq> PB_OK then (rc, output_uu, s)
      else case hash_update uniq s of (rc, s) \<Rightarrow>
      if rc \<noteq> PB_OK then (rc, output_uu, s)
      else case hash_final 16 s of (rc, digest, s) \<Rightarrow>
      let output_uu = overlay output_uu digest in
      if rc \<noteq> PB_OK then (rc, output_uu, s)
      else (PB_OK, set_uuid_version output_uu, s))"

definition device_uuid ::
  "(('w, 'z) devid_scheme \<Rightarrow> int \<times> u8 list \<times> ('w, 'z) devid_scheme) \<Rightarrow> uuid_t \<Rightarrow> ('w, 'z) devid_scheme \<Rightarrow>
   int \<times> uuid_t option \<times> ('w, 'z) devid_scheme" where
  "device_uuid plat_get_unique_id platform_ns_uuid s =
     (if uuid_is_null (dev_id s) then
        (case plat_get_unique_id s of (rc, plat_unique, s) \<Rightarrow>
         if rc \<noteq> PB_OK then (rc, None, s)
         else case uuid_gen_uuid3 platform_ns_uuid plat_unique (dev_id s) s of (rc, uu, s) \<Rightarrow>
         if rc \<noteq> PB_OK then (rc, None, s\<lparr>dev_id := uuid_clear\<rparr>)
         else (PB_OK, Some (uuid_copy uu), s\<lparr>dev_id := uu\<rparr>))
      else (PB_OK, Some (uuid_copy (dev_id s)), s))"

subsection \<open>The identity is a version 3 UUID and does not change\<close>

lemma version_bits:
  "(((b :: u8) AND 0x0F) OR 0x30) AND 0xF0 = 0x30" "((b AND 0x3F) OR 0x80) AND 0xC0 = 0x80"
  "(b AND 0x3F) OR 0x80 \<noteq> 0"
proof -
  show v: "((b AND 0x0F) OR 0x30) AND 0xF0 = 0x30" "((b AND 0x3F) OR 0x80) AND 0xC0 = 0x80"
    by (simp_all add: and.assoc bit.conj_disj_distrib2 bit.conj_disj_distrib)
  then show "(b AND 0x3F) OR 0x80 \<noteq> 0" by auto
qed

lemma set_uuid_version_bytes:
  assumes "length uu = 16"
  shows "length (set_uuid_version uu) = 16"
    and "set_uuid_version uu ! 6 = (uu ! 6 AND 0x0F) OR 0x30"
    and "set_uuid_version uu ! 8 = (uu ! 8 AND 0x3F) OR 0x80"
proof -
  have w: "window 6 2 uu = [uu ! 6, uu ! 7]"
    using assms by (simp add: window_def take_Suc_conv_app_nth numeral_2_eq_2 Cons_nth_drop_Suc [symmetric])
  have low: "ucast (((le_word [a, b] :: u16) AND 0xFF0F) OR 0x30) = ((a :: u8) AND 0x0F) OR 0x30" for a b
  proof -
    have "ucast (le_word [a, b] :: u16) = a"
      by (rule bit_word_eqI) (auto simp: bit_word_ucast_iff bit_or_iff bit_push_bit_iff)
    moreover have "ucast (0xFF0F :: u16) = (0x0F :: u8)" "ucast (0x30 :: u16) = (0x30 :: u8)" by simp_all
    ultimately show ?thesis by (simp only: unsigned_or_eq unsigned_and_eq)
  qed
  show "length (set_uuid_version uu) = 16" using assms by (simp add: set_uuid_version_def Let_def)
  show "set_uuid_version uu ! 6 = (uu ! 6 AND 0x0F) OR 0x30"
    using assms low by (simp add: set_uuid_version_def Let_def w nth_blit nth_le_bytes)
  show "set_uuid_version uu ! 8 = (uu ! 8 AND 0x3F) OR 0x80"
    using assms by (simp add: set_uuid_version_def Let_def nth_blit)
qed

lemma uuid3_OK:
  assumes "uuid_gen_uuid3 ns u buf s = (PB_OK, uu, s')" and "length buf = 16"
  shows "length uu = 16 \<and> uu ! 6 AND 0xF0 = 0x30 \<and> uu ! 8 AND 0xC0 = 0x80 \<and> \<not> uuid_is_null uu"
proof -
  obtain d where d: "uu = set_uuid_version (overlay buf d)"
    using assms(1) by (auto simp: uuid_gen_uuid3_def Let_def split: prod.splits if_splits)
  note bytes = set_uuid_version_bytes [of "overlay buf d", folded d]
  have "uu ! 8 \<noteq> 0" using bytes(3) assms(2) version_bits(3) by simp
  then have "\<not> uuid_is_null uu" using bytes(1) assms(2) by (auto simp: uuid_is_null_def list_all_length intro: exI [of _ 8])
  then show ?thesis using bytes assms(2) version_bits by simp
qed

text \<open>
  C38: the identity of the device is computed once and is a version 3 UUID. When
  \<open>device_uuid\<close> succeeds, its result is a UUID of 16 bytes, with the version 3 and the
  variant of RFC 4122 if it was computed by this call, and every later call, whatever the
  platform would report then, returns the same UUID and changes nothing.
\<close>

theorem device_uuid_stable:
  assumes "device_uuid get_id ns s = (PB_OK, Some uu, s')" and "length (dev_id s) = 16"
    and "\<And>s. dev_id (snd (snd (get_id s))) = dev_id s"
  shows "length uu = 16 \<and> device_uuid get_id' ns' s' = (PB_OK, Some uu, s') \<and>
    (uuid_is_null (dev_id s) \<longrightarrow> uu ! 6 AND 0xF0 = 0x30 \<and> uu ! 8 AND 0xC0 = 0x80)"
proof (cases "uuid_is_null (dev_id s)")
  case False
  then show ?thesis using assms(1,2) by (auto simp: device_uuid_def uuid_copy_def)
next
  case True
  then obtain u s1 v s2 where 1: "get_id s = (PB_OK, u, s1)"
    and 2: "uuid_gen_uuid3 ns u (dev_id s1) s1 = (PB_OK, v, s2)" and 3: "uu = uuid_copy v" "s' = s2\<lparr>dev_id := v\<rparr>"
    using assms(1) by (auto simp: device_uuid_def split: prod.splits if_splits)
  have "length (dev_id s1) = 16" using assms(2,3) 1 by (metis snd_conv)
  note v = uuid3_OK [OF 2 this]
  then have "uu = v" using 3(1) by (simp add: uuid_copy_def)
  then show ?thesis using v 3 by (simp add: device_uuid_def uuid_copy_def)
qed

definition demo_devid :: "(hash_t \<times> u8 list) devid" where
  "demo_devid = \<lparr>world = (0, []), mem = (\<lambda>_. 0), bio_pool = [], n_bios = 0, fuse_box = replicate 128 0,
     fuse_dev = 0, dsa_ops = [Some eq_dsa_ops], no_of_dsa_ops = 1, hash_ops = [Some sum_hash_ops], no_of_hash_ops = 1,
     current_hash_ops = None, primary_part = 0, backup_part = 0, boot_state = pb_boot_state_zero,
     boot_state_backup = pb_boot_state_zero, header = bpak_init_header, header_ptr = None, boot_flags = 0,
     boot_device = -1, boot_source_var = BOOT_SOURCE_CB, boot_part_uu = replicate 16 0, payload_digest = replicate 64 0,
     prng_state = 0, pri_hdr = gpt_header_zero, pri_part = replicate 128 gpt_part_zero,
     bak_hdr = gpt_header_zero, bak_part = replicate 128 gpt_part_zero, gpt_pmbr = replicate 512 0, gpt_dev = -1,
     gpt_tables = [], dev_id = replicate 16 0\<rparr>"

theorem device_uuid_stable_witness:
  "\<exists>uu s'. device_uuid (\<lambda>s. (PB_OK, [1, 2, 3], s)) (replicate 16 7) demo_devid = (PB_OK, Some uu, s') \<and>
     uu ! 6 AND 0xF0 = 0x30 \<and> device_uuid (\<lambda>s. (PB_OK, [4], s)) (replicate 16 7) s' = (PB_OK, Some uu, s')"
proof -
  have null: "uuid_is_null (replicate 16 0)" by (simp add: uuid_is_null_def list_all_iff)
  then obtain uu s' where call: "device_uuid (\<lambda>s. (PB_OK, [1, 2, 3], s)) (replicate 16 7) demo_devid = (PB_OK, Some uu, s')"
    by (simp add: device_uuid_def demo_devid_def uuid_gen_uuid3_def hash_init_def hash_update_def
        hash_final_def sum_hash_ops_def Let_def)
  show ?thesis
    using device_uuid_stable [OF call, of "\<lambda>s. (PB_OK, [4], s)" "replicate 16 7"] call
    by (auto simp: demo_devid_def null)
qed

end
