(* ===== verification/Wire.thy ===== *)
theory Wire
  imports Printf
begin

text \<open>
  The wire format of the command mode, \<open>include/pb-tools/wire.h\<close> and \<open>src/wire.c\<close>: the packed
  structs that host and device exchange, as records with their encodings, and the
  functions both sides build on. Every struct is an instance of the codec interface, so
  that what one side encodes the other side decodes.
\<close>

abbreviation (input) PB_WIRE_MAGIC :: u32 where "PB_WIRE_MAGIC \<equiv> 0x50424c30"

datatype pb_commands =
    PB_CMD_INVALID | PB_CMD_DEVICE_RESET | PB_CMD_DEVICE_IDENTIFIER_READ | PB_CMD_DEVICE_READ_CAPS
  | PB_CMD_SLC_SET_CONFIGURATION | PB_CMD_SLC_SET_CONFIGURATION_LOCK | PB_CMD_SLC_SET_EOL
  | PB_CMD_SLC_REVOKE_KEY | PB_CMD_SLC_READ | PB_CMD_BOOTLOADER_VERSION_READ | PB_CMD_PART_TBL_READ
  | PB_CMD_PART_TBL_INSTALL | PB_CMD_PART_VERIFY | PB_CMD_PART_ACTIVATE | PB_CMD_PART_BPAK_READ
  | PB_CMD_PART_ERASE | PB_CMD_AUTHENTICATE | PB_CMD_AUTH_SET_PASSWORD | PB_CMD_STREAM_INITIALIZE
  | PB_CMD_STREAM_PREPARE_BUFFER | PB_CMD_STREAM_WRITE_BUFFER | PB_CMD_STREAM_FINALIZE | PB_CMD_BOOT_PART
  | PB_CMD_BOOT_BPAK | PB_CMD_BOARD_COMMAND | PB_CMD_BOARD_STATUS_READ | PB_CMD_STREAM_READ_BUFFER
  | PB_CMD_PART_RESIZE | PB_CMD_BOOT_STATUS | PB_CMD_END

text \<open>The enumerators in the order of their values.\<close>

definition pb_command_list :: "pb_commands list" where
  "pb_command_list = [PB_CMD_INVALID, PB_CMD_DEVICE_RESET, PB_CMD_DEVICE_IDENTIFIER_READ, PB_CMD_DEVICE_READ_CAPS,
     PB_CMD_SLC_SET_CONFIGURATION, PB_CMD_SLC_SET_CONFIGURATION_LOCK, PB_CMD_SLC_SET_EOL,
     PB_CMD_SLC_REVOKE_KEY, PB_CMD_SLC_READ, PB_CMD_BOOTLOADER_VERSION_READ, PB_CMD_PART_TBL_READ,
     PB_CMD_PART_TBL_INSTALL, PB_CMD_PART_VERIFY, PB_CMD_PART_ACTIVATE, PB_CMD_PART_BPAK_READ,
     PB_CMD_PART_ERASE, PB_CMD_AUTHENTICATE, PB_CMD_AUTH_SET_PASSWORD, PB_CMD_STREAM_INITIALIZE,
     PB_CMD_STREAM_PREPARE_BUFFER, PB_CMD_STREAM_WRITE_BUFFER, PB_CMD_STREAM_FINALIZE,
     PB_CMD_BOOT_PART, PB_CMD_BOOT_BPAK, PB_CMD_BOARD_COMMAND, PB_CMD_BOARD_STATUS_READ,
     PB_CMD_STREAM_READ_BUFFER, PB_CMD_PART_RESIZE, PB_CMD_BOOT_STATUS, PB_CMD_END]"

fun index_of :: "'a list \<Rightarrow> 'a \<Rightarrow> nat" where
  "index_of [] x = 0"
| "index_of (y # ys) x = (if x = y then 0 else Suc (index_of ys x))"

definition pb_command_code :: "pb_commands \<Rightarrow> u8" where
  "pb_command_code c = of_nat (index_of pb_command_list c)"

text \<open>The command of a code, if the code is one of the enumeration.\<close>

definition pb_command_of :: "u8 \<Rightarrow> pb_commands option" where
  "pb_command_of b = (if unat b < length pb_command_list then Some (pb_command_list ! unat b) else None)"

abbreviation (input) PB_RESULT_OK :: int where "PB_RESULT_OK \<equiv> 0"
abbreviation (input) PB_RESULT_ERROR :: int where "PB_RESULT_ERROR \<equiv> 1"
abbreviation (input) PB_RESULT_AUTHENTICATION_FAILED :: int where "PB_RESULT_AUTHENTICATION_FAILED \<equiv> 2"
abbreviation (input) PB_RESULT_NOT_AUTHENTICATED :: int where "PB_RESULT_NOT_AUTHENTICATED \<equiv> 3"
abbreviation (input) PB_RESULT_NOT_SUPPORTED :: int where "PB_RESULT_NOT_SUPPORTED \<equiv> 4"
abbreviation (input) PB_RESULT_INVALID_ARGUMENT :: int where "PB_RESULT_INVALID_ARGUMENT \<equiv> 5"
abbreviation (input) PB_RESULT_INVALID_COMMAND :: int where "PB_RESULT_INVALID_COMMAND \<equiv> 6"
abbreviation (input) PB_RESULT_PART_VERIFY_FAILED :: int where "PB_RESULT_PART_VERIFY_FAILED \<equiv> 7"
abbreviation (input) PB_RESULT_PART_NOT_BOOTABLE :: int where "PB_RESULT_PART_NOT_BOOTABLE \<equiv> 8"
abbreviation (input) PB_RESULT_NO_MEMORY :: int where "PB_RESULT_NO_MEMORY \<equiv> 9"
abbreviation (input) PB_RESULT_NOT_FOUND :: int where "PB_RESULT_NOT_FOUND \<equiv> 11"
abbreviation (input) PB_RESULT_TIMEOUT :: int where "PB_RESULT_TIMEOUT \<equiv> 13"
abbreviation (input) PB_RESULT_KEY_REVOKED :: int where "PB_RESULT_KEY_REVOKED \<equiv> 14"
abbreviation (input) PB_RESULT_SIGNATURE_ERROR :: int where "PB_RESULT_SIGNATURE_ERROR \<equiv> 15"
abbreviation (input) PB_RESULT_MEM_ERROR :: int where "PB_RESULT_MEM_ERROR \<equiv> 16"
abbreviation (input) PB_RESULT_IO_ERROR :: int where "PB_RESULT_IO_ERROR \<equiv> 17"

abbreviation (input) PB_AUTH_ASYM_TOKEN :: u8 where "PB_AUTH_ASYM_TOKEN \<equiv> 1"
abbreviation (input) PB_AUTH_PASSWORD :: u8 where "PB_AUTH_PASSWORD \<equiv> 2"

subsection \<open>The packed structs\<close>

record pb_command =
  cmd_magic :: u32
  cmd_command :: u8
  cmd_rz :: "u8 list"
  cmd_request :: "u8 list"

definition enc_pb_command :: "pb_command \<Rightarrow> u8 list" where
  "enc_pb_command x = le_bytes 4 (cmd_magic x) @ [cmd_command x] @ cmd_rz x @ cmd_request x"

definition dec_pb_command :: "u8 list \<Rightarrow> pb_command" where
  "dec_pb_command bs = \<lparr>cmd_magic = le_word (window 0 4 bs), cmd_command = bs ! 4,
      cmd_rz = window 5 3 bs, cmd_request = window 8 504 bs\<rparr>"

definition wf_pb_command :: "pb_command \<Rightarrow> bool" where
  "wf_pb_command x \<longleftrightarrow> length (cmd_rz x) = 3 \<and> length (cmd_request x) = 504"

interpretation w_cmd: codec enc_pb_command dec_pb_command 512 wf_pb_command
proof
  fix bs :: "u8 list" assume "length bs = 512"
  then show "enc_pb_command (dec_pb_command bs) = bs" by (simp add: enc_pb_command_def dec_pb_command_def window_1 window_glues)
qed (simp_all add: enc_pb_command_def dec_pb_command_def wf_pb_command_def window_simps nth_append)

record pb_result =
  res_magic :: u32
  res_result_code :: u8
  res_rz :: "u8 list"
  res_response :: "u8 list"

definition enc_pb_result :: "pb_result \<Rightarrow> u8 list" where
  "enc_pb_result x = le_bytes 4 (res_magic x) @ [res_result_code x] @ res_rz x @ res_response x"

definition dec_pb_result :: "u8 list \<Rightarrow> pb_result" where
  "dec_pb_result bs = \<lparr>res_magic = le_word (window 0 4 bs), res_result_code = bs ! 4,
      res_rz = window 5 3 bs, res_response = window 8 504 bs\<rparr>"

definition wf_pb_result :: "pb_result \<Rightarrow> bool" where
  "wf_pb_result x \<longleftrightarrow> length (res_rz x) = 3 \<and> length (res_response x) = 504"

interpretation w_res: codec enc_pb_result dec_pb_result 512 wf_pb_result
proof
  fix bs :: "u8 list" assume "length bs = 512"
  then show "enc_pb_result (dec_pb_result bs) = bs" by (simp add: enc_pb_result_def dec_pb_result_def window_1 window_glues)
qed (simp_all add: enc_pb_result_def dec_pb_result_def wf_pb_result_def window_simps nth_append)

record pb_result_device_caps =
  caps_stream_no_of_buffers :: u8
  caps_stream_buffer_size :: u32
  caps_operation_timeout_ms :: u16
  caps_part_erase_timeout_ms :: u16
  caps_bpak_stream_support :: u8
  caps_chunk_transfer_max_bytes :: u32
  caps_rz :: "u8 list"

definition enc_pb_result_device_caps :: "pb_result_device_caps \<Rightarrow> u8 list" where
  "enc_pb_result_device_caps x = [caps_stream_no_of_buffers x] @
     le_bytes 4 (caps_stream_buffer_size x) @ le_bytes 2 (caps_operation_timeout_ms x) @
     le_bytes 2 (caps_part_erase_timeout_ms x) @ [caps_bpak_stream_support x] @
     le_bytes 4 (caps_chunk_transfer_max_bytes x) @ caps_rz x"

definition dec_pb_result_device_caps :: "u8 list \<Rightarrow> pb_result_device_caps" where
  "dec_pb_result_device_caps bs = \<lparr>caps_stream_no_of_buffers = bs ! 0,
      caps_stream_buffer_size = le_word (window 1 4 bs),
      caps_operation_timeout_ms = le_word (window 5 2 bs),
      caps_part_erase_timeout_ms = le_word (window 7 2 bs), caps_bpak_stream_support = bs ! 9,
      caps_chunk_transfer_max_bytes = le_word (window 10 4 bs), caps_rz = window 14 18 bs\<rparr>"

definition wf_pb_result_device_caps :: "pb_result_device_caps \<Rightarrow> bool" where
  "wf_pb_result_device_caps x \<longleftrightarrow> length (caps_rz x) = 18"

interpretation w_caps: codec enc_pb_result_device_caps dec_pb_result_device_caps 32 wf_pb_result_device_caps
proof
  fix bs :: "u8 list" assume "length bs = 32"
  then show "enc_pb_result_device_caps (dec_pb_result_device_caps bs) = bs" by (simp add: enc_pb_result_device_caps_def dec_pb_result_device_caps_def window_1 window_glues)
qed (simp_all add: enc_pb_result_device_caps_def dec_pb_result_device_caps_def wf_pb_result_device_caps_def window_simps nth_append)

record pb_result_part_table_read =
  ptr_no_of_entries :: u8
  ptr_rz :: "u8 list"

definition enc_pb_result_part_table_read :: "pb_result_part_table_read \<Rightarrow> u8 list" where
  "enc_pb_result_part_table_read x = [ptr_no_of_entries x] @ ptr_rz x"

definition dec_pb_result_part_table_read :: "u8 list \<Rightarrow> pb_result_part_table_read" where
  "dec_pb_result_part_table_read bs = \<lparr>ptr_no_of_entries = bs ! 0, ptr_rz = window 1 31 bs\<rparr>"

definition wf_pb_result_part_table_read :: "pb_result_part_table_read \<Rightarrow> bool" where
  "wf_pb_result_part_table_read x \<longleftrightarrow> length (ptr_rz x) = 31"

interpretation w_ptr: codec enc_pb_result_part_table_read dec_pb_result_part_table_read 32 wf_pb_result_part_table_read
proof
  fix bs :: "u8 list" assume "length bs = 32"
  then show "enc_pb_result_part_table_read (dec_pb_result_part_table_read bs) = bs" by (simp add: enc_pb_result_part_table_read_def dec_pb_result_part_table_read_def window_1 window_glues)
qed (simp_all add: enc_pb_result_part_table_read_def dec_pb_result_part_table_read_def wf_pb_result_part_table_read_def window_simps nth_append)

record pb_result_part_table_entry =
  pte_uuid :: "u8 list"
  pte_description :: "u8 list"
  pte_first_block :: u64
  pte_last_block :: u64
  pte_block_size :: u16
  pte_flags :: u8
  pte_rz :: "u8 list"

definition enc_pb_result_part_table_entry :: "pb_result_part_table_entry \<Rightarrow> u8 list" where
  "enc_pb_result_part_table_entry x = pte_uuid x @ pte_description x @ le_bytes 8 (pte_first_block x) @
     le_bytes 8 (pte_last_block x) @ le_bytes 2 (pte_block_size x) @ [pte_flags x] @ pte_rz x"

definition dec_pb_result_part_table_entry :: "u8 list \<Rightarrow> pb_result_part_table_entry" where
  "dec_pb_result_part_table_entry bs = \<lparr>pte_uuid = window 0 16 bs,
      pte_description = window 16 37 bs, pte_first_block = le_word (window 53 8 bs),
      pte_last_block = le_word (window 61 8 bs), pte_block_size = le_word (window 69 2 bs),
      pte_flags = bs ! 71, pte_rz = window 72 56 bs\<rparr>"

definition wf_pb_result_part_table_entry :: "pb_result_part_table_entry \<Rightarrow> bool" where
  "wf_pb_result_part_table_entry x \<longleftrightarrow> length (pte_uuid x) = 16 \<and>
     length (pte_description x) = 37 \<and> length (pte_rz x) = 56"

interpretation w_pte: codec enc_pb_result_part_table_entry dec_pb_result_part_table_entry 128 wf_pb_result_part_table_entry
proof
  fix bs :: "u8 list" assume "length bs = 128"
  then show "enc_pb_result_part_table_entry (dec_pb_result_part_table_entry bs) = bs" by (simp add: enc_pb_result_part_table_entry_def dec_pb_result_part_table_entry_def window_1 window_glues)
qed (simp_all add: enc_pb_result_part_table_entry_def dec_pb_result_part_table_entry_def wf_pb_result_part_table_entry_def window_simps nth_append)

record pb_command_stream_initialize =
  si_part_uuid :: "u8 list"
  si_rz :: "u8 list"

definition enc_pb_command_stream_initialize :: "pb_command_stream_initialize \<Rightarrow> u8 list" where
  "enc_pb_command_stream_initialize x = si_part_uuid x @ si_rz x"

definition dec_pb_command_stream_initialize :: "u8 list \<Rightarrow> pb_command_stream_initialize" where
  "dec_pb_command_stream_initialize bs = \<lparr>si_part_uuid = window 0 16 bs, si_rz = window 16 16 bs\<rparr>"

definition wf_pb_command_stream_initialize :: "pb_command_stream_initialize \<Rightarrow> bool" where
  "wf_pb_command_stream_initialize x \<longleftrightarrow> length (si_part_uuid x) = 16 \<and>
     length (si_rz x) = 16"

interpretation w_si: codec enc_pb_command_stream_initialize dec_pb_command_stream_initialize 32 wf_pb_command_stream_initialize
proof
  fix bs :: "u8 list" assume "length bs = 32"
  then show "enc_pb_command_stream_initialize (dec_pb_command_stream_initialize bs) = bs" by (simp add: enc_pb_command_stream_initialize_def dec_pb_command_stream_initialize_def window_1 window_glues)
qed (simp_all add: enc_pb_command_stream_initialize_def dec_pb_command_stream_initialize_def wf_pb_command_stream_initialize_def window_simps nth_append)

record pb_command_stream_prepare_buffer =
  pb_size :: u32
  pb_id :: u8
  pb_rz :: "u8 list"

definition enc_pb_command_stream_prepare_buffer :: "pb_command_stream_prepare_buffer \<Rightarrow> u8 list" where
  "enc_pb_command_stream_prepare_buffer x = le_bytes 4 (pb_size x) @ [pb_id x] @ pb_rz x"

definition dec_pb_command_stream_prepare_buffer :: "u8 list \<Rightarrow> pb_command_stream_prepare_buffer" where
  "dec_pb_command_stream_prepare_buffer bs = \<lparr>pb_size = le_word (window 0 4 bs), pb_id = bs ! 4,
      pb_rz = window 5 27 bs\<rparr>"

definition wf_pb_command_stream_prepare_buffer :: "pb_command_stream_prepare_buffer \<Rightarrow> bool" where
  "wf_pb_command_stream_prepare_buffer x \<longleftrightarrow> length (pb_rz x) = 27"

interpretation w_pb: codec enc_pb_command_stream_prepare_buffer dec_pb_command_stream_prepare_buffer 32 wf_pb_command_stream_prepare_buffer
proof
  fix bs :: "u8 list" assume "length bs = 32"
  then show "enc_pb_command_stream_prepare_buffer (dec_pb_command_stream_prepare_buffer bs) = bs" by (simp add: enc_pb_command_stream_prepare_buffer_def dec_pb_command_stream_prepare_buffer_def window_1 window_glues)
qed (simp_all add: enc_pb_command_stream_prepare_buffer_def dec_pb_command_stream_prepare_buffer_def wf_pb_command_stream_prepare_buffer_def window_simps nth_append)

record pb_command_stream_write_buffer =
  wb_size :: u32
  wb_offset :: u64
  wb_buffer_id :: u8
  wb_rz :: "u8 list"

definition enc_pb_command_stream_write_buffer :: "pb_command_stream_write_buffer \<Rightarrow> u8 list" where
  "enc_pb_command_stream_write_buffer x = le_bytes 4 (wb_size x) @ le_bytes 8 (wb_offset x) @
     [wb_buffer_id x] @ wb_rz x"

definition dec_pb_command_stream_write_buffer :: "u8 list \<Rightarrow> pb_command_stream_write_buffer" where
  "dec_pb_command_stream_write_buffer bs = \<lparr>wb_size = le_word (window 0 4 bs),
      wb_offset = le_word (window 4 8 bs), wb_buffer_id = bs ! 12, wb_rz = window 13 19 bs\<rparr>"

definition wf_pb_command_stream_write_buffer :: "pb_command_stream_write_buffer \<Rightarrow> bool" where
  "wf_pb_command_stream_write_buffer x \<longleftrightarrow> length (wb_rz x) = 19"

interpretation w_wb: codec enc_pb_command_stream_write_buffer dec_pb_command_stream_write_buffer 32 wf_pb_command_stream_write_buffer
proof
  fix bs :: "u8 list" assume "length bs = 32"
  then show "enc_pb_command_stream_write_buffer (dec_pb_command_stream_write_buffer bs) = bs" by (simp add: enc_pb_command_stream_write_buffer_def dec_pb_command_stream_write_buffer_def window_1 window_glues)
qed (simp_all add: enc_pb_command_stream_write_buffer_def dec_pb_command_stream_write_buffer_def wf_pb_command_stream_write_buffer_def window_simps nth_append)

record pb_command_stream_read_buffer =
  rb_size :: u32
  rb_offset :: u64
  rb_buffer_id :: u8
  rb_rz :: "u8 list"

definition enc_pb_command_stream_read_buffer :: "pb_command_stream_read_buffer \<Rightarrow> u8 list" where
  "enc_pb_command_stream_read_buffer x = le_bytes 4 (rb_size x) @ le_bytes 8 (rb_offset x) @
     [rb_buffer_id x] @ rb_rz x"

definition dec_pb_command_stream_read_buffer :: "u8 list \<Rightarrow> pb_command_stream_read_buffer" where
  "dec_pb_command_stream_read_buffer bs = \<lparr>rb_size = le_word (window 0 4 bs),
      rb_offset = le_word (window 4 8 bs), rb_buffer_id = bs ! 12, rb_rz = window 13 19 bs\<rparr>"

definition wf_pb_command_stream_read_buffer :: "pb_command_stream_read_buffer \<Rightarrow> bool" where
  "wf_pb_command_stream_read_buffer x \<longleftrightarrow> length (rb_rz x) = 19"

interpretation w_rb: codec enc_pb_command_stream_read_buffer dec_pb_command_stream_read_buffer 32 wf_pb_command_stream_read_buffer
proof
  fix bs :: "u8 list" assume "length bs = 32"
  then show "enc_pb_command_stream_read_buffer (dec_pb_command_stream_read_buffer bs) = bs" by (simp add: enc_pb_command_stream_read_buffer_def dec_pb_command_stream_read_buffer_def window_1 window_glues)
qed (simp_all add: enc_pb_command_stream_read_buffer_def dec_pb_command_stream_read_buffer_def wf_pb_command_stream_read_buffer_def window_simps nth_append)

record pb_command_authenticate =
  au_method :: u8
  au_size :: u16
  au_key_id :: u32
  au_rz :: "u8 list"

definition enc_pb_command_authenticate :: "pb_command_authenticate \<Rightarrow> u8 list" where
  "enc_pb_command_authenticate x = [au_method x] @ le_bytes 2 (au_size x) @ le_bytes 4 (au_key_id x) @
     au_rz x"

definition dec_pb_command_authenticate :: "u8 list \<Rightarrow> pb_command_authenticate" where
  "dec_pb_command_authenticate bs = \<lparr>au_method = bs ! 0, au_size = le_word (window 1 2 bs),
      au_key_id = le_word (window 3 4 bs), au_rz = window 7 25 bs\<rparr>"

definition wf_pb_command_authenticate :: "pb_command_authenticate \<Rightarrow> bool" where
  "wf_pb_command_authenticate x \<longleftrightarrow> length (au_rz x) = 25"

interpretation w_au: codec enc_pb_command_authenticate dec_pb_command_authenticate 32 wf_pb_command_authenticate
proof
  fix bs :: "u8 list" assume "length bs = 32"
  then show "enc_pb_command_authenticate (dec_pb_command_authenticate bs) = bs" by (simp add: enc_pb_command_authenticate_def dec_pb_command_authenticate_def window_1 window_glues)
qed (simp_all add: enc_pb_command_authenticate_def dec_pb_command_authenticate_def wf_pb_command_authenticate_def window_simps nth_append)

record pb_command_verify_part =
  vp_uuid :: "u8 list"
  vp_sha256 :: "u8 list"
  vp_size :: u32
  vp_bpak :: u8
  vp_rz :: "u8 list"

definition enc_pb_command_verify_part :: "pb_command_verify_part \<Rightarrow> u8 list" where
  "enc_pb_command_verify_part x = vp_uuid x @ vp_sha256 x @ le_bytes 4 (vp_size x) @ [vp_bpak x] @
     vp_rz x"

definition dec_pb_command_verify_part :: "u8 list \<Rightarrow> pb_command_verify_part" where
  "dec_pb_command_verify_part bs = \<lparr>vp_uuid = window 0 16 bs, vp_sha256 = window 16 32 bs,
      vp_size = le_word (window 48 4 bs), vp_bpak = bs ! 52, vp_rz = window 53 2 bs\<rparr>"

definition wf_pb_command_verify_part :: "pb_command_verify_part \<Rightarrow> bool" where
  "wf_pb_command_verify_part x \<longleftrightarrow> length (vp_uuid x) = 16 \<and>
     length (vp_sha256 x) = 32 \<and> length (vp_rz x) = 2"

interpretation w_vp: codec enc_pb_command_verify_part dec_pb_command_verify_part 55 wf_pb_command_verify_part
proof
  fix bs :: "u8 list" assume "length bs = 55"
  then show "enc_pb_command_verify_part (dec_pb_command_verify_part bs) = bs" by (simp add: enc_pb_command_verify_part_def dec_pb_command_verify_part_def window_1 window_glues)
qed (simp_all add: enc_pb_command_verify_part_def dec_pb_command_verify_part_def wf_pb_command_verify_part_def window_simps nth_append)

record pb_command_activate_part =
  ap_uuid :: "u8 list"
  ap_rz :: "u8 list"

definition enc_pb_command_activate_part :: "pb_command_activate_part \<Rightarrow> u8 list" where
  "enc_pb_command_activate_part x = ap_uuid x @ ap_rz x"

definition dec_pb_command_activate_part :: "u8 list \<Rightarrow> pb_command_activate_part" where
  "dec_pb_command_activate_part bs = \<lparr>ap_uuid = window 0 16 bs, ap_rz = window 16 16 bs\<rparr>"

definition wf_pb_command_activate_part :: "pb_command_activate_part \<Rightarrow> bool" where
  "wf_pb_command_activate_part x \<longleftrightarrow> length (ap_uuid x) = 16 \<and>
     length (ap_rz x) = 16"

interpretation w_ap: codec enc_pb_command_activate_part dec_pb_command_activate_part 32 wf_pb_command_activate_part
proof
  fix bs :: "u8 list" assume "length bs = 32"
  then show "enc_pb_command_activate_part (dec_pb_command_activate_part bs) = bs" by (simp add: enc_pb_command_activate_part_def dec_pb_command_activate_part_def window_1 window_glues)
qed (simp_all add: enc_pb_command_activate_part_def dec_pb_command_activate_part_def wf_pb_command_activate_part_def window_simps nth_append)

record pb_command_read_bpak =
  rp_uuid :: "u8 list"
  rp_rz :: "u8 list"

definition enc_pb_command_read_bpak :: "pb_command_read_bpak \<Rightarrow> u8 list" where
  "enc_pb_command_read_bpak x = rp_uuid x @ rp_rz x"

definition dec_pb_command_read_bpak :: "u8 list \<Rightarrow> pb_command_read_bpak" where
  "dec_pb_command_read_bpak bs = \<lparr>rp_uuid = window 0 16 bs, rp_rz = window 16 16 bs\<rparr>"

definition wf_pb_command_read_bpak :: "pb_command_read_bpak \<Rightarrow> bool" where
  "wf_pb_command_read_bpak x \<longleftrightarrow> length (rp_uuid x) = 16 \<and> length (rp_rz x) = 16"

interpretation w_rp: codec enc_pb_command_read_bpak dec_pb_command_read_bpak 32 wf_pb_command_read_bpak
proof
  fix bs :: "u8 list" assume "length bs = 32"
  then show "enc_pb_command_read_bpak (dec_pb_command_read_bpak bs) = bs" by (simp add: enc_pb_command_read_bpak_def dec_pb_command_read_bpak_def window_1 window_glues)
qed (simp_all add: enc_pb_command_read_bpak_def dec_pb_command_read_bpak_def wf_pb_command_read_bpak_def window_simps nth_append)

record pb_command_erase_part =
  ep_uuid :: "u8 list"
  ep_start_lba :: u32
  ep_block_count :: u32
  ep_rz :: "u8 list"

definition enc_pb_command_erase_part :: "pb_command_erase_part \<Rightarrow> u8 list" where
  "enc_pb_command_erase_part x = ep_uuid x @ le_bytes 4 (ep_start_lba x) @
     le_bytes 4 (ep_block_count x) @ ep_rz x"

definition dec_pb_command_erase_part :: "u8 list \<Rightarrow> pb_command_erase_part" where
  "dec_pb_command_erase_part bs = \<lparr>ep_uuid = window 0 16 bs,
      ep_start_lba = le_word (window 16 4 bs), ep_block_count = le_word (window 20 4 bs),
      ep_rz = window 24 8 bs\<rparr>"

definition wf_pb_command_erase_part :: "pb_command_erase_part \<Rightarrow> bool" where
  "wf_pb_command_erase_part x \<longleftrightarrow> length (ep_uuid x) = 16 \<and> length (ep_rz x) = 8"

interpretation w_ep: codec enc_pb_command_erase_part dec_pb_command_erase_part 32 wf_pb_command_erase_part
proof
  fix bs :: "u8 list" assume "length bs = 32"
  then show "enc_pb_command_erase_part (dec_pb_command_erase_part bs) = bs" by (simp add: enc_pb_command_erase_part_def dec_pb_command_erase_part_def window_1 window_glues)
qed (simp_all add: enc_pb_command_erase_part_def dec_pb_command_erase_part_def wf_pb_command_erase_part_def window_simps nth_append)

record pb_command_install_part_table =
  it_uu :: "u8 list"
  it_variant :: u8

definition enc_pb_command_install_part_table :: "pb_command_install_part_table \<Rightarrow> u8 list" where
  "enc_pb_command_install_part_table x = it_uu x @ [it_variant x]"

definition dec_pb_command_install_part_table :: "u8 list \<Rightarrow> pb_command_install_part_table" where
  "dec_pb_command_install_part_table bs = \<lparr>it_uu = window 0 16 bs, it_variant = bs ! 16\<rparr>"

definition wf_pb_command_install_part_table :: "pb_command_install_part_table \<Rightarrow> bool" where
  "wf_pb_command_install_part_table x \<longleftrightarrow> length (it_uu x) = 16"

interpretation w_it: codec enc_pb_command_install_part_table dec_pb_command_install_part_table 17 wf_pb_command_install_part_table
proof
  fix bs :: "u8 list" assume "length bs = 17"
  then show "enc_pb_command_install_part_table (dec_pb_command_install_part_table bs) = bs" by (simp add: enc_pb_command_install_part_table_def dec_pb_command_install_part_table_def window_1 window_glues)
qed (simp_all add: enc_pb_command_install_part_table_def dec_pb_command_install_part_table_def wf_pb_command_install_part_table_def window_simps nth_append)

record pb_result_device_identifier =
  di_device_uuid :: "u8 list"
  di_board_id :: "u8 list"
  di_rz :: "u8 list"

definition enc_pb_result_device_identifier :: "pb_result_device_identifier \<Rightarrow> u8 list" where
  "enc_pb_result_device_identifier x = di_device_uuid x @ di_board_id x @ di_rz x"

definition dec_pb_result_device_identifier :: "u8 list \<Rightarrow> pb_result_device_identifier" where
  "dec_pb_result_device_identifier bs = \<lparr>di_device_uuid = window 0 16 bs,
      di_board_id = window 16 16 bs, di_rz = window 32 23 bs\<rparr>"

definition wf_pb_result_device_identifier :: "pb_result_device_identifier \<Rightarrow> bool" where
  "wf_pb_result_device_identifier x \<longleftrightarrow> length (di_device_uuid x) = 16 \<and>
     length (di_board_id x) = 16 \<and> length (di_rz x) = 23"

interpretation w_di: codec enc_pb_result_device_identifier dec_pb_result_device_identifier 55 wf_pb_result_device_identifier
proof
  fix bs :: "u8 list" assume "length bs = 55"
  then show "enc_pb_result_device_identifier (dec_pb_result_device_identifier bs) = bs" by (simp add: enc_pb_result_device_identifier_def dec_pb_result_device_identifier_def window_1 window_glues)
qed (simp_all add: enc_pb_result_device_identifier_def dec_pb_result_device_identifier_def wf_pb_result_device_identifier_def window_simps nth_append)

record pb_result_slc =
  rs_slc :: u8
  rs_rz :: "u8 list"

definition enc_pb_result_slc :: "pb_result_slc \<Rightarrow> u8 list" where
  "enc_pb_result_slc x = [rs_slc x] @ rs_rz x"

definition dec_pb_result_slc :: "u8 list \<Rightarrow> pb_result_slc" where
  "dec_pb_result_slc bs = \<lparr>rs_slc = bs ! 0, rs_rz = window 1 31 bs\<rparr>"

definition wf_pb_result_slc :: "pb_result_slc \<Rightarrow> bool" where
  "wf_pb_result_slc x \<longleftrightarrow> length (rs_rz x) = 31"

interpretation w_rs: codec enc_pb_result_slc dec_pb_result_slc 32 wf_pb_result_slc
proof
  fix bs :: "u8 list" assume "length bs = 32"
  then show "enc_pb_result_slc (dec_pb_result_slc bs) = bs" by (simp add: enc_pb_result_slc_def dec_pb_result_slc_def window_1 window_glues)
qed (simp_all add: enc_pb_result_slc_def dec_pb_result_slc_def wf_pb_result_slc_def window_simps nth_append)

record pb_result_slc_key_status =
  ks_active :: "u32 list"
  ks_revoked :: "u32 list"

definition enc_pb_result_slc_key_status :: "pb_result_slc_key_status \<Rightarrow> u8 list" where
  "enc_pb_result_slc_key_status x = enc_array (le_bytes 4) (ks_active x) @
     enc_array (le_bytes 4) (ks_revoked x)"

definition dec_pb_result_slc_key_status :: "u8 list \<Rightarrow> pb_result_slc_key_status" where
  "dec_pb_result_slc_key_status bs = \<lparr>ks_active = dec_array le_word 4 16 (window 0 64 bs),
      ks_revoked = dec_array le_word 4 16 (window 64 64 bs)\<rparr>"

definition wf_pb_result_slc_key_status :: "pb_result_slc_key_status \<Rightarrow> bool" where
  "wf_pb_result_slc_key_status x \<longleftrightarrow> length (ks_active x) = 16 \<and>
     length (ks_revoked x) = 16"

interpretation w_ks: codec enc_pb_result_slc_key_status dec_pb_result_slc_key_status 128 wf_pb_result_slc_key_status
proof
  note arr = le32.codec_array [of 16, simplified]
  fix x assume "wf_pb_result_slc_key_status x"
  then show "length (enc_pb_result_slc_key_status x) = 128" "dec_pb_result_slc_key_status (enc_pb_result_slc_key_status x) = x"
    using codec.length_enc [OF arr, of "ks_active x"] codec.length_enc [OF arr, of "ks_revoked x"]
      codec.dec_enc [OF arr, of "ks_active x"] codec.dec_enc [OF arr, of "ks_revoked x"]
    by (simp_all add: enc_pb_result_slc_key_status_def dec_pb_result_slc_key_status_def wf_pb_result_slc_key_status_def window_simps list_all_iff)
next
  note arr = le32.codec_array [of 16, simplified]
  fix bs :: "u8 list" assume "length bs = 128"
  then show "wf_pb_result_slc_key_status (dec_pb_result_slc_key_status bs)" "enc_pb_result_slc_key_status (dec_pb_result_slc_key_status bs) = bs"
    using codec.enc_dec [OF arr, of "window 0 64 bs"] codec.enc_dec [OF arr, of "window 64 64 bs"]
    by (simp_all add: enc_pb_result_slc_key_status_def dec_pb_result_slc_key_status_def wf_pb_result_slc_key_status_def window_glues)
qed

record pb_command_revoke_key =
  rk_key_id :: u32
  rk_rz :: "u8 list"

definition enc_pb_command_revoke_key :: "pb_command_revoke_key \<Rightarrow> u8 list" where
  "enc_pb_command_revoke_key x = le_bytes 4 (rk_key_id x) @ rk_rz x"

definition dec_pb_command_revoke_key :: "u8 list \<Rightarrow> pb_command_revoke_key" where
  "dec_pb_command_revoke_key bs = \<lparr>rk_key_id = le_word (window 0 4 bs), rk_rz = window 4 28 bs\<rparr>"

definition wf_pb_command_revoke_key :: "pb_command_revoke_key \<Rightarrow> bool" where
  "wf_pb_command_revoke_key x \<longleftrightarrow> length (rk_rz x) = 28"

interpretation w_rk: codec enc_pb_command_revoke_key dec_pb_command_revoke_key 32 wf_pb_command_revoke_key
proof
  fix bs :: "u8 list" assume "length bs = 32"
  then show "enc_pb_command_revoke_key (dec_pb_command_revoke_key bs) = bs" by (simp add: enc_pb_command_revoke_key_def dec_pb_command_revoke_key_def window_1 window_glues)
qed (simp_all add: enc_pb_command_revoke_key_def dec_pb_command_revoke_key_def wf_pb_command_revoke_key_def window_simps nth_append)

record pb_command_boot_part =
  bp_uuid :: "u8 list"
  bp_verbose :: u8
  bp_rz :: "u8 list"

definition enc_pb_command_boot_part :: "pb_command_boot_part \<Rightarrow> u8 list" where
  "enc_pb_command_boot_part x = bp_uuid x @ [bp_verbose x] @ bp_rz x"

definition dec_pb_command_boot_part :: "u8 list \<Rightarrow> pb_command_boot_part" where
  "dec_pb_command_boot_part bs = \<lparr>bp_uuid = window 0 16 bs, bp_verbose = bs ! 16,
      bp_rz = window 17 15 bs\<rparr>"

definition wf_pb_command_boot_part :: "pb_command_boot_part \<Rightarrow> bool" where
  "wf_pb_command_boot_part x \<longleftrightarrow> length (bp_uuid x) = 16 \<and> length (bp_rz x) = 15"

interpretation w_bp: codec enc_pb_command_boot_part dec_pb_command_boot_part 32 wf_pb_command_boot_part
proof
  fix bs :: "u8 list" assume "length bs = 32"
  then show "enc_pb_command_boot_part (dec_pb_command_boot_part bs) = bs" by (simp add: enc_pb_command_boot_part_def dec_pb_command_boot_part_def window_1 window_glues)
qed (simp_all add: enc_pb_command_boot_part_def dec_pb_command_boot_part_def wf_pb_command_boot_part_def window_simps nth_append)

record pb_command_bpak_boot =
  bb_verbose :: u8
  bb_uuid :: "u8 list"
  bb_rz :: "u8 list"

definition enc_pb_command_bpak_boot :: "pb_command_bpak_boot \<Rightarrow> u8 list" where
  "enc_pb_command_bpak_boot x = [bb_verbose x] @ bb_uuid x @ bb_rz x"

definition dec_pb_command_bpak_boot :: "u8 list \<Rightarrow> pb_command_bpak_boot" where
  "dec_pb_command_bpak_boot bs = \<lparr>bb_verbose = bs ! 0, bb_uuid = window 1 16 bs,
      bb_rz = window 17 15 bs\<rparr>"

definition wf_pb_command_bpak_boot :: "pb_command_bpak_boot \<Rightarrow> bool" where
  "wf_pb_command_bpak_boot x \<longleftrightarrow> length (bb_uuid x) = 16 \<and> length (bb_rz x) = 15"

interpretation w_bb: codec enc_pb_command_bpak_boot dec_pb_command_bpak_boot 32 wf_pb_command_bpak_boot
proof
  fix bs :: "u8 list" assume "length bs = 32"
  then show "enc_pb_command_bpak_boot (dec_pb_command_bpak_boot bs) = bs" by (simp add: enc_pb_command_bpak_boot_def dec_pb_command_bpak_boot_def window_1 window_glues)
qed (simp_all add: enc_pb_command_bpak_boot_def dec_pb_command_bpak_boot_def wf_pb_command_bpak_boot_def window_simps nth_append)

record pb_command_board =
  bc_command :: u32
  bc_request_size :: u32
  bc_response_buffer_size :: u32
  bc_rz :: "u8 list"

definition enc_pb_command_board :: "pb_command_board \<Rightarrow> u8 list" where
  "enc_pb_command_board x = le_bytes 4 (bc_command x) @ le_bytes 4 (bc_request_size x) @
     le_bytes 4 (bc_response_buffer_size x) @ bc_rz x"

definition dec_pb_command_board :: "u8 list \<Rightarrow> pb_command_board" where
  "dec_pb_command_board bs = \<lparr>bc_command = le_word (window 0 4 bs),
      bc_request_size = le_word (window 4 4 bs), bc_response_buffer_size = le_word (window 8 4 bs),
      bc_rz = window 12 20 bs\<rparr>"

definition wf_pb_command_board :: "pb_command_board \<Rightarrow> bool" where
  "wf_pb_command_board x \<longleftrightarrow> length (bc_rz x) = 20"

interpretation w_bc: codec enc_pb_command_board dec_pb_command_board 32 wf_pb_command_board
proof
  fix bs :: "u8 list" assume "length bs = 32"
  then show "enc_pb_command_board (dec_pb_command_board bs) = bs" by (simp add: enc_pb_command_board_def dec_pb_command_board_def window_1 window_glues)
qed (simp_all add: enc_pb_command_board_def dec_pb_command_board_def wf_pb_command_board_def window_simps nth_append)

record pb_result_board =
  br_size :: u32
  br_rz :: "u8 list"

definition enc_pb_result_board :: "pb_result_board \<Rightarrow> u8 list" where
  "enc_pb_result_board x = le_bytes 4 (br_size x) @ br_rz x"

definition dec_pb_result_board :: "u8 list \<Rightarrow> pb_result_board" where
  "dec_pb_result_board bs = \<lparr>br_size = le_word (window 0 4 bs), br_rz = window 4 28 bs\<rparr>"

definition wf_pb_result_board :: "pb_result_board \<Rightarrow> bool" where
  "wf_pb_result_board x \<longleftrightarrow> length (br_rz x) = 28"

interpretation w_br: codec enc_pb_result_board dec_pb_result_board 32 wf_pb_result_board
proof
  fix bs :: "u8 list" assume "length bs = 32"
  then show "enc_pb_result_board (dec_pb_result_board bs) = bs" by (simp add: enc_pb_result_board_def dec_pb_result_board_def window_1 window_glues)
qed (simp_all add: enc_pb_result_board_def dec_pb_result_board_def wf_pb_result_board_def window_simps nth_append)

record pb_result_board_status =
  bs_size :: u32
  bs_rz :: "u8 list"

definition enc_pb_result_board_status :: "pb_result_board_status \<Rightarrow> u8 list" where
  "enc_pb_result_board_status x = le_bytes 4 (bs_size x) @ bs_rz x"

definition dec_pb_result_board_status :: "u8 list \<Rightarrow> pb_result_board_status" where
  "dec_pb_result_board_status bs = \<lparr>bs_size = le_word (window 0 4 bs), bs_rz = window 4 28 bs\<rparr>"

definition wf_pb_result_board_status :: "pb_result_board_status \<Rightarrow> bool" where
  "wf_pb_result_board_status x \<longleftrightarrow> length (bs_rz x) = 28"

interpretation w_bs: codec enc_pb_result_board_status dec_pb_result_board_status 32 wf_pb_result_board_status
proof
  fix bs :: "u8 list" assume "length bs = 32"
  then show "enc_pb_result_board_status (dec_pb_result_board_status bs) = bs" by (simp add: enc_pb_result_board_status_def dec_pb_result_board_status_def window_1 window_glues)
qed (simp_all add: enc_pb_result_board_status_def dec_pb_result_board_status_def wf_pb_result_board_status_def window_simps nth_append)

record pb_result_boot_status =
  bt_uuid :: "u8 list"
  bt_status :: "u8 list"

definition enc_pb_result_boot_status :: "pb_result_boot_status \<Rightarrow> u8 list" where
  "enc_pb_result_boot_status x = bt_uuid x @ bt_status x"

definition dec_pb_result_boot_status :: "u8 list \<Rightarrow> pb_result_boot_status" where
  "dec_pb_result_boot_status bs = \<lparr>bt_uuid = window 0 16 bs, bt_status = window 16 16 bs\<rparr>"

definition wf_pb_result_boot_status :: "pb_result_boot_status \<Rightarrow> bool" where
  "wf_pb_result_boot_status x \<longleftrightarrow> length (bt_uuid x) = 16 \<and>
     length (bt_status x) = 16"

interpretation w_bt: codec enc_pb_result_boot_status dec_pb_result_boot_status 32 wf_pb_result_boot_status
proof
  fix bs :: "u8 list" assume "length bs = 32"
  then show "enc_pb_result_boot_status (dec_pb_result_boot_status bs) = bs" by (simp add: enc_pb_result_boot_status_def dec_pb_result_boot_status_def window_1 window_glues)
qed (simp_all add: enc_pb_result_boot_status_def dec_pb_result_boot_status_def wf_pb_result_boot_status_def window_simps nth_append)

subsection \<open>Building and checking commands and results\<close>

definition pb_wire_valid_result :: "pb_result \<Rightarrow> bool" where
  "pb_wire_valid_result result = (if res_magic result \<noteq> PB_WIRE_MAGIC then False else True)"

text \<open>The result code is converted to \<open>uint8_t\<close>; the field is read as \<open>int8_t\<close>.\<close>

definition pb_wire_init_result :: "int \<Rightarrow> int \<times> pb_result" where
  "pb_wire_init_result result_code =
     (PB_RESULT_OK,
      \<lparr>res_magic = PB_WIRE_MAGIC, res_result_code = word_of_int result_code, res_rz = replicate 3 0,
       res_response = replicate 504 0\<rparr>)"

definition pb_wire_init_result2 :: "int \<Rightarrow> u8 list \<Rightarrow> int \<times> pb_result" where
  "pb_wire_init_result2 result_code dat =
     (let result = snd (pb_wire_init_result result_code) in
      if length dat > 504 then (- PB_RESULT_NO_MEMORY, result)
      else (PB_RESULT_OK, result\<lparr>res_response := overlay (res_response result) dat\<rparr>))"

definition pb_wire_init_command :: "u8 \<Rightarrow> int \<times> pb_command" where
  "pb_wire_init_command command_code =
     (PB_RESULT_OK,
      \<lparr>cmd_magic = PB_WIRE_MAGIC, cmd_command = command_code, cmd_rz = replicate 3 0,
       cmd_request = replicate 504 0\<rparr>)"

definition pb_wire_init_command2 :: "u8 \<Rightarrow> u8 list \<Rightarrow> int \<times> pb_command" where
  "pb_wire_init_command2 command_code dat =
     (let command = snd (pb_wire_init_command command_code) in
      if length dat > 504 then (- PB_RESULT_NO_MEMORY, command)
      else (PB_RESULT_OK, command\<lparr>cmd_request := overlay (cmd_request command) dat\<rparr>))"

definition pb_wire_requires_auth :: "pb_command \<Rightarrow> bool" where
  "pb_wire_requires_auth command =
     (case pb_command_of (cmd_command command) of
        Some PB_CMD_DEVICE_IDENTIFIER_READ \<Rightarrow> False
      | Some PB_CMD_AUTHENTICATE \<Rightarrow> False
      | _ \<Rightarrow> True)"

definition pb_wire_valid_command :: "pb_command \<Rightarrow> bool" where
  "pb_wire_valid_command command =
     (if cmd_magic command \<noteq> PB_WIRE_MAGIC then False
      else cmd_command command > pb_command_code PB_CMD_INVALID \<and>
           cmd_command command < pb_command_code PB_CMD_END)"

end
