(* ===== verification/Cm.thy ===== *)
theory Cm
  imports Device_Uuid Wire Slc
begin

text \<open>
  The command mode \<open>src/cm/cm_main.c\<close>: the handlers of the commands a host sends, the guard in
  front of them, and the loop that receives commands.

  The transport is a driver on the world. \<open>read\<close> only starts a transfer; the bytes that have
  arrived in the buffer of the pending read are part of the result of \<open>complete\<close>. Waiting
  for a transfer may go on forever, which is the result \<open>None\<close>; so is an access past the end
  of the two buffers, which are one list of \<open>2 * buf_size\<close> bytes. The static pointer \<open>cfg\<close>
  and everything that is fixed at build time or belongs to other modules is the argument
  \<open>cm_env\<close>; the callbacks of the board act on the whole state.
\<close>

record 'w cm_transport_ops =
  t_init :: "('w \<Rightarrow> int \<times> 'w) option"
  t_connect :: "('w \<Rightarrow> int \<times> 'w) option"
  t_disconnect :: "('w \<Rightarrow> int \<times> 'w) option"
  t_read :: "u64 \<Rightarrow> 'w \<Rightarrow> int \<times> 'w"
  t_write :: "u8 list \<Rightarrow> 'w \<Rightarrow> int \<times> 'w"
  t_complete :: "'w \<Rightarrow> int \<times> u8 list \<times> 'w"

text \<open>
  \<open>status\<close> and \<open>command\<close> get the size of the response buffer and return the bytes they stored
  and the new size.
\<close>

record ('w, 's) cm_config =
  cm_name :: "u8 list"
  status :: "u64 \<Rightarrow> 's \<Rightarrow> int \<times> u8 list \<times> u64 \<times> 's"
  password_auth :: "(u8 list \<Rightarrow> 's \<Rightarrow> int \<times> 's) option"
  board_command :: "u32 \<Rightarrow> u8 list \<Rightarrow> u64 \<Rightarrow> 's \<Rightarrow> int \<times> u8 list \<times> u64 \<times> 's"
  process :: "('s \<Rightarrow> 's) option"
  tops :: "'w cm_transport_ops"

record ('w, 's) cm_env =
  cm_cfg :: "('w, 's) cm_config"
  cm_platform :: "'s platform"
  cm_boot_cfg :: "'s boot_driver option"
  cm_slc_cfg :: "'s slc_config option"
  cm_board_init :: "'s \<Rightarrow> int \<times> 's"
  cm_unique_id :: "'s \<Rightarrow> int \<times> u8 list \<times> 's"
  cm_ns_uuid :: uuid_t
  us_tick :: "'s \<Rightarrow> u32"
  wdog_kick :: "'w \<Rightarrow> 'w"
  timeout_init :: "'w \<Rightarrow> 'w"
  timeout_expired :: "'w \<Rightarrow> bool \<times> 'w"
  buf_size :: nat
  conf_auth :: bool
  conf_auth_token :: bool
  conf_auth_password :: bool
  pb_version :: "u8 list"

record 'w cm_vars = "'w devid" +
  cmd :: pb_command
  cm_result :: pb_result
  authenticated :: bool
  buffer :: "u8 list"
  slc :: int
  hash_buf :: "u8 list"
  device_uu :: uuid_t
  block_dev :: int
  reboot_requested :: bool

text \<open>The request as a struct of \<open>n\<close> bytes.\<close>

abbreviation request :: "(u8 list \<Rightarrow> 'a) \<Rightarrow> nat \<Rightarrow> ('w, 'z) cm_vars_scheme \<Rightarrow> 'a" where
  "request dec n s \<equiv> dec (take n (cmd_request (cmd s)))"

text \<open>\<open>pb_wire_init_result(&result, code)\<close> and the variant with data.\<close>

definition set_result :: "int \<Rightarrow> ('w, 'z) cm_vars_scheme \<Rightarrow> ('w, 'z) cm_vars_scheme" where
  "set_result code s = s\<lparr>cm_result := snd (pb_wire_init_result code)\<rparr>"

definition set_result2 :: "int \<Rightarrow> u8 list \<Rightarrow> ('w, 'z) cm_vars_scheme \<Rightarrow> ('w, 'z) cm_vars_scheme" where
  "set_result2 code dat s = s\<lparr>cm_result := snd (pb_wire_init_result2 code dat)\<rparr>"

fun error_to_wire :: "int \<Rightarrow> int" where
  "error_to_wire error_code =
     (if error_code = PB_OK then PB_RESULT_OK
      else if error_code = err PB_ERR then - PB_RESULT_ERROR
      else if error_code = err PB_ERR_TIMEOUT then - PB_RESULT_TIMEOUT
      else if error_code = err PB_ERR_KEY_REVOKED then - PB_RESULT_KEY_REVOKED
      else if error_code = err PB_ERR_SIGNATURE then - PB_RESULT_SIGNATURE_ERROR
      else if error_code = err PB_ERR_CHECKSUM then - PB_RESULT_ERROR
      else if error_code = err PB_ERR_MEM then - PB_RESULT_MEM_ERROR
      else if error_code = err PB_ERR_IO then - PB_RESULT_IO_ERROR
      else if error_code = err PB_ERR_NOT_FOUND then - PB_RESULT_NOT_FOUND
      else if error_code = err PB_ERR_NOT_AUTHENTICATED then - PB_RESULT_NOT_AUTHENTICATED
      else if error_code = err PB_ERR_AUTHENTICATION_FAILED then - PB_RESULT_AUTHENTICATION_FAILED
      else if error_code = err PB_ERR_INVALID_ARGUMENT then - PB_RESULT_INVALID_ARGUMENT
      else if error_code = err PB_ERR_INVALID_COMMAND then - PB_RESULT_INVALID_COMMAND
      else if error_code = err PB_ERR_PART_NOT_FOUND then - PB_RESULT_NOT_FOUND
      else if error_code = err PB_ERR_PART_NOT_BOOTABLE then - PB_RESULT_PART_NOT_BOOTABLE
      else if error_code = err PB_ERR_PARAM then - PB_RESULT_INVALID_ARGUMENT
      else if error_code = err PB_ERR_NOT_SUPPORTED then - PB_RESULT_NOT_SUPPORTED
      else - PB_RESULT_ERROR)"

declare error_to_wire.simps [simp del]

definition cm_board_cmd_request_reboot_on_success :: "('w, 'z) cm_vars_scheme \<Rightarrow> ('w, 'z) cm_vars_scheme" where
  "cm_board_cmd_request_reboot_on_success s = s\<lparr>reboot_requested := True\<rparr>"

subsection \<open>The transport\<close>

text \<open>
  \<open>do rc = complete(); while (rc == -PB_ERR_AGAIN)\<close>; \<open>got\<close> is what has been stored to the
  buffer of the transfer so far, from its start.
\<close>

partial_function (option) await :: "'w cm_transport_ops \<Rightarrow> u8 list \<Rightarrow> 'w \<Rightarrow> (int \<times> u8 list \<times> 'w) option" where
  "await ops got w =
     (case t_complete ops w of (rc, data, w) \<Rightarrow>
      let got = data @ drop (length data) got in
      if rc = err PB_ERR_AGAIN then await ops got w else Some (rc, got, w))"

definition cm_write ::
  "('w, 's) cm_env \<Rightarrow> u8 list \<Rightarrow> ('w, 'z) cm_vars_scheme \<Rightarrow> (int \<times> ('w, 'z) cm_vars_scheme) option" where
  "cm_write E buf s =
     (case t_write (tops (cm_cfg E)) buf (world s) of (rc, w) \<Rightarrow>
      if rc \<noteq> PB_OK then Some (rc, s\<lparr>world := w\<rparr>)
      else do {
        (rc, _, w) \<leftarrow> await (tops (cm_cfg E)) [] w;
        Some (rc, s\<lparr>world := w\<rparr>)
      })"

text \<open>The second result is what was stored to the buffer of \<open>len\<close> bytes, from its start.\<close>

definition cm_read ::
  "('w, 's) cm_env \<Rightarrow> u64 \<Rightarrow> ('w, 'z) cm_vars_scheme \<Rightarrow> (int \<times> u8 list \<times> ('w, 'z) cm_vars_scheme) option" where
  "cm_read E len s =
     (case t_read (tops (cm_cfg E)) len (world s) of (rc, w) \<Rightarrow>
      if rc \<noteq> PB_OK then Some (rc, [], s\<lparr>world := w\<rparr>)
      else do {
        (rc, got, w) \<leftarrow> await (tops (cm_cfg E)) [] w;
        Some (rc, take (unat len) got, s\<lparr>world := w\<rparr>)
      })"

text \<open>\<open>cm_write(&result, sizeof(result))\<close>, and reading \<open>n\<close> bytes to offset \<open>off\<close> of the buffers.\<close>

abbreviation send_result :: "('w, 's) cm_env \<Rightarrow> ('w, 'z) cm_vars_scheme \<Rightarrow> (int \<times> ('w, 'z) cm_vars_scheme) option" where
  "send_result E s \<equiv> cm_write E (enc_pb_result (cm_result s)) s"

definition read_to_buffer ::
  "('w, 's) cm_env \<Rightarrow> nat \<Rightarrow> nat \<Rightarrow> ('w, 'z) cm_vars_scheme \<Rightarrow> (int \<times> ('w, 'z) cm_vars_scheme) option" where
  "read_to_buffer E off n s =
     do {
       (rc, data, s) \<leftarrow> cm_read E (of_nat n) s;
       Some (rc, s\<lparr>buffer := blit off data (buffer s)\<rparr>)
     }"

subsection \<open>Authentication\<close>

definition token_hash_kind :: "dsa_t \<Rightarrow> hash_t option" where
  "token_hash_kind dsa_kind =
     (if dsa_kind = DSA_EC_SECP256r1 then Some HASH_SHA256
      else if dsa_kind = DSA_EC_SECP384r1 then Some HASH_SHA384
      else if dsa_kind = DSA_EC_SECP521r1 then Some HASH_SHA512
      else None)"

definition auth_token ::
  "('w, ('w, 'z) cm_vars_scheme) cm_env \<Rightarrow> u32 \<Rightarrow> u8 list \<Rightarrow> ('w, 'z) cm_vars_scheme \<Rightarrow>
   (int \<times> ('w, 'z) cm_vars_scheme) option" where
  "auth_token E kid sig s =
     (case rot_read_key_status (rot_cfg (cm_platform E)) kid s of (rc, s) \<Rightarrow>
      if rc \<noteq> PB_OK then Some (rc, s)
      else case rot_get_dsa_key (keystore_pb (cm_platform E)) (rot_cfg (cm_platform E)) kid s of (rc, key, s) \<Rightarrow>
      if rc \<noteq> PB_OK then Some (rc, s)
      else do {
        device_uu_str \<leftarrow> uuid_unparse (device_uu s);
        (dsa_kind, key_der_data) \<leftarrow> key;
        case token_hash_kind dsa_kind of
          None \<Rightarrow> Some (err PB_ERR_NOT_SUPPORTED, s)
        | Some hk \<Rightarrow>
            (case hash_init hk s of (rc, s) \<Rightarrow>
             if rc \<noteq> PB_OK then Some (rc, s)
             else case hash_update (take 36 device_uu_str) s of (rc, s) \<Rightarrow>
             if rc \<noteq> PB_OK then Some (rc, s)
             else case hash_final (of_nat (length (hash_buf s))) s of (rc, digest, s) \<Rightarrow>
             let s = s\<lparr>hash_buf := overlay (hash_buf s) digest\<rparr> in
             if rc \<noteq> PB_OK then Some (rc, s)
             else case dsa_verify dsa_kind sig key_der_data hk (hash_buf s) s of (rc, ok, s) \<Rightarrow>
             if rc = 0 \<and> ok = Some True then Some (PB_OK, s)
             else Some (err PB_ERR_AUTHENTICATION_FAILED, s))
      })"

text \<open>
  One of the two methods: answer, read the authentication data, check it by \<open>check\<close> and
  remember the outcome.
\<close>

definition auth_with ::
  "('w, 's) cm_env \<Rightarrow> (u8 list \<Rightarrow> ('w, 'z) cm_vars_scheme \<Rightarrow> (int \<times> ('w, 'z) cm_vars_scheme) option) \<Rightarrow>
   u16 \<Rightarrow> ('w, 'z) cm_vars_scheme \<Rightarrow> (int \<times> ('w, 'z) cm_vars_scheme) option" where
  "auth_with E check sz s =
     do {
       (_, s) \<leftarrow> send_result E (set_result PB_RESULT_OK s);
       (_, s) \<leftarrow> read_to_buffer E 0 1024 s;
       (rc, s) \<leftarrow> check (take (unat sz) (buffer s)) s;
       Some (rc, set_result (error_to_wire rc) (s\<lparr>authenticated := (rc = PB_OK)\<rparr>))
     }"

definition cmd_auth ::
  "('w, ('w, 'z) cm_vars_scheme) cm_env \<Rightarrow> ('w, 'z) cm_vars_scheme \<Rightarrow> (int \<times> ('w, 'z) cm_vars_scheme) option" where
  "cmd_auth E s =
     (let auth_cmd = request dec_pb_command_authenticate 32 s;
          s = set_result (- PB_RESULT_NOT_SUPPORTED) s
      in do {
        (rc, s) \<leftarrow>
          (if conf_auth_token E \<and> au_method auth_cmd = PB_AUTH_ASYM_TOKEN
           then auth_with E (auth_token E (au_key_id auth_cmd)) (au_size auth_cmd) s
           else Some (err PB_ERR_NOT_IMPLEMENTED, s));
        case password_auth (cm_cfg E) of
          Some pw \<Rightarrow>
            if conf_auth_password E \<and> au_method auth_cmd = PB_AUTH_PASSWORD
            then auth_with E (\<lambda>data s. Some (pw data s)) (au_size auth_cmd) s
            else Some (rc, s)
        | None \<Rightarrow> Some (rc, s)
      })"

subsection \<open>Board commands and images\<close>

definition cmd_board ::
  "('w, ('w, 'z) cm_vars_scheme) cm_env \<Rightarrow> ('w, 'z) cm_vars_scheme \<Rightarrow> (int \<times> ('w, 'z) cm_vars_scheme) option" where
  "cmd_board E s =
     (let board_cmd = request dec_pb_command_board 32 s in
      do {
        (_, s) \<leftarrow> send_result E (set_result PB_RESULT_OK s);
        (rc, s) \<leftarrow> (if bc_request_size board_cmd \<noteq> 0 then read_to_buffer E 0 1024 s else Some (PB_OK, s));
        if rc \<noteq> PB_OK then Some (rc, set_result (error_to_wire rc) s)
        else
          case board_command (cm_cfg E) (bc_command board_cmd)
                 (take (unat (bc_request_size board_cmd)) (buffer s)) (of_nat (buf_size E)) s of
            (rc, data, response_size, s) \<Rightarrow>
              let s = s\<lparr>buffer := blit (buf_size E) data (buffer s)\<rparr>;
                  s = set_result2 (error_to_wire rc)
                    (enc_pb_result_board \<lparr>br_size = ucast response_size, br_rz = replicate 28 0\<rparr>) s
              in if response_size \<noteq> 0 then do {
                   (_, s) \<leftarrow> send_result E s;
                   if buf_size E + unat response_size > length (buffer s) then None
                   else do {
                     (_, s) \<leftarrow> cm_write E (window (buf_size E) (unat response_size) (buffer s)) s;
                     Some (rc, s)
                   }
                 }
                 else Some (rc, s)
      })"

text \<open>
  The block of the image header, \<open>no_of_blocks - 4096 / block_size\<close>, which is computed in 64
  bits and stored to an \<open>lba_t\<close>; \<open>None\<close> is a division by zero.
\<close>

definition header_lba :: "int \<Rightarrow> ('w, 'z) bio_scheme \<Rightarrow> u32 option" where
  "header_lba dev s =
     (if bio_block_size s dev = 0 then None
      else Some (ucast (word_of_int (bio_get_no_of_blocks s dev) -
             (4096 :: u64) div word_of_int (bio_block_size s dev))))"

definition cmd_bpak_read ::
  "('w, ('w, 'z) cm_vars_scheme) cm_env \<Rightarrow> ('w, 'z) cm_vars_scheme \<Rightarrow> (int \<times> ('w, 'z) cm_vars_scheme) option" where
  "cmd_bpak_read E s =
     (let read_cmd = request dec_pb_command_read_bpak 32 s;
          dev = bio_get_part_by_uu (Some (rp_uuid read_cmd)) s
      in if dev < 0 then Some (dev, set_result (error_to_wire dev) s)
         else do {
           lba \<leftarrow> header_lba dev s;
           case bio_read dev lba 4096 s of (rc, data, s) \<Rightarrow>
           let s = s\<lparr>buffer := blit 0 (take 4096 data) (buffer s)\<rparr> in
           if rc \<noteq> PB_OK then Some (rc, set_result (error_to_wire rc) s)
           else
             let rc = bpak_valid_header (dec_header (take 4096 (buffer s))) in
             if rc \<noteq> BPAK_OK then Some (rc, set_result (- PB_RESULT_NOT_FOUND) s)
             else do {
               (_, s) \<leftarrow> send_result E (set_result (error_to_wire rc) s);
               (rc, s) \<leftarrow> cm_write E (take 4096 (buffer s)) s;
               Some (rc, set_result (error_to_wire rc) s)
             }
         })"

subsection \<open>Streaming\<close>

definition cmd_stream_init ::
  "('w, 's) cm_env \<Rightarrow> ('w, 'z) cm_vars_scheme \<Rightarrow> (int \<times> ('w, 'z) cm_vars_scheme) option" where
  "cmd_stream_init E s =
     (let stream_init = request dec_pb_command_stream_initialize 32 s;
          dev = bio_get_part_by_uu (Some (si_part_uuid stream_init)) s;
          s = s\<lparr>block_dev := dev\<rparr>;
          s = (if dev < 0 then set_result (error_to_wire dev) s else set_result 0 s)
      in if dev < 0 then Some (dev, s) else Some (PB_OK, s))"

definition cmd_stream_prep_buffer ::
  "('w, 's) cm_env \<Rightarrow> ('w, 'z) cm_vars_scheme \<Rightarrow> (int \<times> ('w, 'z) cm_vars_scheme) option" where
  "cmd_stream_prep_buffer E s =
     (let stream_prep = request dec_pb_command_stream_prepare_buffer 32 s in
      if unat (pb_size stream_prep) > buf_size E
      then Some (err PB_ERR_MEM, set_result (- PB_RESULT_NO_MEMORY) s)
      else if pb_id stream_prep > 1
      then Some (err PB_ERR_MEM, set_result (- PB_RESULT_NO_MEMORY) s)
      else do {
        (_, s) \<leftarrow> send_result E (set_result PB_RESULT_OK s);
        read_to_buffer E (buf_size E * unat (pb_id stream_prep)) (unat (pb_size stream_prep)) s
      })"

text \<open>
  \<open>offset / block_size\<close> in 64 bits, converted to an \<open>lba_t\<close> by the call of \<open>bio_read\<close> or
  \<open>bio_write\<close>; \<open>None\<close> is a division by zero.
\<close>

definition start_lba :: "u64 \<Rightarrow> int \<Rightarrow> ('w, 'z) bio_scheme \<Rightarrow> u32 option" where
  "start_lba offset dev s =
     (if bio_block_size s dev = 0 then None
      else Some (ucast (offset div word_of_int (bio_block_size s dev))))"

text \<open>Neither the buffer number nor the size is checked: past the buffers is \<open>None\<close>.\<close>

definition cmd_stream_read ::
  "('w, 's) cm_env \<Rightarrow> ('w, 'z) cm_vars_scheme \<Rightarrow> (int \<times> ('w, 'z) cm_vars_scheme) option" where
  "cmd_stream_read E s =
     (let stream_read = request dec_pb_command_stream_read_buffer 32 s;
          bfr = buf_size E * unat (rb_buffer_id stream_read)
      in if (bio_get_flags s (block_dev s)) AND uint BIO_FLAG_READABLE = 0
         then Some (err PB_ERR_IO, set_result (- PB_RESULT_IO_ERROR) s)
         else do {
           lba \<leftarrow> start_lba (rb_offset stream_read) (block_dev s) s;
           case bio_read (block_dev s) lba (ucast (rb_size stream_read)) s of (rc, data, s) \<Rightarrow>
           if bfr + length data > length (buffer s) then None
           else do {
             let s = s\<lparr>buffer := blit bfr data (buffer s)\<rparr>;
             (_, s) \<leftarrow> send_result E (set_result (error_to_wire rc) s);
             if rc = PB_OK then
               if bfr + unat (rb_size stream_read) > length (buffer s) then None
               else do {
                 (rc, s) \<leftarrow> cm_write E (window bfr (unat (rb_size stream_read)) (buffer s)) s;
                 Some (rc, set_result (error_to_wire rc) s)
               }
             else Some (rc, s)
           }
         })"

text \<open>\<open>bio_write\<close> gets as far as calling the driver, which reads the buffer.\<close>

definition bio_write_calls :: "int \<Rightarrow> u32 \<Rightarrow> u64 \<Rightarrow> ('w, 'z) bio_scheme \<Rightarrow> bool" where
  "bio_write_calls dev lba len s \<longleftrightarrow>
     check_dev s dev = PB_OK \<and> dev_write (bio_dev s dev) \<noteq> None \<and> check_lba_range s dev lba len = 0"

definition cmd_stream_write ::
  "('w, 's) cm_env \<Rightarrow> ('w, 'z) cm_vars_scheme \<Rightarrow> (int \<times> ('w, 'z) cm_vars_scheme) option" where
  "cmd_stream_write E s =
     (let stream_write = request dec_pb_command_stream_write_buffer 32 s;
          bfr = buf_size E * unat (wb_buffer_id stream_write);
          n = unat (wb_size stream_write)
      in if (bio_get_flags s (block_dev s)) AND uint BIO_FLAG_WRITABLE = 0
         then Some (err PB_ERR_IO, set_result (error_to_wire (err PB_ERR_IO)) s)
         else do {
           lba \<leftarrow> start_lba (wb_offset stream_write) (block_dev s) s;
           if bfr + n > length (buffer s) \<and> bio_write_calls (block_dev s) lba (ucast (wb_size stream_write)) s
           then None
           else case bio_write (block_dev s) lba (ucast (wb_size stream_write)) (window bfr n (buffer s)) s of
             (rc, s) \<Rightarrow> Some (rc, set_result (error_to_wire rc) s)
         })"

definition cmd_stream_final ::
  "('w, 's) cm_env \<Rightarrow> ('w, 'z) cm_vars_scheme \<Rightarrow> (int \<times> ('w, 'z) cm_vars_scheme) option" where
  "cmd_stream_final E s = Some (PB_OK, set_result PB_RESULT_OK s)"

subsection \<open>Partitions\<close>

lemma chunk_decreases:
  assumes "n \<noteq> (0 :: u64)" and "b \<noteq> 0"
  shows "unat (n - of_nat (min (unat n) b)) = unat n - min (unat n) b" and "unat n - min (unat n) b < unat n"
proof -
  have "unat (of_nat (min (unat n) b) :: u64) = min (unat n) b"
    using unat_word_less [of n] by (simp add: unat_of_nat min_def)
  then show "unat (n - of_nat (min (unat n) b)) = unat n - min (unat n) b"
    by (subst unat_sub) (simp_all add: word_le_nat_alt)
  show "unat n - min (unat n) b < unat n" using assms by (simp add: unat_gt_0)
qed

text \<open>
  The loop over the chunks. \<open>buffer_id\<close> alternates; the size of a buffer is not zero. An error
  of the read or of the hash sets the result and leaves the loop.
\<close>

function verify_chunks ::
  "('w, 's) cm_env \<Rightarrow> u64 \<Rightarrow> u32 \<Rightarrow> bool \<Rightarrow> ('w, 'z) cm_vars_scheme \<Rightarrow> (int \<times> ('w, 'z) cm_vars_scheme) option" where
  "verify_chunks E bytes_to_verify lba_offset buffer_id s =
     (if bytes_to_verify = 0 then Some (PB_OK, s)
      else if buf_size E = 0 then None
      else
        let chunk_len = min (unat bytes_to_verify) (buf_size E);
            buffer_id = (\<not> buffer_id);
            bfr = (if buffer_id then buf_size E else 0)
        in case bio_read (block_dev s) lba_offset (of_nat chunk_len) s of (rc, data, s) \<Rightarrow>
           let s = s\<lparr>buffer := blit bfr (take chunk_len data) (buffer s)\<rparr> in
           if rc \<noteq> PB_OK then Some (rc, set_result (- PB_RESULT_PART_VERIFY_FAILED) s)
           else case hash_update_async (window bfr chunk_len (buffer s)) s of (rc, s) \<Rightarrow>
           if rc \<noteq> PB_OK then Some (rc, set_result (error_to_wire rc) s)
           else if bio_block_size s (block_dev s) = 0 then None
           else verify_chunks E (bytes_to_verify - of_nat chunk_len)
                  (lba_offset + ucast (of_nat chunk_len div (word_of_int (bio_block_size s (block_dev s)) :: u64)))
                  buffer_id s)"
  by pat_completeness auto

termination
  by (relation "measure (\<lambda>(E, n, _). unat n)") (auto simp: chunk_decreases)

declare verify_chunks.simps [simp del]

definition cmd_part_verify ::
  "('w, 's) cm_env \<Rightarrow> ('w, 'z) cm_vars_scheme \<Rightarrow> (int \<times> ('w, 'z) cm_vars_scheme) option" where
  "cmd_part_verify E s =
     (let verify_cmd = request dec_pb_command_verify_part 55 s;
          dev = bio_get_part_by_uu (Some (vp_uuid verify_cmd)) s;
          s = s\<lparr>block_dev := dev\<rparr>
      in if dev < 0 then Some (dev, set_result (error_to_wire dev) s)
         else case hash_init HASH_SHA256 s of (rc, s) \<Rightarrow>
         if rc \<noteq> PB_OK then Some (rc, set_result (error_to_wire rc) s)
         else do {
           (stop, rc, bytes_to_verify, s) \<leftarrow>
             (if vp_bpak verify_cmd \<noteq> 0 then do {
                lba \<leftarrow> header_lba dev s;
                case bio_read dev lba 4096 s of (rc, data, s) \<Rightarrow>
                let s = s\<lparr>buffer := blit 0 (take 4096 data) (buffer s)\<rparr> in
                if rc \<noteq> PB_OK then Some (True, rc, 0, set_result (error_to_wire rc) s)
                else case hash_update_async (take 4096 (buffer s)) s of (rc, s) \<Rightarrow>
                if rc \<noteq> PB_OK then Some (True, rc, 0, set_result (- PB_RESULT_PART_VERIFY_FAILED) s)
                else Some (False, PB_OK, ucast (vp_size verify_cmd) - 4096, s)
              }
              else Some (False, PB_OK, ucast (vp_size verify_cmd) :: u64, s));
           if stop then Some (rc, s)
           else do {
             (rc, s) \<leftarrow> verify_chunks E bytes_to_verify 0 False s;
             if rc \<noteq> PB_OK then Some (rc, s)
             else case hash_final (of_nat (length (hash_buf s))) s of (rc, digest, s) \<Rightarrow>
             let s = s\<lparr>hash_buf := overlay (hash_buf s) digest\<rparr> in
             if rc \<noteq> PB_OK then Some (rc, set_result (error_to_wire rc) s)
             else if memcmp (take 32 (hash_buf s)) (vp_sha256 verify_cmd) = 0
             then Some (PB_OK, set_result (error_to_wire PB_OK) s)
             else Some (errno PB_ERR_CHECKSUM, set_result (- PB_RESULT_PART_VERIFY_FAILED) s)
           }
         })"

definition cmd_part_erase ::
  "pb_command_erase_part \<Rightarrow> ('w, 'z) cm_vars_scheme \<Rightarrow> int \<times> ('w, 'z) cm_vars_scheme" where
  "cmd_part_erase erase_cmd s =
     (let dev = bio_get_part_by_uu (Some (ep_uuid erase_cmd)) s in
      if dev < 0 then (dev, s)
      else bio_erase dev (ep_start_lba erase_cmd) (ucast (ep_block_count erase_cmd)) s)"

text \<open>
  One entry of the table, stored over what the buffer holds: the last byte of the description
  and the reserved bytes are not written.
\<close>

definition table_entry ::
  "('w, 'z) cm_vars_scheme \<Rightarrow> int \<Rightarrow> uuid_t \<Rightarrow> u8 list \<Rightarrow> pb_result_part_table_entry \<Rightarrow> pb_result_part_table_entry" where
  "table_entry s dev uu descr old =
     old\<lparr>pte_uuid := uuid_copy uu,
         pte_description := overlay (pte_description old) (strncpy (c_str descr) 36),
         pte_first_block := word_of_int (bio_get_first_block s dev),
         pte_last_block := word_of_int (bio_get_last_block s dev),
         pte_block_size := word_of_int (bio_block_size s dev),
         pte_flags := word_of_int (bio_get_flags s dev)\<rparr>"

lemma bio_valid_range: "bio_valid s (int i) \<Longrightarrow> i < length (bio_pool s)"
  by (auto simp: bio_valid_def check_dev_def split: if_splits)

function part_tbl_entries ::
  "nat \<Rightarrow> nat \<Rightarrow> ('w, 'z) cm_vars_scheme \<Rightarrow> (nat \<times> ('w, 'z) cm_vars_scheme) option" where
  "part_tbl_entries dev entries s =
     (if \<not> bio_valid s (int dev) then Some (entries, s)
      else if (bio_get_flags s (int dev)) AND uint BIO_FLAG_VISIBLE = 0 then part_tbl_entries (dev + 1) entries s
      else if 128 * entries + 128 > length (buffer s) then None
      else
        let old = dec_pb_result_part_table_entry (window (128 * entries) 128 (buffer s));
            d = bio_dev s (int dev);
            new = table_entry s (int dev) (dev_uu d) (description d) old
        in part_tbl_entries (dev + 1) (entries + 1)
             (s\<lparr>buffer := blit (128 * entries) (enc_pb_result_part_table_entry new) (buffer s)\<rparr>))"
  by pat_completeness auto

termination
  by (relation "measure (\<lambda>(i, _, s). length (bio_pool s) - i)") (auto dest!: bio_valid_range)

declare part_tbl_entries.simps [simp del]

definition cmd_part_tbl_read ::
  "('w, 's) cm_env \<Rightarrow> ('w, 'z) cm_vars_scheme \<Rightarrow> (int \<times> ('w, 'z) cm_vars_scheme) option" where
  "cmd_part_tbl_read E s =
     do {
       (entries, s) \<leftarrow> part_tbl_entries 0 0 s;
       (_, s) \<leftarrow> send_result E (set_result2 PB_RESULT_OK
         (enc_pb_result_part_table_read \<lparr>ptr_no_of_entries = of_nat entries, ptr_rz = replicate 31 0\<rparr>) s);
       (_, s) \<leftarrow> (if entries \<noteq> 0 then cm_write E (take (128 * entries) (buffer s)) s else Some (PB_OK, s));
       Some (PB_RESULT_OK, set_result PB_RESULT_OK s)
     }"

subsection \<open>Booting from the host\<close>

text \<open>The image is sent in order: the block offset is ignored.\<close>

definition bpak_boot_read_f :: "('w, 's) cm_env \<Rightarrow> ('w, 'z) cm_vars_scheme boot_read_cb_t" where
  "bpak_boot_read_f E block_offset len s = cm_read E len s"

definition bpak_boot_result_f :: "('w, 's) cm_env \<Rightarrow> ('w, 'z) cm_vars_scheme boot_result_cb_t" where
  "bpak_boot_result_f E rc s = send_result E (set_result (error_to_wire rc) s)"

text \<open>A call of \<open>disconnect\<close>, if there is one.\<close>

definition disconnect :: "('w, 's) cm_env \<Rightarrow> ('w, 'z) cm_vars_scheme \<Rightarrow> ('w, 'z) cm_vars_scheme" where
  "disconnect E s =
     (case t_disconnect (tops (cm_cfg E)) of None \<Rightarrow> s | Some f \<Rightarrow> s\<lparr>world := snd (f (world s))\<rparr>)"

text \<open>As for \<open>boot_jump\<close>, the second component is the state that control was handed over in.\<close>

definition cmd_boot_bpak ::
  "('w, ('w, 'z) cm_vars_scheme) cm_env \<Rightarrow> ('w, 'z) cm_vars_scheme \<Rightarrow>
   (int \<times> ('w, 'z) cm_vars_scheme option \<times> ('w, 'z) cm_vars_scheme) option" where
  "cmd_boot_bpak E s =
     (let bpak_boot_cmd = request dec_pb_command_bpak_boot 32 s;
          s = boot_clear_set_flags 0
                (BOOT_FLAG_CMD OR (if bb_verbose bpak_boot_cmd \<noteq> 0 then BOOT_FLAG_VERBOSE else 0)) s
      in do {
        (rc, s) \<leftarrow> send_result E (set_result PB_RESULT_OK s);
        if rc \<noteq> PB_OK then Some (rc, None, s)
        else case boot_set_source BOOT_SOURCE_CB s of (_, s) \<Rightarrow>
        do {
          (rc, s) \<leftarrow> boot_load (cm_platform E) (cm_boot_cfg E) (Some (bpak_boot_read_f E)) (Some (bpak_boot_result_f E))
            (Some (bb_uuid bpak_boot_cmd)) s;
          if rc \<noteq> PB_OK then Some (rc, None, s)
          else boot_jump (cm_boot_cfg E) (disconnect E s)
        }
      })"

definition cmd_boot_part ::
  "('w, ('w, 'z) cm_vars_scheme) cm_env \<Rightarrow> ('w, 'z) cm_vars_scheme \<Rightarrow>
   (int \<times> ('w, 'z) cm_vars_scheme option \<times> ('w, 'z) cm_vars_scheme) option" where
  "cmd_boot_part E s =
     (let boot_cmd = request dec_pb_command_boot_part 32 s in
      case boot_set_source BOOT_SOURCE_BIO s of (_, s) \<Rightarrow>
      let s = boot_clear_set_flags 0
                (BOOT_FLAG_CMD OR (if bp_verbose boot_cmd \<noteq> 0 then BOOT_FLAG_VERBOSE else 0)) s
      in do {
        (rc, s) \<leftarrow> boot_load (cm_platform E) (cm_boot_cfg E) None None (Some (bp_uuid boot_cmd)) s;
        (_, s) \<leftarrow> send_result E (set_result (error_to_wire rc) s);
        let s = disconnect E s;
        if rc = PB_OK then boot_jump (cm_boot_cfg E) s else Some (rc, None, s)
      })"

subsection \<open>The life cycle and the keys\<close>

text \<open>
  The loop over the keys. \<open>rc\<close> keeps the status of the last key; a key with an index above 15
  is stored past the end of the arrays.
\<close>

fun key_status_from ::
  "'s rot_config option \<Rightarrow> nat list \<Rightarrow> int \<Rightarrow> pb_result_slc_key_status \<Rightarrow> 's \<Rightarrow>
   (int \<times> pb_result_slc_key_status \<times> 's) option" where
  "key_status_from cfg [] rc key_status s = Some (rc, key_status, s)"
| "key_status_from cfg (i # is) rc key_status s =
     (case rot_read_key_status_by_idx cfg (of_nat i) s of (rc, s) \<Rightarrow>
      let id = rot_key_idx_to_id cfg (of_nat i) in
      if rc = PB_OK then
        if i \<ge> 16 then None
        else key_status_from cfg is rc (key_status\<lparr>ks_active := (ks_active key_status)[i := id]\<rparr>) s
      else if rc = err PB_ERR_KEY_REVOKED then
        if i \<ge> 16 then None
        else key_status_from cfg is rc (key_status\<lparr>ks_revoked := (ks_revoked key_status)[i := id]\<rparr>) s
      else key_status_from cfg is rc key_status s)"

definition cmd_slc_read ::
  "('w, ('w, 'z) cm_vars_scheme) cm_env \<Rightarrow> ('w, 'z) cm_vars_scheme \<Rightarrow> (int \<times> ('w, 'z) cm_vars_scheme) option" where
  "cmd_slc_read E s =
     (case slc_read_status (cm_slc_cfg E) s of (st, s) \<Rightarrow>
      let s = s\<lparr>slc := st\<rparr> in
      if st < 0 then Some (st, s)
      else do {
        (_, s) \<leftarrow> send_result E (set_result2 (error_to_wire PB_OK)
          (enc_pb_result_slc \<lparr>rs_slc = word_of_int st, rs_rz = replicate 31 0\<rparr>) s);
        (rc, key_status, s) \<leftarrow> key_status_from (rot_cfg (cm_platform E))
          [0..<unat (rot_no_of_keys (rot_cfg (cm_platform E)))] PB_OK
          \<lparr>ks_active = replicate 16 0, ks_revoked = replicate 16 0\<rparr> s;
        (_, s) \<leftarrow> cm_write E (enc_pb_result_slc_key_status key_status) s;
        Some (rc, set_result (error_to_wire PB_OK) s)
      })"

text \<open>The three transitions: the result is sent, and the status is read again.\<close>

definition slc_transition ::
  "('w, ('w, 'z) cm_vars_scheme) cm_env \<Rightarrow> int \<times> ('w, 'z) cm_vars_scheme \<Rightarrow> int \<times> ('w, 'z) cm_vars_scheme" where
  "slc_transition E r =
     (case r of (rc, s) \<Rightarrow>
      case slc_read_status (cm_slc_cfg E) (set_result (error_to_wire rc) s) of (st, s) \<Rightarrow> (rc, s\<lparr>slc := st\<rparr>))"

subsection \<open>The commands\<close>

text \<open>
  What a handler leads to: a reply, which is sent behind the label \<open>err_out\<close>, or a return
  without a reply, with the state that control was handed over in, if it was.
\<close>

datatype 's cm_outcome = Reply int 's | Return int "'s option" 's

abbreviation replies :: "(int \<times> 's) option \<Rightarrow> 's cm_outcome option" where
  "replies r \<equiv> map_option (\<lambda>(rc, s). Reply rc s) r"

abbreviation returns :: "(int \<times> 's option \<times> 's) option \<Rightarrow> 's cm_outcome option" where
  "returns r \<equiv> map_option (\<lambda>(rc, j, s). Return rc j s) r"

text \<open>A call whose result code is translated and sent.\<close>

abbreviation with_result :: "int \<times> ('w, 'z) cm_vars_scheme \<Rightarrow> int \<times> ('w, 'z) cm_vars_scheme" where
  "with_result r \<equiv> (case r of (rc, s) \<Rightarrow> (rc, set_result (error_to_wire rc) s))"

definition read_version :: "('w, 's) cm_env \<Rightarrow> ('w, 'z) cm_vars_scheme \<Rightarrow> (int \<times> ('w, 'z) cm_vars_scheme) option" where
  "read_version E s =
     do {
       (_, version_string) \<leftarrow> snprintf 30 (bytes ''%s'') [Str_arg (pb_version E)];
       Some (PB_OK, set_result2 PB_RESULT_OK (take (strlen version_string) version_string) s)
     }"

definition device_caps :: "('w, 's) cm_env \<Rightarrow> pb_result_device_caps" where
  "device_caps E =
     \<lparr>caps_stream_no_of_buffers = 2, caps_stream_buffer_size = of_nat (buf_size E), caps_operation_timeout_ms = 0,
      caps_part_erase_timeout_ms = 0, caps_bpak_stream_support = 0,
      caps_chunk_transfer_max_bytes = of_nat (buf_size E), caps_rz = replicate 18 0\<rparr>"

text \<open>The struct is built in the buffers; the reserved bytes are what the buffers hold.\<close>

definition read_identifier :: "('w, 's) cm_env \<Rightarrow> ('w, 'z) cm_vars_scheme \<Rightarrow> int \<times> ('w, 'z) cm_vars_scheme" where
  "read_identifier E s =
     (let buf = blit 0 (device_uu s) (blit 16 (cm_name (cm_cfg E)) (blit 16 (replicate 16 0) (buffer s)));
          s = s\<lparr>buffer := buf\<rparr>
      in (PB_OK, set_result2 (error_to_wire PB_OK) (take 55 buf) s))"

definition read_board_status ::
  "('w, ('w, 'z) cm_vars_scheme) cm_env \<Rightarrow> ('w, 'z) cm_vars_scheme \<Rightarrow> (int \<times> ('w, 'z) cm_vars_scheme) option" where
  "read_board_status E s =
     (case status (cm_cfg E) (of_nat (buf_size E)) s of (rc, data, response_size, s) \<Rightarrow>
      let s = s\<lparr>buffer := blit 0 data (buffer s)\<rparr>;
          s = set_result2 (error_to_wire rc)
            (enc_pb_result_board_status \<lparr>bs_size = ucast response_size, bs_rz = replicate 28 0\<rparr>) s
      in do {
        (_, s) \<leftarrow> send_result E s;
        if unat response_size > length (buffer s) then None
        else do {
          (_, s) \<leftarrow> cm_write E (take (unat response_size) (buffer s)) s;
          Some (rc, s)
        }
      })"

definition read_boot_status ::
  "('w, ('w, 'z) cm_vars_scheme) cm_env \<Rightarrow> ('w, 'z) cm_vars_scheme \<Rightarrow> int \<times> ('w, 'z) cm_vars_scheme" where
  "read_boot_status E s =
     (case boot_get_boot_partition (cm_boot_cfg E) s of (uu, s) \<Rightarrow>
      (PB_RESULT_OK, set_result2 (error_to_wire PB_OK)
         (enc_pb_result_boot_status \<lparr>bt_uuid = uu, bt_status = replicate 16 0\<rparr>) s))"

text \<open>The \<open>switch\<close> over the command.\<close>

definition dispatch ::
  "('w, ('w, 'z) cm_vars_scheme) cm_env \<Rightarrow> ('w, 'z) cm_vars_scheme \<Rightarrow> ('w, 'z) cm_vars_scheme cm_outcome option" where
  "dispatch E s =
     (case pb_command_of (cmd_command (cmd s)) of
        Some PB_CMD_BOOTLOADER_VERSION_READ \<Rightarrow> replies (read_version E s)
      | Some PB_CMD_DEVICE_RESET \<Rightarrow>
          do {
            (_, s) \<leftarrow> send_result E (set_result PB_RESULT_OK s);
            Some (Return (err PB_ERR_ABORT) None s)
          }
      | Some PB_CMD_PART_TBL_READ \<Rightarrow> replies (cmd_part_tbl_read E s)
      | Some PB_CMD_DEVICE_READ_CAPS \<Rightarrow>
          Some (Reply PB_OK (set_result2 PB_RESULT_OK (enc_pb_result_device_caps (device_caps E)) s))
      | Some PB_CMD_BOOT_BPAK \<Rightarrow> returns (cmd_boot_bpak E s)
      | Some PB_CMD_PART_TBL_INSTALL \<Rightarrow>
          (let install_cmd = request dec_pb_command_install_part_table 17 s in
           replies (map_option with_result
             (bio_install_partition_table (\<lambda>_ dev variant s. gpt_install_partition_table (us_tick E s) dev variant s)
               (Some (it_uu install_cmd)) (uint (it_variant install_cmd)) s)))
      | Some PB_CMD_STREAM_INITIALIZE \<Rightarrow> replies (cmd_stream_init E s)
      | Some PB_CMD_STREAM_PREPARE_BUFFER \<Rightarrow> replies (cmd_stream_prep_buffer E s)
      | Some PB_CMD_STREAM_READ_BUFFER \<Rightarrow> replies (cmd_stream_read E s)
      | Some PB_CMD_STREAM_WRITE_BUFFER \<Rightarrow> replies (cmd_stream_write E s)
      | Some PB_CMD_STREAM_FINALIZE \<Rightarrow> replies (cmd_stream_final E s)
      | Some PB_CMD_PART_BPAK_READ \<Rightarrow> replies (cmd_bpak_read E s)
      | Some PB_CMD_PART_VERIFY \<Rightarrow> replies (cmd_part_verify E s)
      | Some PB_CMD_BOOT_PART \<Rightarrow> returns (cmd_boot_part E s)
      | Some PB_CMD_DEVICE_IDENTIFIER_READ \<Rightarrow> replies (Some (read_identifier E s))
      | Some PB_CMD_PART_ACTIVATE \<Rightarrow>
          replies (Some (with_result (boot_set_boot_partition (cm_boot_cfg E)
            (Some (ap_uuid (request dec_pb_command_activate_part 32 s))) s)))
      | Some PB_CMD_AUTHENTICATE \<Rightarrow> replies (cmd_auth E s)
      | Some PB_CMD_AUTH_SET_PASSWORD \<Rightarrow> Some (Reply PB_OK (set_result (- PB_RESULT_NOT_SUPPORTED) s))
      | Some PB_CMD_BOARD_COMMAND \<Rightarrow> replies (cmd_board E s)
      | Some PB_CMD_BOARD_STATUS_READ \<Rightarrow> replies (read_board_status E s)
      | Some PB_CMD_SLC_SET_CONFIGURATION \<Rightarrow>
          replies (Some (slc_transition E (slc_set_configuration (cm_slc_cfg E) s)))
      | Some PB_CMD_SLC_SET_CONFIGURATION_LOCK \<Rightarrow>
          replies (Some (slc_transition E (slc_set_configuration_locked (cm_slc_cfg E) s)))
      | Some PB_CMD_SLC_SET_EOL \<Rightarrow> replies (map_option (slc_transition E) (slc_set_eol (cm_slc_cfg E) s))
      | Some PB_CMD_SLC_REVOKE_KEY \<Rightarrow>
          replies (Some (with_result (rot_revoke_key (rot_cfg (cm_platform E))
            (rk_key_id (request dec_pb_command_revoke_key 32 s)) s)))
      | Some PB_CMD_SLC_READ \<Rightarrow> replies (map_option with_result (cmd_slc_read E s))
      | Some PB_CMD_PART_RESIZE \<Rightarrow> Some (Reply PB_OK (set_result (- PB_RESULT_NOT_SUPPORTED) s))
      | Some PB_CMD_BOOT_STATUS \<Rightarrow> replies (Some (read_boot_status E s))
      | Some PB_CMD_PART_ERASE \<Rightarrow>
          replies (Some (with_result (cmd_part_erase (request dec_pb_command_erase_part 32 s) s)))
      | _ \<Rightarrow> Some (Reply PB_OK (set_result (- PB_RESULT_INVALID_COMMAND) s)))"

text \<open>The label \<open>err_out\<close>.\<close>

definition err_out ::
  "('w, 's) cm_env \<Rightarrow> int \<Rightarrow> ('w, 'z) cm_vars_scheme \<Rightarrow>
   (int \<times> ('w, 'z) cm_vars_scheme option \<times> ('w, 'z) cm_vars_scheme) option" where
  "err_out E rc s =
     do {
       (_, s) \<leftarrow> send_result E s;
       if reboot_requested s \<and> rc = 0 then Some (err PB_ERR_ABORT, None, s\<lparr>reboot_requested := False\<rparr>)
       else Some (rc, None, s)
     }"

definition pb_command_parse ::
  "('w, ('w, 'z) cm_vars_scheme) cm_env \<Rightarrow> ('w, 'z) cm_vars_scheme \<Rightarrow>
   (int \<times> ('w, 'z) cm_vars_scheme option \<times> ('w, 'z) cm_vars_scheme) option" where
  "pb_command_parse E s =
     (if \<not> pb_wire_valid_command (cmd s) then err_out E PB_OK (set_result (- PB_RESULT_INVALID_COMMAND) s)
      else if pb_wire_requires_auth (cmd s) \<and> \<not> authenticated s \<and> slc s = SLC_CONFIGURATION_LOCKED
      then err_out E PB_OK (set_result (- PB_RESULT_NOT_AUTHENTICATED) s)
      else do {
        r \<leftarrow> dispatch E (set_result (- PB_RESULT_NOT_SUPPORTED) s);
        case r of Return rc j s \<Rightarrow> Some (rc, j, s) | Reply rc s \<Rightarrow> err_out E rc s
      })"

subsection \<open>The main loop\<close>

text \<open>The new value of the static pointer \<open>cfg\<close>.\<close>

definition cm_init :: "('w, 's) cm_config \<Rightarrow> int \<times> ('w, 's) cm_config option" where
  "cm_init cfg = (PB_OK, Some cfg)"

partial_function (option) await_connect ::
  "('w, 's) cm_env \<Rightarrow> ('w \<Rightarrow> int \<times> 'w) \<Rightarrow> 'w \<Rightarrow> (int \<times> 'w) option" where
  "await_connect E f w =
     (case f (wdog_kick E w) of (rc, w) \<Rightarrow>
      case timeout_expired E w of (expired, w) \<Rightarrow>
      if expired then Some (err PB_ERR_TIMEOUT, w)
      else if rc = err PB_ERR_AGAIN then await_connect E f w
      else Some (rc, w))"

text \<open>Waiting for a command: the bytes that arrive are stored to \<open>cmd\<close>.\<close>

partial_function (option) await_command ::
  "('w, ('w, 'z) cm_vars_scheme) cm_env \<Rightarrow> ('w, 'z) cm_vars_scheme \<Rightarrow> (int \<times> ('w, 'z) cm_vars_scheme) option" where
  "await_command E s =
     (let s = s\<lparr>world := wdog_kick E (world s)\<rparr>;
          s = (case process (cm_cfg E) of None \<Rightarrow> s | Some f \<Rightarrow> f s)
      in case t_complete (tops (cm_cfg E)) (world s) of (rc, data, w) \<Rightarrow>
         let s = s\<lparr>world := w, cmd := dec_pb_command (overlay (enc_pb_command (cmd s)) data)\<rparr> in
         if rc = err PB_ERR_TIMEOUT \<or> rc = err PB_ERR_AGAIN then await_command E s
         else Some (rc, s))"

text \<open>
  The loop over the commands. The second component of the result says that the transport has
  to be started again; the loop also ends when control is handed over.
\<close>

partial_function (option) cm_commands ::
  "('w, ('w, 'z) cm_vars_scheme) cm_env \<Rightarrow> ('w, 'z) cm_vars_scheme \<Rightarrow>
   (int \<times> bool \<times> ('w, 'z) cm_vars_scheme option \<times> ('w, 'z) cm_vars_scheme) option" where
  "cm_commands E s =
     (case t_read (tops (cm_cfg E)) 512 (world s) of (rc, w) \<Rightarrow>
      if rc \<noteq> PB_OK then Some (rc, False, None, s\<lparr>world := w\<rparr>)
      else do {
        (rc, s) \<leftarrow> await_command E (s\<lparr>world := w\<rparr>);
        if rc \<noteq> PB_OK then Some (rc, True, None, s)
        else do {
          (rc, j, s) \<leftarrow> pb_command_parse E s;
          if j \<noteq> None \<or> rc = err PB_ERR_ABORT then Some (rc, False, j, s)
          else cm_commands E s
        }
      })"

text \<open>
  The label \<open>restart_command_mode\<close>: the start of the transport. The second component of the
  result says whether its \<open>init\<close> succeeded; without that \<open>disconnect\<close> is not called.
\<close>

definition transport_start ::
  "('w, 's) cm_env \<Rightarrow> ('w, 'z) cm_vars_scheme \<Rightarrow> (int \<times> bool \<times> ('w, 'z) cm_vars_scheme) option" where
  "transport_start E s =
     (case (case t_init (tops (cm_cfg E)) of None \<Rightarrow> (PB_OK, world s) | Some f \<Rightarrow> f (world s)) of (rc, w) \<Rightarrow>
      if rc \<noteq> PB_OK then Some (err PB_ERR_IO, False, s\<lparr>world := w\<rparr>)
      else do {
        (rc, w) \<leftarrow> (case t_connect (tops (cm_cfg E)) of
           None \<Rightarrow> Some (PB_OK, w) | Some f \<Rightarrow> await_connect E f (timeout_init E w));
        Some (rc, True, s\<lparr>world := w\<rparr>)
      })"

partial_function (option) command_mode ::
  "('w, ('w, 'z) cm_vars_scheme) cm_env \<Rightarrow> ('w, 'z) cm_vars_scheme \<Rightarrow>
   (int \<times> ('w, 'z) cm_vars_scheme option \<times> ('w, 'z) cm_vars_scheme) option" where
  "command_mode E s =
     do {
       (rc, inited, s) \<leftarrow> transport_start E s;
       if \<not> inited then Some (rc, None, s)
       else if rc \<noteq> PB_OK then Some (rc, None, disconnect E s)
       else do {
         (rc, restart, j, s) \<leftarrow> cm_commands E s;
         if restart then command_mode E s
         else if j \<noteq> None then Some (rc, j, s)
         else Some (rc, None, disconnect E s)
       }
     }"

definition cm_run ::
  "('w, ('w, 'z) cm_vars_scheme) cm_env \<Rightarrow> ('w, 'z) cm_vars_scheme \<Rightarrow>
   (int \<times> ('w, 'z) cm_vars_scheme option \<times> ('w, 'z) cm_vars_scheme) option" where
  "cm_run E s =
     (case cm_board_init E s of (rc, s) \<Rightarrow>
      if rc \<noteq> PB_OK then Some (rc, None, s)
      else
        let s = s\<lparr>authenticated := \<not> conf_auth E\<rparr> in
        case slc_read_status (cm_slc_cfg E) s of (st, s) \<Rightarrow>
        let s = s\<lparr>slc := st\<rparr> in
        case device_uuid (cm_unique_id E) (cm_ns_uuid E) s of (_, uu, s) \<Rightarrow>
        command_mode E (s\<lparr>device_uu := (case uu of None \<Rightarrow> device_uu s | Some uu \<Rightarrow> uu)\<rparr>))"

end
