(* ===== verification/Cm_Auth.thy ===== *)
theory Cm_Auth
  imports Cm
begin

text \<open>
  The command mode as a guard: what a host can do to a locked device before it has
  authenticated, and what it takes to authenticate.

  \<open>p\<close> is the part of the world that is to be protected, for instance the contents of the
  storage and of the fuses. A step is quiet if it leaves \<open>p\<close> and the whole state of the boot
  loader alone, except for the buffers of the command mode and the hash context.
\<close>

subsection \<open>Quiet steps\<close>

text \<open>Everything but the world, the hash context and the buffers and flags of a session.\<close>

definition kept where
  "kept s = (mem s, bio_pool s, n_bios s, fuse_box s, fuse_dev s, dsa_ops s, no_of_dsa_ops s, hash_ops s,
     no_of_hash_ops s, primary_part s, backup_part s, boot_state s, boot_state_backup s, header s, header_ptr s,
     boot_flags s, boot_device s, boot_source_var s, boot_part_uu s, payload_digest s, prng_state s, pri_hdr s,
     pri_part s, bak_hdr s, bak_part s, gpt_pmbr s, gpt_dev s, gpt_tables s, dev_id s, slc s, device_uu s,
     block_dev s, cm_vars.more s)"

definition cm_frame :: "('w \<Rightarrow> 'p) \<Rightarrow> ('w, 'z) cm_vars_scheme \<Rightarrow> ('w, 'z) cm_vars_scheme \<Rightarrow> bool" where
  "cm_frame p s s' \<longleftrightarrow> p (world s') = p (world s) \<and> kept s' = kept s"

definition quiet :: "('w \<Rightarrow> 'p) \<Rightarrow> ('w, 'z) cm_vars_scheme \<Rightarrow> ('w, 'z) cm_vars_scheme \<Rightarrow> bool" where
  "quiet p s s' \<longleftrightarrow> cm_frame p s s' \<and> authenticated s' = authenticated s"

lemma cm_frame_refl [simp]: "cm_frame p s s" and quiet_refl [simp]: "quiet p s s"
  by (simp_all add: cm_frame_def quiet_def)

lemma cm_frame_trans: "cm_frame p s t \<Longrightarrow> cm_frame p t u \<Longrightarrow> cm_frame p s u"
  by (simp add: cm_frame_def)

lemma quiet_trans: "quiet p s t \<Longrightarrow> quiet p t u \<Longrightarrow> quiet p s u"
  by (simp add: cm_frame_def quiet_def)

lemma quiet_frame: "quiet p s t \<Longrightarrow> cm_frame p s t"
  by (simp add: quiet_def)

lemma cm_frame_sel:
  assumes "cm_frame p s s'"
  shows "slc s' = slc s" "device_uu s' = device_uu s" "hash_ops s' = hash_ops s" "dsa_ops s' = dsa_ops s"
    "p (world s') = p (world s)" "mem s' = mem s" "bio_pool s' = bio_pool s" "fuse_box s' = fuse_box s"
  using assms by (simp_all add: cm_frame_def kept_def)

lemma quiet_updates:
  shows "p w = p (world s) \<Longrightarrow> quiet p s (s\<lparr>world := w\<rparr>)" and "quiet p s (s\<lparr>current_hash_ops := c\<rparr>)"
    and "quiet p s (s\<lparr>cmd := m\<rparr>)" and "quiet p s (s\<lparr>cm_result := r\<rparr>)" and "quiet p s (s\<lparr>buffer := b\<rparr>)"
    and "quiet p s (s\<lparr>hash_buf := h\<rparr>)" and "quiet p s (s\<lparr>reboot_requested := q\<rparr>)"
    and "quiet p s (set_result rc s)" and "quiet p s (set_result2 rc d s)"
    and "p w = p (world s) \<Longrightarrow> quiet p s (s\<lparr>world := w, current_hash_ops := c\<rparr>)"
  by (simp_all add: quiet_def cm_frame_def kept_def set_result_def set_result2_def)

subsection \<open>What the drivers and callbacks leave alone\<close>

definition transport_keeps :: "('w \<Rightarrow> 'p) \<Rightarrow> 'w cm_transport_ops \<Rightarrow> bool" where
  "transport_keeps p ops \<longleftrightarrow> (\<forall>n w. p (snd (t_read ops n w)) = p w) \<and> (\<forall>b w. p (snd (t_write ops b w)) = p w) \<and>
     (\<forall>w. p (snd (snd (t_complete ops w))) = p w) \<and>
     (\<forall>f w. t_init ops = Some f \<or> t_connect ops = Some f \<longrightarrow> p (snd (f w)) = p w)"

definition hash_keeps_world :: "('w \<Rightarrow> 'p) \<Rightarrow> 'w hash_ops \<Rightarrow> bool" where
  "hash_keeps_world p ops \<longleftrightarrow> (\<forall>a w. p (snd (ho_init ops a w)) = p w) \<and> (\<forall>b w. p (snd (ho_update ops b w)) = p w) \<and>
     (\<forall>n w. p (snd (snd (ho_final ops n w))) = p w)"

definition drivers_keep :: "('w \<Rightarrow> 'p) \<Rightarrow> ('w, 'z) crypto_scheme \<Rightarrow> bool" where
  "drivers_keep p s \<longleftrightarrow> (\<forall>ops. Some ops \<in> set (hash_ops s) \<longrightarrow> hash_keeps_world p ops) \<and>
     (\<forall>ops sig key a md w. Some ops \<in> set (dsa_ops s) \<longrightarrow> p (snd (snd (do_verify ops sig key a md w))) = p w)"

text \<open>The callbacks of the board that run in front of the guard only change the world.\<close>

definition board_keeps :: "('w \<Rightarrow> 'p) \<Rightarrow> ('w, ('w, 'z) cm_vars_scheme) cm_env \<Rightarrow> bool" where
  "board_keeps p E \<longleftrightarrow> (\<forall>w. p (wdog_kick E w) = p w) \<and> (\<forall>w. p (timeout_init E w) = p w) \<and>
     (\<forall>w. p (snd (timeout_expired E w)) = p w) \<and>
     (\<forall>f s. process (cm_cfg E) = Some f \<longrightarrow> quiet p s (f s)) \<and>
     (\<forall>f d s. password_auth (cm_cfg E) = Some f \<longrightarrow> cm_frame p s (snd (f d s)))"

definition env_keeps :: "('w \<Rightarrow> 'p) \<Rightarrow> ('w, ('w, 'z) cm_vars_scheme) cm_env \<Rightarrow> bool" where
  "env_keeps p E \<longleftrightarrow> transport_keeps p (tops (cm_cfg E)) \<and> board_keeps p E \<and> rot_status_pure (rot_cfg (cm_platform E))"

lemma transport_keepsD:
  assumes "transport_keeps p ops"
  shows "t_read ops n w = (rc, w') \<Longrightarrow> p w' = p w" and "t_write ops b w = (rc, w') \<Longrightarrow> p w' = p w"
    and "t_complete ops w = (rc, d, w') \<Longrightarrow> p w' = p w"
    and "t_init ops = Some f \<Longrightarrow> f w = (rc, w') \<Longrightarrow> p w' = p w"
    and "t_connect ops = Some f \<Longrightarrow> f w = (rc, w') \<Longrightarrow> p w' = p w"
  using assms unfolding transport_keeps_def by (metis snd_conv)+

lemma await_keeps:
  assumes "transport_keeps p ops" and "await ops got w = Some (rc, got', w')"
  shows "p w' = p w"
proof -
  have "case r of (rc, got', w') \<Rightarrow> p w' = p w" if "await ops got w = Some r" for got w r
  proof (rule await.raw_induct [where P = "\<lambda>o' g w r. o' = ops \<longrightarrow> (case r of (rc, got', w') \<Rightarrow> p w' = p w)", rule_format, OF _ that refl])
    fix f o' g w r
    assume IH: "\<And>o' g w r. f o' g w = Some r \<Longrightarrow> o' = ops \<Longrightarrow> case r of (rc, got', w') \<Rightarrow> p w' = p w"
      and body: "(case t_complete o' w of (rc, data, w) \<Rightarrow> let got = data @ drop (length data) g in
          if rc = err PB_ERR_AGAIN then f o' got w else Some (rc, got, w)) = Some r" and o': "o' = ops"
    obtain rc1 d1 w1 where c: "t_complete ops w = (rc1, d1, w1)" by (cases "t_complete ops w")
    have "p w1 = p w" using transport_keepsD(3) [OF assms(1) c] .
    then show "case r of (rc, got', w') \<Rightarrow> p w' = p w"
      using body IH [of ops _ w1 r] by (auto simp: o' c Let_def split: if_splits)
  qed
  then show ?thesis using assms(2) by auto
qed

lemma cm_write_quiet:
  assumes "transport_keeps p (tops (cm_cfg E))" and "cm_write E b s = Some (rc, s')"
  shows "quiet p s s'"
  using assms(2) await_keeps [OF assms(1)] transport_keepsD(2) [OF assms(1)]
  by (auto simp: cm_write_def Option.bind_eq_Some_conv quiet_def cm_frame_def kept_def split: prod.splits if_splits)

lemma cm_read_quiet:
  assumes "transport_keeps p (tops (cm_cfg E))" and "cm_read E n s = Some (rc, d, s')"
  shows "quiet p s s'"
  using assms(2) await_keeps [OF assms(1)] transport_keepsD(1) [OF assms(1)]
  by (auto simp: cm_read_def Option.bind_eq_Some_conv quiet_def cm_frame_def kept_def split: prod.splits if_splits)

lemma read_to_buffer_quiet:
  assumes "transport_keeps p (tops (cm_cfg E))" and "read_to_buffer E off n s = Some (rc, s')"
  shows "quiet p s s'"
proof -
  obtain d t where "cm_read E (of_nat n) s = Some (rc, d, t)" "s' = t\<lparr>buffer := blit off d (buffer t)\<rparr>"
    using assms(2) by (auto simp: read_to_buffer_def Option.bind_eq_Some_conv)
  then show ?thesis using cm_read_quiet [OF assms(1)] quiet_updates(5) quiet_trans by metis
qed

lemma err_out_quiet:
  assumes "transport_keeps p (tops (cm_cfg E))" and "err_out E rc s = Some (rc', j, s')"
  shows "j = None \<and> quiet p s s'"
proof -
  obtain rc1 t where w: "cm_write E (enc_pb_result (cm_result s)) s = Some (rc1, t)"
      "j = None" "s' = t \<or> s' = t\<lparr>reboot_requested := False\<rparr>"
    using assms(2) by (auto simp: err_out_def Option.bind_eq_Some_conv split: if_splits)
  then show ?thesis using cm_write_quiet [OF assms(1) w(1)] quiet_updates(7) quiet_trans by metis
qed

definition ctx_keeps :: "('w \<Rightarrow> 'p) \<Rightarrow> ('w, 'z) crypto_scheme \<Rightarrow> bool" where
  "ctx_keeps p s \<longleftrightarrow> (\<forall>ops. current_hash_ops s = Some ops \<longrightarrow> hash_keeps_world p ops)"

lemma hash_keeps_worldD:
  assumes "hash_keeps_world p ops"
  shows "ho_init ops a w = (rc, w') \<Longrightarrow> p w' = p w" and "ho_update ops b w = (rc, w') \<Longrightarrow> p w' = p w"
    and "ho_final ops n w = (rc, d, w') \<Longrightarrow> p w' = p w"
  using assms unfolding hash_keeps_world_def by (metis snd_conv)+

lemma hash_init_quiet:
  fixes s :: "('w, 'z) cm_vars_scheme"
  assumes "drivers_keep p s" and "hash_init alg s = (rc, s')"
  shows "quiet p s s' \<and> ctx_keeps p s'"
proof (cases "find_hash_ops alg (hash_ops s)")
  case None
  then show ?thesis using assms(2) quiet_updates(2) by (auto simp: hash_init_def Let_def ctx_keeps_def)
next
  case (Some ops)
  then obtain w where w: "ho_init ops alg (world s) = (rc, w)" "s' = s\<lparr>world := w, current_hash_ops := Some ops\<rparr>"
    using assms(2) by (auto simp: hash_init_def Let_def split: prod.splits)
  have k: "hash_keeps_world p ops" using assms(1) find_hash_ops_in [OF Some] by (simp add: drivers_keep_def)
  then show ?thesis using w hash_keeps_worldD(1) [OF k w(1)] quiet_updates(10) by (simp add: ctx_keeps_def)
qed

lemma hash_update_quiet:
  fixes s :: "('w, 'z) cm_vars_scheme"
  assumes "ctx_keeps p s" and "hash_update b s = (rc, s')"
  shows "quiet p s s' \<and> ctx_keeps p s'"
proof (cases "current_hash_ops s")
  case None
  then show ?thesis using assms by (simp add: hash_update_def)
next
  case (Some ops)
  then obtain w where w: "ho_update ops b (world s) = (rc, w)" "s' = s\<lparr>world := w\<rparr>"
    using assms(2) by (auto simp: hash_update_def split: prod.splits)
  have k: "hash_keeps_world p ops" using assms(1) Some by (simp add: ctx_keeps_def)
  then show ?thesis using w hash_keeps_worldD(2) [OF k w(1)] quiet_updates(1) Some by (simp add: ctx_keeps_def)
qed

lemma hash_final_quiet:
  fixes s :: "('w, 'z) cm_vars_scheme"
  assumes "ctx_keeps p s" and "hash_final n s = (rc, d, s')"
  shows "quiet p s s'"
proof (cases "current_hash_ops s")
  case None
  then show ?thesis using assms by (simp add: hash_final_def)
next
  case (Some ops)
  then obtain w where w: "ho_final ops n (world s) = (rc, d, w)" "s' = s\<lparr>world := w, current_hash_ops := None\<rparr>"
    using assms(2) by (auto simp: hash_final_def split: prod.splits)
  have k: "hash_keeps_world p ops" using assms(1) Some by (simp add: ctx_keeps_def)
  then show ?thesis using w hash_keeps_worldD(3) [OF k w(1)] quiet_updates(10) by simp
qed

lemma dsa_quiet:
  fixes s :: "('w, 'z) cm_vars_scheme"
  assumes "drivers_keep p s" and "dsa_verify alg sig key md_alg md s = (rc, v, s')"
  shows "quiet p s s'"
proof (cases "find_dsa_ops alg (dsa_ops s)")
  case None
  then show ?thesis using assms(2) by (simp add: dsa_verify_def)
next
  case (Some ops)
  then obtain w where w: "do_verify ops sig key md_alg md (world s) = (rc, v, w)" "s' = s\<lparr>world := w\<rparr>"
    using assms(2) by (auto simp: dsa_verify_def split: prod.splits)
  have "p w = p (world s)"
    using assms(1) find_dsa_ops_in [OF Some] w(1) unfolding drivers_keep_def by (metis snd_conv)
  then show ?thesis using w(2) quiet_updates(1) by simp
qed

lemma drivers_keep_cong: "cm_frame p s s' \<Longrightarrow> drivers_keep p s \<Longrightarrow> drivers_keep p s'"
  using cm_frame_sel(3,4) [of p s s'] by (simp add: drivers_keep_def)

lemma rot_get_dsa_key_state:
  assumes "rot_status_pure cfg" and "rot_get_dsa_key ks cfg i s = (rc, key, s')"
  shows "s' = s"
proof -
  obtain rc1 s1 where st: "rot_read_key_status cfg i s = (rc1, s1)" by (cases "rot_read_key_status cfg i s")
  have "s1 = s" using rot_read_key_status_pure [OF assms(1) st] .
  then show ?thesis
    using assms(2) st
    by (auto simp: rot_get_dsa_key_def Let_def split: option.splits if_splits bpak_key_kind.splits)
qed

subsection \<open>The token\<close>

text \<open>The part of \<open>auth_token\<close> behind the choice of the hash.\<close>

definition check_token ::
  "dsa_t \<Rightarrow> u8 list \<Rightarrow> hash_t \<Rightarrow> u8 list \<Rightarrow> u8 list \<Rightarrow> ('w, 'z) cm_vars_scheme \<Rightarrow> int \<times> ('w, 'z) cm_vars_scheme" where
  "check_token dsa_kind der hk msg sig s =
     (case hash_init hk s of (rc, s) \<Rightarrow>
      if rc \<noteq> PB_OK then (rc, s)
      else case hash_update msg s of (rc, s) \<Rightarrow>
      if rc \<noteq> PB_OK then (rc, s)
      else case hash_final (of_nat (length (hash_buf s))) s of (rc, digest, s) \<Rightarrow>
      let s = s\<lparr>hash_buf := overlay (hash_buf s) digest\<rparr> in
      if rc \<noteq> PB_OK then (rc, s)
      else case dsa_verify dsa_kind sig der hk (hash_buf s) s of (rc, ok, s) \<Rightarrow>
      if rc = 0 \<and> ok = Some True then (PB_OK, s)
      else (err PB_ERR_AUTHENTICATION_FAILED, s))"

lemma check_token_quiet:
  assumes "drivers_keep p s" and "check_token dsa_kind der hk msg sig s = (rc, s')"
  shows "quiet p s s'"
proof -
  obtain rc1 s1 where 1: "hash_init hk s = (rc1, s1)" by (cases "hash_init hk s")
  note q1 = hash_init_quiet [OF assms(1) 1]
  obtain rc2 s2 where 2: "hash_update msg s1 = (rc2, s2)" by (cases "hash_update msg s1")
  note q2 = hash_update_quiet [OF conjunct2 [OF q1] 2]
  obtain rc3 d s3 where 3: "hash_final (of_nat (length (hash_buf s2))) s2 = (rc3, d, s3)"
    by (cases "hash_final (of_nat (length (hash_buf s2))) s2") auto
  note q3 = hash_final_quiet [OF conjunct2 [OF q2] 3]
  let ?s3 = "s3\<lparr>hash_buf := overlay (hash_buf s3) d\<rparr>"
  obtain rc4 ok s4 where 4: "dsa_verify dsa_kind sig der hk (hash_buf ?s3) ?s3 = (rc4, ok, s4)"
    by (cases "dsa_verify dsa_kind sig der hk (hash_buf ?s3) ?s3") auto
  have q: "quiet p s s2" "quiet p s ?s3"
    using q1 q2 q3 quiet_trans quiet_updates(6) by metis+
  have "quiet p ?s3 s4" using dsa_quiet [OF drivers_keep_cong [OF quiet_frame [OF q(2)] assms(1)] 4] .
  then have "quiet p s s4" using q(2) quiet_trans by metis
  then show ?thesis
    using assms(2) q q1 1 2 3 4 by (auto simp: check_token_def Let_def split: if_splits)
qed

lemma check_token_sound:
  assumes "check_token dsa_kind der hk msg sig s = (PB_OK, s')"
    and "hash_drivers s H st" and "dsa_drivers s V" and "length (hash_buf s) = 64" and "digest_len_of hk \<le> 64"
  shows "V der hk (H hk msg) sig"
proof -
  obtain s1 s2 d s3 s4 where 1: "hash_init hk s = (PB_OK, s1)" and 2: "hash_update msg s1 = (PB_OK, s2)"
    and 3: "hash_final (of_nat (length (hash_buf s2))) s2 = (PB_OK, d, s3)"
    and 4: "dsa_verify dsa_kind sig der hk (overlay (hash_buf s3) d) (s3\<lparr>hash_buf := overlay (hash_buf s3) d\<rparr>)
      = (PB_OK, Some True, s4)"
    using assms(1) by (auto simp: check_token_def Let_def split: prod.splits if_splits)
  note i = hash_init_OK [OF 1 assms(2)]
  note u = hash_update_OK [OF 2 i(1)]
  have d: "d = H hk msg" "length d = digest_len_of hk"
    using hash_final_OK [OF 3 u(1)] u(2) i(2) by simp_all
  have keep: "dsa_ops s3 = dsa_ops s" "hash_buf s3 = hash_buf s"
    using hash_keeps(1) [OF 1] hash_keeps(2) [OF 2] hash_keeps(4) [OF 3]
      crypto_frame_ops(1) [OF 1] crypto_frame_ops(2) [OF 2] crypto_frame_ops(4) [OF 3]
    by (auto simp: crypto_frame_def)
  have "dsa_drivers (s3\<lparr>hash_buf := overlay (hash_buf s3) d\<rparr>) V"
    using assms(3) keep(1) by (simp add: dsa_drivers_def)
  from dsa_verify_OK [OF 4 this] show ?thesis
    using d take_overlay [of d "hash_buf s3"] keep(2) assms(4,5) by simp
qed

lemma auth_token_cases:
  assumes "auth_token E k sig s = Some (rc, s')" and "rot_status_pure (rot_cfg (cm_platform E))"
  shows "s' = s \<and> rc \<noteq> PB_OK \<or>
    (\<exists>key dsa_kind hk. rot_read_key_status (rot_cfg (cm_platform E)) k s = (PB_OK, s) \<and>
       key \<in> set (keystore_pb (cm_platform E)) \<and> k_id key = k \<and> token_hash_kind dsa_kind = Some hk \<and>
       check_token dsa_kind (take (unat (k_size key)) (k_data key)) hk (uuid_text (device_uu s)) sig s = (rc, s'))"
proof -
  let ?cfg = "rot_cfg (cm_platform E)" and ?ks = "keystore_pb (cm_platform E)"
  obtain rc1 s1 where 1: "rot_read_key_status ?cfg k s = (rc1, s1)" by (cases "rot_read_key_status ?cfg k s")
  have s1: "s1 = s" using rot_read_key_status_pure [OF assms(2) 1] .
  obtain rc2 key s2 where 2: "rot_get_dsa_key ?ks ?cfg k s = (rc2, key, s2)" by (cases "rot_get_dsa_key ?ks ?cfg k s") auto
  have s2: "s2 = s" using rot_get_dsa_key_state [OF assms(2) 2] .
  have text36: "take 36 (uuid_text (device_uu s) @ [0]) = uuid_text (device_uu s)"
    by (simp add: uuid_text_def Let_def)
  show ?thesis
  proof (cases "rc1 = PB_OK \<and> rc2 = PB_OK")
    case False
    then show ?thesis using assms(1) 1 2 s1 s2 by (auto simp: auth_token_def split: if_splits)
  next
    case True
    then obtain key' d where k: "key' \<in> set ?ks" "k_id key' = k" "key = Some (d, take (unat (k_size key')) (k_data key'))"
      using rot_get_dsa_key_OK [OF _ assms(2)] 2 by metis
    show ?thesis
    proof (cases "token_hash_kind d")
      case None
      then show ?thesis using assms(1) 1 2 s1 s2 True k by (simp add: auth_token_def uuid_unparse_text)
    next
      case (Some hk)
      have "auth_token E k sig s =
          Some (check_token d (take (unat (k_size key')) (k_data key')) hk (uuid_text (device_uu s)) sig s)"
        unfolding auth_token_def check_token_def
        using 1 2 s1 s2 True k(3) Some text36 by (simp add: uuid_unparse_text Let_def split: prod.split)
      then show ?thesis using assms(1) 1 s1 True k(1,2) Some by auto
    qed
  qed
qed

text \<open>
  A successful authentication in state \<open>t\<close>: by a token, or by the password callback of the
  board.
\<close>

definition auth_event ::
  "('w, ('w, 'z) cm_vars_scheme) cm_env \<Rightarrow> ('w, 'z) cm_vars_scheme \<Rightarrow> bool" where
  "auth_event E t \<longleftrightarrow>
     (\<exists>k sig s'. conf_auth_token E \<and> auth_token E k sig t = Some (PB_OK, s')) \<or>
     (\<exists>f d s'. conf_auth_password E \<and> password_auth (cm_cfg E) = Some f \<and> f d t = (PB_OK, s'))"

lemma auth_with_cases:
  assumes "auth_with E check sz s = Some (rc, s')" and "transport_keeps p (tops (cm_cfg E))"
  obtains t u where "quiet p s t" "check (take (unat sz) (buffer t)) t = Some (rc, u)"
    "s' = set_result (error_to_wire rc) (u\<lparr>authenticated := (rc = PB_OK)\<rparr>)"
proof -
  obtain rc1 s1 rc2 t u where 1: "send_result E (set_result PB_RESULT_OK s) = Some (rc1, s1)"
    and 2: "read_to_buffer E 0 1024 s1 = Some (rc2, t)"
    and 3: "check (take (unat sz) (buffer t)) t = Some (rc, u)"
    and 4: "s' = set_result (error_to_wire rc) (u\<lparr>authenticated := (rc = PB_OK)\<rparr>)"
    using assms(1) by (auto simp: auth_with_def Option.bind_eq_Some_conv)
  have "quiet p s t"
    using quiet_trans [OF quiet_updates(8) quiet_trans [OF cm_write_quiet [OF assms(2) 1] read_to_buffer_quiet [OF assms(2) 2]]] .
  then show thesis using that 3 4 by blast
qed

lemma frame_authenticated: "cm_frame p s u \<Longrightarrow> cm_frame p s (set_result c (u\<lparr>authenticated := b\<rparr>))"
  by (simp add: cm_frame_def kept_def set_result_def)

lemma auth_token_quiet:
  assumes "auth_token E k sig s = Some (rc, s')" and "rot_status_pure (rot_cfg (cm_platform E))" and "drivers_keep p s"
  shows "quiet p s s'"
  using auth_token_cases [OF assms(1,2)] check_token_quiet [OF assms(3)] by auto

lemma auth_with_guard:
  assumes "auth_with E check sz s = Some (rc, s')" and "transport_keeps p (tops (cm_cfg E))"
    and "\<And>t u d. quiet p s t \<Longrightarrow> check d t = Some (rc, u) \<Longrightarrow>
      cm_frame p t u \<and> (rc = PB_OK \<longrightarrow> auth_event E t)"
  shows "cm_frame p s s' \<and> (authenticated s' \<longrightarrow> (\<exists>t. quiet p s t \<and> auth_event E t))"
proof -
  obtain t u where t: "quiet p s t" "check (take (unat sz) (buffer t)) t = Some (rc, u)"
    "s' = set_result (error_to_wire rc) (u\<lparr>authenticated := (rc = PB_OK)\<rparr>)"
    using auth_with_cases [OF assms(1,2)] .
  have "cm_frame p s u" using assms(3) [OF t(1,2)] quiet_frame [OF t(1)] cm_frame_trans by blast
  then show ?thesis using t assms(3) [OF t(1,2)] frame_authenticated by (auto simp: set_result_def)
qed

lemma cmd_auth_guard:
  assumes "cmd_auth E s = Some (rc, s')" and "env_keeps p E" and "drivers_keep p s" and "\<not> authenticated s"
  shows "cm_frame p s s' \<and> (authenticated s' \<longrightarrow> (\<exists>t. quiet p s t \<and> auth_event E t))"
proof -
  let ?a = "request dec_pb_command_authenticate 32 s" and ?s = "set_result (- PB_RESULT_NOT_SUPPORTED) s"
  have keeps: "transport_keeps p (tops (cm_cfg E))" "board_keeps p E" "rot_status_pure (rot_cfg (cm_platform E))"
    using assms(2) by (simp_all add: env_keeps_def)
  have q: "quiet p s ?s" by (rule quiet_updates(8))
  have tok: "cm_frame p t u \<and> (rc = PB_OK \<longrightarrow> auth_event E t)"
    if "conf_auth_token E" "quiet p ?s t" "auth_token E k d t = Some (rc, u)" for t u k d rc
  proof -
    have "drivers_keep p t"
      using drivers_keep_cong [OF quiet_frame [OF quiet_trans [OF q that(2)]] assms(3)] .
    then show ?thesis
      using quiet_frame [OF auth_token_quiet [OF that(3) keeps(3)]] that(1,3) by (auto simp: auth_event_def)
  qed
  have pw: "cm_frame p t u \<and> (rc = PB_OK \<longrightarrow> auth_event E t)"
    if "conf_auth_password E" "password_auth (cm_cfg E) = Some f" "f d t = (rc, u)" for f t u d rc
  proof -
    have "cm_frame p t (snd (f d t))" using keeps(2) that(2) by (simp add: board_keeps_def)
    then show ?thesis using that by (auto simp: auth_event_def)
  qed
  consider (token) "conf_auth_token E" "au_method ?a = PB_AUTH_ASYM_TOKEN"
      "auth_with E (auth_token E (au_key_id ?a)) (au_size ?a) ?s = Some (rc, s')"
    | (password) f where "conf_auth_password E" "password_auth (cm_cfg E) = Some f"
      "auth_with E (\<lambda>data s. Some (f data s)) (au_size ?a) ?s = Some (rc, s')"
    | (neither) "s' = ?s"
    using assms(1)
    by (auto simp: cmd_auth_def Let_def Option.bind_eq_Some_conv split: if_splits option.splits)
  then show ?thesis
  proof cases
    case token
    have "cm_frame p ?s s' \<and> (authenticated s' \<longrightarrow> (\<exists>t. quiet p ?s t \<and> auth_event E t))"
      by (rule auth_with_guard [OF token(3) keeps(1)]) (rule tok [OF token(1)])
    then show ?thesis using q quiet_trans cm_frame_trans quiet_frame by metis
  next
    case password
    have "cm_frame p ?s s' \<and> (authenticated s' \<longrightarrow> (\<exists>t. quiet p ?s t \<and> auth_event E t))"
      by (rule auth_with_guard [OF password(3) keeps(1)]) (rule pw [OF password(1,2)], simp)
    then show ?thesis using q quiet_trans cm_frame_trans quiet_frame by metis
  next
    case neither
    then show ?thesis using q assms(4) by (auto simp: quiet_def)
  qed
qed

subsection \<open>The loop\<close>

lemma await_connect_keeps:
  assumes "\<And>w. p (snd (f w)) = p w" and "board_keeps p E" and "await_connect E f w = Some (rc, w')"
  shows "p w' = p w"
proof -
  have "p (snd r) = p w" if "await_connect E f w = Some r" for w r
  proof (rule await_connect.raw_induct [where P = "\<lambda>E' f' w r. E' = E \<longrightarrow> f' = f \<longrightarrow> p (snd r) = p w",
        rule_format, OF _ that refl refl])
    fix g E' f' w r
    assume IH: "\<And>E' f' w r. g E' f' w = Some r \<Longrightarrow> E' = E \<Longrightarrow> f' = f \<Longrightarrow> p (snd r) = p w"
      and body: "(case f' (wdog_kick E' w) of (rc, w) \<Rightarrow> case timeout_expired E' w of (expired, w) \<Rightarrow>
        if expired then Some (err PB_ERR_TIMEOUT, w) else if rc = err PB_ERR_AGAIN then g E' f' w
        else Some (rc, w)) = Some r" and eq: "E' = E" "f' = f"
    obtain rc1 w1 where 1: "f (wdog_kick E w) = (rc1, w1)" by (cases "f (wdog_kick E w)")
    obtain x w2 where 2: "timeout_expired E w1 = (x, w2)" by (cases "timeout_expired E w1")
    have "p w1 = p w" using assms(1) [of "wdog_kick E w"] assms(2) 1 by (simp add: board_keeps_def)
    moreover have "p w2 = p w1" using assms(2) 2 unfolding board_keeps_def by (metis snd_conv)
    ultimately show "p (snd r) = p w"
      using body IH [of E f w2 r] by (auto simp: eq 1 2 split: if_splits)
  qed
  then show ?thesis using assms(3) by fastforce
qed

lemma await_command_quiet:
  assumes "transport_keeps p (tops (cm_cfg E))" and "board_keeps p E" and "await_command E s = Some (rc, s')"
  shows "quiet p s s'"
proof -
  have "quiet p s (snd r)" if "await_command E s = Some r" for s r
  proof (rule await_command.raw_induct [where P = "\<lambda>E' s r. E' = E \<longrightarrow> quiet p s (snd r)", rule_format, OF _ that refl])
    fix g E' s r
    assume IH: "\<And>E' s r. g E' s = Some r \<Longrightarrow> E' = E \<Longrightarrow> quiet p s (snd r)"
      and body: "(let s = s\<lparr>world := wdog_kick E' (world s)\<rparr>; s = (case process (cm_cfg E') of None \<Rightarrow> s | Some f \<Rightarrow> f s)
        in case t_complete (tops (cm_cfg E')) (world s) of (rc, data, w) \<Rightarrow>
          let s = s\<lparr>world := w, cmd := dec_pb_command (overlay (enc_pb_command (cmd s)) data)\<rparr> in
          if rc = err PB_ERR_TIMEOUT \<or> rc = err PB_ERR_AGAIN then g E' s else Some (rc, s)) = Some r" and eq: "E' = E"
    define s0 where "s0 = s\<lparr>world := wdog_kick E (world s)\<rparr>"
    define s1 where "s1 = (case process (cm_cfg E) of None \<Rightarrow> s0 | Some f \<Rightarrow> f s0)"
    obtain rc1 d w where 1: "t_complete (tops (cm_cfg E)) (world s1) = (rc1, d, w)"
      by (cases "t_complete (tops (cm_cfg E)) (world s1)") auto
    define s2 where "s2 = s1\<lparr>world := w, cmd := dec_pb_command (overlay (enc_pb_command (cmd s1)) d)\<rparr>"
    have "quiet p s s0" using assms(2) unfolding s0_def by (intro quiet_updates(1)) (simp add: board_keeps_def)
    moreover have "quiet p s0 s1" using assms(2) by (simp add: s1_def board_keeps_def split: option.split)
    moreover have "quiet p s1 s2"
      using transport_keepsD(3) [OF assms(1) 1] by (simp add: s2_def quiet_def cm_frame_def kept_def)
    ultimately have q: "quiet p s s2" using quiet_trans by metis
    have "(if rc1 = err PB_ERR_TIMEOUT \<or> rc1 = err PB_ERR_AGAIN then g E s2 else Some (rc1, s2)) = Some r"
      using body unfolding eq Let_def s0_def [symmetric] s1_def [symmetric] 1 s2_def by simp
    then show "quiet p s (snd r)" using IH [of E s2 r] q quiet_trans by (auto split: if_splits)
  qed
  then show ?thesis using assms(3) by fastforce
qed

lemma transport_start_quiet:
  assumes "transport_keeps p (tops (cm_cfg E))" and "board_keeps p E" and "transport_start E s = Some (rc, i, s')"
  shows "quiet p s s'"
proof -
  obtain rc1 w1 where 1: "(case t_init (tops (cm_cfg E)) of None \<Rightarrow> (PB_OK, world s) | Some f \<Rightarrow> f (world s)) = (rc1, w1)"
    by (cases "case t_init (tops (cm_cfg E)) of None \<Rightarrow> (PB_OK, world s) | Some f \<Rightarrow> f (world s)")
  then have w1: "p w1 = p (world s)" using transport_keepsD(4) [OF assms(1)] by (auto split: option.splits)
  have "p w2 = p w1" if "t_connect (tops (cm_cfg E)) = Some f" "await_connect E f (timeout_init E w1) = Some (rc2, w2)"
    for f rc2 w2
  proof -
    have "p (snd (f w)) = p w" for w using assms(1) that(1) by (simp add: transport_keeps_def)
    from await_connect_keeps [OF this assms(2) that(2)] show ?thesis using assms(2) by (simp add: board_keeps_def)
  qed
  then obtain w2 where "s' = s\<lparr>world := w2\<rparr>" "p w2 = p (world s)"
    using assms(3) 1 w1
    by (auto simp: transport_start_def Option.bind_eq_Some_conv split: if_splits option.splits)
  then show ?thesis using quiet_updates(1) by simp
qed

text \<open>
  A round of the loop in \<open>cm_run\<close>: a command is received and executed, \<open>j\<close> is the state in
  which it handed over control, if it did; or the receiver reports an error and the transport
  is started again. A session is a sequence of rounds that go on in the loop.
\<close>

inductive cm_step :: "('w, ('w, 'z) cm_vars_scheme) cm_env \<Rightarrow> ('w, 'z) cm_vars_scheme \<Rightarrow>
    ('w, 'z) cm_vars_scheme option \<Rightarrow> ('w, 'z) cm_vars_scheme \<Rightarrow> bool"
  for E where
  command: "t_read (tops (cm_cfg E)) 512 (world s) = (PB_OK, w) \<Longrightarrow>
    await_command E (s\<lparr>world := w\<rparr>) = Some (PB_OK, t) \<Longrightarrow> pb_command_parse E t = Some (rc, j, u) \<Longrightarrow>
    cm_step E s j u"
| restart: "t_read (tops (cm_cfg E)) 512 (world s) = (PB_OK, w) \<Longrightarrow>
    await_command E (s\<lparr>world := w\<rparr>) = Some (rc, t) \<Longrightarrow> rc \<noteq> PB_OK \<Longrightarrow>
    transport_start E t = Some (PB_OK, True, u) \<Longrightarrow> cm_step E s None u"

inductive cm_session :: "('w, ('w, 'z) cm_vars_scheme) cm_env \<Rightarrow> ('w, 'z) cm_vars_scheme \<Rightarrow>
    ('w, 'z) cm_vars_scheme \<Rightarrow> bool"
  for E where
  empty: "cm_session E s s"
| round: "cm_step E s None t \<Longrightarrow> cm_session E t u \<Longrightarrow> cm_session E s u"

text \<open>A command to a locked device that has not authenticated: only two commands are executed.\<close>

lemma pb_command_parse_guard:
  assumes "pb_command_parse E s = Some (rc, j, s')" and "env_keeps p E" and "drivers_keep p s"
    and "\<not> authenticated s" and "slc s = SLC_CONFIGURATION_LOCKED"
  shows "j = None \<and> cm_frame p s s' \<and> (authenticated s' \<longrightarrow> (\<exists>t. quiet p s t \<and> auth_event E t))"
proof -
  let ?s = "set_result (- PB_RESULT_NOT_SUPPORTED) s"
  have tk: "transport_keeps p (tops (cm_cfg E))" using assms(2) by (simp add: env_keeps_def)
  have q: "quiet p s (set_result c s)" for c by (rule quiet_updates(8))
  have reply: ?thesis if "err_out E c u = Some (rc, j, s')" "cm_frame p s u"
      "authenticated u \<longrightarrow> (\<exists>t. quiet p s t \<and> auth_event E t)" for c u
    using err_out_quiet [OF tk that(1)] that(2,3) cm_frame_trans by (auto simp: quiet_def)
  have refuse: ?thesis if "err_out E c (set_result d s) = Some (rc, j, s')" for c d
    using reply [OF that] quiet_frame [OF q] assms(4) by (simp add: set_result_def)
  consider (refused) d where "err_out E PB_OK (set_result d s) = Some (rc, j, s')"
    | (ident) "err_out E (fst (read_identifier E ?s)) (snd (read_identifier E ?s)) = Some (rc, j, s')"
    | (auth) rc1 u where "cmd_auth E ?s = Some (rc1, u)" "err_out E rc1 u = Some (rc, j, s')"
  proof (cases "pb_wire_requires_auth (cmd s)")
    case True
    then show thesis using assms(1,4,5) refused by (auto simp: pb_command_parse_def split: if_splits)
  next
    case False
    then have "pb_command_of (cmd_command (cmd ?s)) \<in> {Some PB_CMD_DEVICE_IDENTIFIER_READ, Some PB_CMD_AUTHENTICATE}"
      by (auto simp: pb_wire_requires_auth_def set_result_def split: option.splits pb_commands.splits)
    then show thesis
      using assms(1) False refused ident auth
      by (auto simp: pb_command_parse_def dispatch_def Option.bind_eq_Some_conv split: if_splits prod.splits)
  qed
  then show ?thesis
  proof cases
    case refused
    then show ?thesis by (rule refuse)
  next
    case ident
    have "quiet p ?s (snd (read_identifier E ?s))"
      by (simp add: read_identifier_def Let_def quiet_def cm_frame_def kept_def set_result2_def)
    then have i: "quiet p s (snd (read_identifier E ?s))" using q quiet_trans by metis
    show ?thesis using reply [OF ident quiet_frame [OF i]] i assms(4) by (auto simp: quiet_def)
  next
    case auth
    have d: "drivers_keep p ?s" and "\<not> authenticated ?s"
      using drivers_keep_cong [OF quiet_frame [OF q] assms(3)] assms(4) by (simp_all add: set_result_def)
    then have "cm_frame p ?s u \<and> (authenticated u \<longrightarrow> (\<exists>t. quiet p ?s t \<and> auth_event E t))"
      using cmd_auth_guard [OF auth(1) assms(2)] by simp
    then show ?thesis using reply [OF auth(2)] q quiet_trans cm_frame_trans quiet_frame by metis
  qed
qed

lemma cm_step_guard:
  assumes "cm_step E s j s'" and "env_keeps p E" and "drivers_keep p s"
    and "\<not> authenticated s" and "slc s = SLC_CONFIGURATION_LOCKED"
  shows "(j = None \<and> quiet p s s') \<or> (j = None \<and> (\<exists>v. quiet p s v \<and> auth_event E v))"
proof -
  have k: "transport_keeps p (tops (cm_cfg E))" "board_keeps p E" using assms(2) by (simp_all add: env_keeps_def)
  have recv: "quiet p s t"
    if "t_read (tops (cm_cfg E)) 512 (world s) = (PB_OK, w)" "await_command E (s\<lparr>world := w\<rparr>) = Some (rc, t)" for w rc t
    using quiet_trans [OF quiet_updates(1) await_command_quiet [OF k that(2)]] transport_keepsD(1) [OF k(1) that(1)] by simp
  show ?thesis using assms(1)
  proof (cases rule: cm_step.cases)
    case (command w t rc)
    have t: "quiet p s t" using recv [OF command(1,2)] .
    have "j = None \<and> cm_frame p t s' \<and> (authenticated s' \<longrightarrow> (\<exists>v. quiet p t v \<and> auth_event E v))"
      using pb_command_parse_guard [OF command(3) assms(2) drivers_keep_cong [OF quiet_frame [OF t] assms(3)]]
        t assms(4,5) cm_frame_sel(1) [OF quiet_frame [OF t]] by (simp add: quiet_def)
    then show ?thesis
      using t assms(4) quiet_trans [OF t] cm_frame_trans [OF quiet_frame [OF t], of s'] by (auto simp: quiet_def)
  next
    case (restart w rc t)
    then show ?thesis
      using quiet_trans [OF recv [OF restart(2,3)] transport_start_quiet [OF k restart(5)]] by simp
  qed
qed


text \<open>
  C3: What a token is worth. A token authenticates only if its key is in the key store of the
  boot loader and is not revoked, and if the token is a signature, under the data of that key,
  over the hash of the textual form of the UUID of this device, with the hash that belongs to
  the kind of the key.
\<close>

theorem token_is_signed_device_uuid:
  assumes "auth_token E k sig s = Some (PB_OK, s')" and "rot_status_pure (rot_cfg (cm_platform E))"
    and "hash_drivers s H st" and "dsa_drivers s V" and "length (hash_buf s) = 64"
  shows "rot_read_key_status (rot_cfg (cm_platform E)) k s = (PB_OK, s) \<and>
    (\<exists>key dsa_kind hk. key \<in> set (keystore_pb (cm_platform E)) \<and> k_id key = k \<and> token_hash_kind dsa_kind = Some hk \<and>
       V (take (unat (k_size key)) (k_data key)) hk (H hk (uuid_text (device_uu s))) sig)"
proof -
  obtain key dsa_kind hk where k: "rot_read_key_status (rot_cfg (cm_platform E)) k s = (PB_OK, s)"
      "key \<in> set (keystore_pb (cm_platform E))" "k_id key = k" "token_hash_kind dsa_kind = Some hk"
      "check_token dsa_kind (take (unat (k_size key)) (k_data key)) hk (uuid_text (device_uu s)) sig s = (PB_OK, s')"
    using auth_token_cases [OF assms(1,2)] by auto
  have "digest_len_of hk \<le> 64" by (simp add: digest_len_of_def)
  then show ?thesis using k check_token_sound [OF k(5) assms(3-5)] by blast
qed

text \<open>
  The loop as it is written is a session: it ends after one, by a step that hands over
  control, by a restart of the transport, or without either.
\<close>

definition loop_exit :: "('w, ('w, 'z) cm_vars_scheme) cm_env \<Rightarrow> ('w, 'z) cm_vars_scheme \<Rightarrow>
    int \<times> bool \<times> ('w, 'z) cm_vars_scheme option \<times> ('w, 'z) cm_vars_scheme \<Rightarrow> bool" where
  "loop_exit E t x \<longleftrightarrow> (case x of (rc, r, j, s') \<Rightarrow>
     (r \<longrightarrow> j = None \<and> (\<forall>u. transport_start E s' = Some (PB_OK, True, u) \<longrightarrow> cm_step E t None u)) \<and>
     (j \<noteq> None \<longrightarrow> cm_step E t j s'))"

lemma cm_commands_session:
  assumes "cm_commands E s = Some x"
  shows "\<exists>t. cm_session E s t \<and> loop_exit E t x"
proof (rule cm_commands.raw_induct [where P = "\<lambda>E' s x. E' = E \<longrightarrow> (\<exists>t. cm_session E s t \<and> loop_exit E t x)",
      rule_format, OF _ assms refl])
  fix g E' s x
  assume IH: "\<And>E' s x. g E' s = Some x \<Longrightarrow> E' = E \<Longrightarrow> \<exists>t. cm_session E s t \<and> loop_exit E t x"
    and body: "(case t_read (tops (cm_cfg E')) 512 (world s) of (rc, w) \<Rightarrow>
      if rc \<noteq> PB_OK then Some (rc, False, None, s\<lparr>world := w\<rparr>)
      else do {
        (rc, s) \<leftarrow> await_command E' (s\<lparr>world := w\<rparr>);
        if rc \<noteq> PB_OK then Some (rc, True, None, s)
        else do {
          (rc, j, s) \<leftarrow> pb_command_parse E' s;
          if j \<noteq> None \<or> rc = err PB_ERR_ABORT then Some (rc, False, j, s) else g E' s
        }
      }) = Some x" and eq: "E' = E"
  obtain rc1 w where 1: "t_read (tops (cm_cfg E)) 512 (world s) = (rc1, w)"
    by (cases "t_read (tops (cm_cfg E)) 512 (world s)")
  note body = body [unfolded eq 1 prod.case]
  consider (failed) "x = (rc1, False, None, s\<lparr>world := w\<rparr>)"
    | (again) rc2 t where "rc1 = PB_OK" "await_command E (s\<lparr>world := w\<rparr>) = Some (rc2, t)" "rc2 \<noteq> PB_OK" "x = (rc2, True, None, t)"
    | (run) t rc3 j u where "rc1 = PB_OK" "await_command E (s\<lparr>world := w\<rparr>) = Some (PB_OK, t)"
        "pb_command_parse E t = Some (rc3, j, u)" "x = (rc3, False, j, u) \<or> j = None \<and> g E u = Some x"
    using body by (auto simp: Option.bind_eq_Some_conv split: if_splits)
  then show "\<exists>t. cm_session E s t \<and> loop_exit E t x"
  proof cases
    case failed
    then have "loop_exit E s x" by (simp add: loop_exit_def)
    then show ?thesis using cm_session.empty by blast
  next
    case again
    then have "loop_exit E s x" using cm_step.restart [OF _ again(2,3)] 1 by (auto simp: loop_exit_def)
    then show ?thesis using cm_session.empty by blast
  next
    case run
    have step: "cm_step E s j u" using cm_step.command [OF _ run(2,3)] 1 run(1) by simp
    from run(4) show ?thesis
    proof (elim disjE conjE)
      assume "x = (rc3, False, j, u)"
      then have "loop_exit E s x" using step by (simp add: loop_exit_def)
      then show ?thesis using cm_session.empty by blast
    next
      assume "j = None" "g E u = Some x"
      then show ?thesis using IH [of E u x] step cm_session.round [of E s u] by blast
    qed
  qed
qed

lemma cm_session_trans: "cm_session E s t \<Longrightarrow> cm_session E t u \<Longrightarrow> cm_session E s u"
  by (induction rule: cm_session.induct) (auto intro: cm_session.round)

lemma cm_session_snoc: "cm_session E s t \<Longrightarrow> cm_step E t None u \<Longrightarrow> cm_session E s u"
  using cm_session_trans cm_session.round [OF _ cm_session.empty] by blast

lemma command_mode_session:
  assumes "command_mode E s = Some (rc, Some u, s')"
  shows "\<exists>s0 t. transport_start E s = Some (PB_OK, True, s0) \<and> cm_session E s0 t \<and> cm_step E t (Some u) s'"
proof -
  let ?P = "\<lambda>E s x. fst (snd x) \<noteq> None \<longrightarrow>
    (\<exists>s0 t. transport_start E s = Some (PB_OK, True, s0) \<and> cm_session E s0 t \<and> cm_step E t (fst (snd x)) (snd (snd x)))"
  have "?P E s (rc, Some u, s')"
  proof (rule command_mode.raw_induct [where P = ?P, OF _ assms])
    fix g E s x
    assume IH: "\<And>E s x. g E s = Some x \<Longrightarrow> ?P E s x"
      and body: "do {
         (rc, inited, s) \<leftarrow> transport_start E s;
         if \<not> inited then Some (rc, None, s)
         else if rc \<noteq> PB_OK then Some (rc, None, disconnect E s)
         else do {
           (rc, restart, j, s) \<leftarrow> cm_commands E s;
           if restart then g E s else if j \<noteq> None then Some (rc, j, s) else Some (rc, None, disconnect E s)
         }
       } = Some x"
    obtain rc1 i s1 where 1: "transport_start E s = Some (rc1, i, s1)"
      using body by (cases "transport_start E s") auto
    show "?P E s x"
    proof (cases "i \<and> rc1 = PB_OK")
      case False
      then show ?thesis using body 1 by (auto split: if_splits)
    next
      case True
      then obtain rc2 r j s2 where 2: "cm_commands E s1 = Some (rc2, r, j, s2)"
        using body 1 by (cases "cm_commands E s1") auto
      obtain t where t: "cm_session E s1 t" "loop_exit E t (rc2, r, j, s2)" using cm_commands_session [OF 2] by blast
      have b: "(if r then g E s2 else if j \<noteq> None then Some (rc2, j, s2) else Some (rc2, None, disconnect E s2)) = Some x"
        using body 1 2 True by simp
      show ?thesis
      proof (cases r)
        case False
        then have "x = (rc2, j, s2) \<or> fst (snd x) = None" using b by (auto split: if_splits)
        then show ?thesis using 1 True t by (auto simp: loop_exit_def)
      next
        case r: True
        then have "g E s2 = Some x" using b by simp
        then have "?P E s2 x" by (rule IH)
        moreover have "cm_session E s1 s0" if "transport_start E s2 = Some (PB_OK, True, s0)" for s0
          using t that r cm_session_snoc by (auto simp: loop_exit_def)
        moreover have "transport_start E s = Some (PB_OK, True, s1)" using 1 True by simp
        ultimately show ?thesis using cm_session_trans by blast
      qed
    qed
  qed
  then show ?thesis by simp
qed

subsection \<open>A locked device\<close>

text \<open>
  A device with the key store and the root of trust of the loading example. Its world is
  whether a read is pending, the messages the host is going to send, and a disk.
\<close>

type_synonym demo_host = "bool \<times> u8 list list \<times> u8 list"

definition demo_tops :: "demo_host cm_transport_ops" where
  "demo_tops = \<lparr>t_init = None, t_connect = None, t_disconnect = None,
     t_read = (\<lambda>_ (_, i, d). (PB_OK, (True, i, d))), t_write = (\<lambda>_ (_, i, d). (PB_OK, (False, i, d))),
     t_complete = (\<lambda>(r, i, d). if r \<and> i \<noteq> [] then (PB_OK, hd i, (False, tl i, d)) else (PB_OK, [], (False, i, d)))\<rparr>"

definition demo_cm_env :: "'w cm_transport_ops \<Rightarrow> bool \<Rightarrow> ('w, ('w, 'z) cm_vars_scheme) cm_env" where
  "demo_cm_env ops token =
     \<lparr>cm_cfg = \<lparr>cm_name = bytes ''demo'', status = (\<lambda>n s. (PB_OK, [], 0, s)), password_auth = None,
        board_command = (\<lambda>c d n s. (PB_OK, [], 0, s)), process = None, tops = ops\<rparr>,
      cm_platform = demo_platform, cm_boot_cfg = Some demo_driver, cm_slc_cfg = None, cm_board_init = (\<lambda>s. (PB_OK, s)),
      cm_unique_id = (\<lambda>s. (PB_OK, [1], s)), cm_ns_uuid = replicate 16 7, us_tick = (\<lambda>_. 0), wdog_kick = id,
      timeout_init = id, timeout_expired = (\<lambda>w. (False, w)), buf_size = 4096, conf_auth = True, conf_auth_token = token,
      conf_auth_password = False, pb_version = bytes ''1.0''\<rparr>"

definition demo_erase :: pb_command where
  "demo_erase = \<lparr>cmd_magic = PB_WIRE_MAGIC, cmd_command = pb_command_code PB_CMD_PART_ERASE, cmd_rz = replicate 3 0,
     cmd_request = replicate 504 0\<rparr>"

definition demo_locked :: "'w \<Rightarrow> 'w hash_ops option list \<Rightarrow> 'w dsa_ops option list \<Rightarrow> 'w cm_vars" where
  "demo_locked w hs ds = \<lparr>world = w, mem = (\<lambda>_. 0), bio_pool = [], n_bios = 0, fuse_box = replicate 128 0,
     fuse_dev = 0, dsa_ops = ds, no_of_dsa_ops = 1, hash_ops = hs, no_of_hash_ops = 1,
     current_hash_ops = None, primary_part = 0, backup_part = 0, boot_state = pb_boot_state_zero,
     boot_state_backup = pb_boot_state_zero, header = bpak_init_header, header_ptr = None, boot_flags = 0,
     boot_device = -1, boot_source_var = BOOT_SOURCE_CB, boot_part_uu = replicate 16 0, payload_digest = replicate 64 0,
     prng_state = 0, pri_hdr = gpt_header_zero, pri_part = replicate 128 gpt_part_zero,
     bak_hdr = gpt_header_zero, bak_part = replicate 128 gpt_part_zero, gpt_pmbr = replicate 512 0, gpt_dev = -1,
     gpt_tables = [], dev_id = replicate 16 5, cmd = demo_erase, cm_result = snd (pb_wire_init_result 0),
     authenticated = False, buffer = replicate 8192 0, slc = SLC_CONFIGURATION_LOCKED, hash_buf = replicate 64 0,
     device_uu = replicate 16 5, block_dev = -1, reboot_requested = False\<rparr>"

lemma demo_cm_env_sel [simp]:
  "tops (cm_cfg (demo_cm_env ops token)) = ops" "process (cm_cfg (demo_cm_env ops token)) = None"
  "password_auth (cm_cfg (demo_cm_env ops token)) = None" "wdog_kick (demo_cm_env ops token) = id"
  "timeout_init (demo_cm_env ops token) = id" "timeout_expired (demo_cm_env ops token) = (\<lambda>w. (False, w))"
  "conf_auth_token (demo_cm_env ops token) = token" "conf_auth_password (demo_cm_env ops token) = False"
  "cm_platform (demo_cm_env ops token) = demo_platform"
  by (simp_all add: demo_cm_env_def)

lemma demo_locked_sel [simp]:
  "world (demo_locked w hs ds) = w" "hash_ops (demo_locked w hs ds) = hs" "dsa_ops (demo_locked w hs ds) = ds"
  "authenticated (demo_locked w hs ds) = False" "slc (demo_locked w hs ds) = SLC_CONFIGURATION_LOCKED"
  "hash_buf (demo_locked w hs ds) = replicate 64 0" "device_uu (demo_locked w hs ds) = replicate 16 5"
  "fuse_box (demo_locked w hs ds) = replicate 128 0" "cmd (demo_locked w hs ds) = demo_erase"
  "reboot_requested (demo_locked w hs ds) = False"
  by (simp_all add: demo_locked_def)

lemma demo_keeps: "env_keeps (snd \<circ> snd) (demo_cm_env demo_tops token)"
  by (auto simp: env_keeps_def transport_keeps_def board_keeps_def demo_tops_def demo_platform_def rot_status_pure_test)

lemma demo_erase_facts:
  "wf_pb_command demo_erase" "pb_wire_valid_command demo_erase" "pb_wire_requires_auth demo_erase"
  by (simp add: wf_pb_command_def demo_erase_def, code_simp+)

abbreviation demo_start :: "demo_host cm_vars" where
  "demo_start \<equiv> demo_locked (False, [enc_pb_command demo_erase], [1, 2, 3]) [] []"

lemma demo_erase_step: "\<exists>u. cm_step (demo_cm_env demo_tops False) demo_start None u"
proof -
  let ?E = "demo_cm_env demo_tops False"
  have 1: "t_read (tops (cm_cfg ?E)) 512 (world demo_start) = (PB_OK, (True, [enc_pb_command demo_erase], [1, 2, 3]))"
    by (simp add: demo_tops_def)
  have "await_command ?E (demo_start\<lparr>world := (True, [enc_pb_command demo_erase], [1, 2, 3])\<rparr>)
      = Some (PB_OK, demo_start\<lparr>world := (False, [], [1, 2, 3])\<rparr>)" (is "_ = Some (_, ?t)")
    using w_cmd.dec_enc [OF demo_erase_facts(1)]
    by (subst await_command.simps) (simp add: demo_tops_def Let_def demo_locked_def)
  moreover have "\<exists>u. pb_command_parse ?E ?t = Some (PB_OK, None, u)"
    using demo_erase_facts
    by (simp add: pb_command_parse_def err_out_def cm_write_def set_result_def await.simps demo_tops_def)
  ultimately show ?thesis using cm_step.command [OF 1] by blast
qed


definition idle_tops :: "'w cm_transport_ops" where
  "idle_tops = \<lparr>t_init = None, t_connect = None, t_disconnect = None, t_read = (\<lambda>_ w. (PB_OK, w)),
     t_write = (\<lambda>_ w. (PB_OK, w)), t_complete = (\<lambda>w. (PB_OK, [], w))\<rparr>"

abbreviation token_start :: "(hash_t \<times> u8 list) cm_vars" where
  "token_start \<equiv> demo_locked (0, []) [Some sum_hash_ops] [Some eq_dsa_ops]"

lemma demo_token:
  "\<exists>s'. auth_token (demo_cm_env idle_tops True) 0xa90f9680 (sum_hash HASH_SHA256 (uuid_text (replicate 16 5))) token_start = Some (PB_OK, s')"
proof -
  let ?d = "sum_hash HASH_SHA256 (uuid_text (replicate 16 5))"
  have d: "take 32 (overlay (replicate 64 0) ?d) = ?d"
    using take_overlay [of ?d "replicate 64 0"] by (simp add: sum_hash_def digest_len_of_def)
  have t: "take 36 (uuid_text (replicate 16 5) @ [0]) = uuid_text (replicate 16 5)" by (simp add: uuid_text_def Let_def)
  have st: "rot_read_key_status (Some test_rot_config) 0xa90f9680 token_start = (PB_OK, token_start)"
    by (simp add: rot_read_key_status_def test_rot_config_def test_key_map_def qemu_read_key_status_eq)
  then have key: "rot_get_dsa_key demo_keystore (Some test_rot_config) 0xa90f9680 token_start = (PB_OK, Some (1, [1, 2]), token_start)"
    by (simp add: rot_get_dsa_key_def demo_keystore_def Let_def) (simp add: test_rot_config_def test_key_map_def)
  have u: "uuid_unparse (replicate 16 5) = Some (uuid_text (replicate 16 5) @ [0])" by (simp add: uuid_unparse_text)
  have p: "rot_cfg demo_platform = Some test_rot_config" "keystore_pb demo_platform = demo_keystore"
    by (simp_all add: demo_platform_def)
  show ?thesis
    using st key u d t
    by (simp add: auth_token_def p token_hash_kind_def hash_init_def hash_update_def hash_final_def dsa_verify_def Let_def
        sum_hash_ops_def eq_dsa_ops_def digest_len_of_def)
qed

theorem token_is_signed_device_uuid_witness:
  "\<exists>s'. auth_token (demo_cm_env idle_tops True) 0xa90f9680 (sum_hash HASH_SHA256 (uuid_text (replicate 16 5))) token_start = Some (PB_OK, s') \<and>
     0xa90f9680 \<in> k_id ` set demo_keystore"
proof -
  obtain s' where s': "auth_token (demo_cm_env idle_tops True) 0xa90f9680 (sum_hash HASH_SHA256 (uuid_text (replicate 16 5))) token_start
      = Some (PB_OK, s')" using demo_token by blast
  have "hash_drivers token_start sum_hash id" "dsa_drivers token_start eq_V"
    by (auto simp: hash_drivers_def dsa_drivers_def hash_driver_sum dsa_driver_def eq_dsa_ops_def)
  then have "0xa90f9680 \<in> k_id ` set demo_keystore"
    using token_is_signed_device_uuid [OF s' _ _ _, of sum_hash id eq_V]
    by (auto simp: demo_platform_def rot_status_pure_test)
  then show ?thesis using s' by blast
qed

subsection \<open>Results on the wire\<close>

lemma error_to_wire_bounds: "- 17 \<le> error_to_wire e" "error_to_wire e \<le> 0" "error_to_wire e = 0 \<longleftrightarrow> e = PB_OK"
  by (simp_all add: error_to_wire.simps)

lemma sint_result_code:
  assumes "- 128 \<le> i" and "i < 128"
  shows "sint (word_of_int i :: u8) = i"
  using assms by (simp add: sint_sbintrunc' signed_take_bit_int_eq_self)



end
