(* ===== verification/Host.thy ===== *)
theory Host
  imports Wire Bpak "HOL-Library.Monad_Syntax"
begin

text \<open>
  The host side of the protocol, \<open>tools/punchboot/api_*.c\<close>: the functions that a tool calls to
  talk to a device, and the socket transport \<open>tools/punchboot/socket.c\<close>.

  The state of the host is the type \<open>'h\<close>; the transport of the context, the files and the
  allocator are functions on it. A write may block forever, which is \<open>None\<close>; so is a buffer
  overflow, a division by zero and the use of memory that was never written. A read that
  reports success has stored all the bytes that were asked for; the value of the buffer is
  not determined otherwise, so that using it is \<open>None\<close> too. Debug output is left out.
\<close>

record 'h pb_context =
  ctx_write :: "u8 list \<Rightarrow> 'h \<Rightarrow> (int \<times> 'h) option"
  ctx_read :: "u64 \<Rightarrow> 'h \<Rightarrow> (int \<times> u8 list \<times> 'h) option"
  ctx_malloc :: "u64 \<Rightarrow> bool"

subsection \<open>Requests and results\<close>

definition ctx_read_bytes :: "'h pb_context \<Rightarrow> nat \<Rightarrow> 'h \<Rightarrow> (int \<times> u8 list \<times> 'h) option" where
  "ctx_read_bytes ctx n h =
     do {
       (rc, data, h) \<leftarrow> ctx_read ctx (of_nat n) h;
       if rc \<noteq> PB_RESULT_OK then Some (rc, [], h)
       else if length data < n then None
       else Some (rc, take n data, h)
     }"

text \<open>The result code is an \<open>int8_t\<close>.\<close>

abbreviation result_code :: "pb_result \<Rightarrow> int" where
  "result_code r \<equiv> sint (res_result_code r)"

text \<open>Reading a result and checking its magic: an error to return, or the result.\<close>

definition read_result :: "'h pb_context \<Rightarrow> 'h \<Rightarrow> ((int + pb_result) \<times> 'h) option" where
  "read_result ctx h =
     do {
       (rc, data, h) \<leftarrow> ctx_read_bytes ctx 512 h;
       if rc \<noteq> PB_RESULT_OK then Some (Inl rc, h)
       else
         let result = dec_pb_result data in
         if \<not> pb_wire_valid_result result then Some (Inl (- PB_RESULT_ERROR), h)
         else Some (Inr result, h)
     }"

text \<open>Sending a command, and the result that the device sends for it.\<close>

definition send_command :: "'h pb_context \<Rightarrow> pb_command \<Rightarrow> 'h \<Rightarrow> ((int + pb_result) \<times> 'h) option" where
  "send_command ctx cmd h =
     do {
       (rc, h) \<leftarrow> ctx_write ctx (enc_pb_command cmd) h;
       if rc \<noteq> PB_RESULT_OK then Some (Inl rc, h) else read_result ctx h
     }"

definition returned :: "int + pb_result \<Rightarrow> int" where
  "returned r = (case r of Inl rc \<Rightarrow> rc | Inr result \<Rightarrow> result_code result)"

text \<open>The functions that send one command and return its result code.\<close>

definition simple_request :: "'h pb_context \<Rightarrow> pb_command \<Rightarrow> 'h \<Rightarrow> (int \<times> 'h) option" where
  "simple_request ctx cmd h = map_option (\<lambda>(r, h). (returned r, h)) (send_command ctx cmd h)"

abbreviation plain :: "pb_commands \<Rightarrow> pb_command" where
  "plain c \<equiv> snd (pb_wire_init_command (pb_command_code c))"

abbreviation with_data :: "pb_commands \<Rightarrow> u8 list \<Rightarrow> pb_command" where
  "with_data c dat \<equiv> snd (pb_wire_init_command2 (pb_command_code c) dat)"

text \<open>A flag as it is sent.\<close>

abbreviation flag :: "bool \<Rightarrow> u8" where
  "flag b \<equiv> (if b then 1 else 0)"

subsection \<open>Authentication\<close>

text \<open>
  The size is sent as a 16 bit number. The data is copied to a buffer of 1024 bytes without
  a check of its size.
\<close>

definition internal_pb_api_authenticate ::
  "'h pb_context \<Rightarrow> u8 \<Rightarrow> u32 \<Rightarrow> u8 list \<Rightarrow> 'h \<Rightarrow> (int \<times> 'h) option" where
  "internal_pb_api_authenticate ctx method kid data h =
     (let auth = \<lparr>au_method = method, au_size = of_nat (length data), au_key_id = kid, au_rz = replicate 25 0\<rparr>
      in case pb_wire_init_command2 (pb_command_code PB_CMD_AUTHENTICATE) (enc_pb_command_authenticate auth) of (rc, cmd) \<Rightarrow>
      if rc \<noteq> PB_RESULT_OK then Some (rc, h)
      else do {
        (r, h) \<leftarrow> send_command ctx cmd h;
        case r of Inl rc \<Rightarrow> Some (rc, h)
        | Inr result \<Rightarrow>
            if result_code result \<noteq> PB_RESULT_OK then Some (result_code result, h)
            else if data = [] then Some (result_code result, h)
            else if length data > 1024 then None
            else do {
              (rc, h) \<leftarrow> ctx_write ctx (overlay (replicate 1024 0) data) h;
              if rc \<noteq> PB_RESULT_OK then Some (rc, h)
              else map_option (\<lambda>(r, h). (returned r, h)) (read_result ctx h)
            }
      })"

definition pb_api_authenticate_password :: "'h pb_context \<Rightarrow> u8 list \<Rightarrow> 'h \<Rightarrow> (int \<times> 'h) option" where
  "pb_api_authenticate_password ctx data h = internal_pb_api_authenticate ctx PB_AUTH_PASSWORD 0 data h"

definition pb_api_authenticate_key :: "'h pb_context \<Rightarrow> u32 \<Rightarrow> u8 list \<Rightarrow> 'h \<Rightarrow> (int \<times> 'h) option" where
  "pb_api_authenticate_key ctx kid data h = internal_pb_api_authenticate ctx PB_AUTH_ASYM_TOKEN kid data h"

definition pb_api_auth_set_password :: "'h pb_context \<Rightarrow> u8 list \<Rightarrow> 'h \<Rightarrow> (int \<times> 'h) option" where
  "pb_api_auth_set_password ctx password h =
     (case pb_wire_init_command2 (pb_command_code PB_CMD_AUTH_SET_PASSWORD) password of (rc, cmd) \<Rightarrow>
      if rc \<noteq> PB_RESULT_OK then Some (- PB_RESULT_ERROR, h) else simple_request ctx cmd h)"

subsection \<open>The device\<close>

definition pb_api_device_reset :: "'h pb_context \<Rightarrow> 'h \<Rightarrow> (int \<times> 'h) option" where
  "pb_api_device_reset ctx h = simple_request ctx (plain PB_CMD_DEVICE_RESET) h"

text \<open>The second result is what was stored to \<open>device_uuid\<close> and \<open>board_id\<close>.\<close>

definition pb_api_device_read_identifier ::
  "'h pb_context \<Rightarrow> u64 \<Rightarrow> u64 \<Rightarrow> 'h \<Rightarrow> (int \<times> (u8 list \<times> u8 list) option \<times> 'h) option" where
  "pb_api_device_read_identifier ctx device_uuid_size board_id_size h =
     do {
       (r, h) \<leftarrow> send_command ctx (plain PB_CMD_DEVICE_IDENTIFIER_READ) h;
       case r of Inl rc \<Rightarrow> Some (rc, None, h)
       | Inr result \<Rightarrow>
           let ident = dec_pb_result_device_identifier (take 55 (res_response result)) in
           if board_id_size < 16 then Some (- PB_RESULT_NO_MEMORY, None, h)
           else if device_uuid_size < 16 then Some (- PB_RESULT_NO_MEMORY, None, h)
           else Some (result_code result, Some (di_device_uuid ident, di_board_id ident), h)
     }"

record pb_device_capabilities =
  dc_stream_no_of_buffers :: u8
  dc_stream_buffer_size :: u32
  dc_operation_timeout_ms :: u16
  dc_part_erase_timeout_ms :: u16
  dc_bpak_stream_support :: u8
  dc_chunk_transfer_max_bytes :: u32

definition pb_api_device_read_caps :: "'h pb_context \<Rightarrow> 'h \<Rightarrow> (int \<times> pb_device_capabilities option \<times> 'h) option" where
  "pb_api_device_read_caps ctx h =
     do {
       (r, h) \<leftarrow> send_command ctx (plain PB_CMD_DEVICE_READ_CAPS) h;
       case r of Inl rc \<Rightarrow> Some (rc, None, h)
       | Inr result \<Rightarrow>
           let result_caps = dec_pb_result_device_caps (take 32 (res_response result)) in
           Some (result_code result, Some
             \<lparr>dc_stream_no_of_buffers = caps_stream_no_of_buffers result_caps,
              dc_stream_buffer_size = caps_stream_buffer_size result_caps,
              dc_operation_timeout_ms = caps_operation_timeout_ms result_caps,
              dc_part_erase_timeout_ms = caps_part_erase_timeout_ms result_caps,
              dc_bpak_stream_support = 0,
              dc_chunk_transfer_max_bytes = caps_chunk_transfer_max_bytes result_caps\<rparr>, h)
     }"

text \<open>The response is taken as a string; without a terminator the read goes on past the response.\<close>

definition pb_api_bootloader_version :: "'h pb_context \<Rightarrow> u64 \<Rightarrow> 'h \<Rightarrow> (int \<times> u8 list option \<times> 'h) option" where
  "pb_api_bootloader_version ctx sz h =
     do {
       (r, h) \<leftarrow> send_command ctx (plain PB_CMD_BOOTLOADER_VERSION_READ) h;
       case r of Inl rc \<Rightarrow> Some (rc, None, h)
       | Inr result \<Rightarrow>
           let p = res_response result in
           if 0 \<notin> set p then None
           else if strlen p + 1 > unat sz then Some (- PB_RESULT_NO_MEMORY, None, h)
           else Some (result_code result, Some (overlay (replicate (unat sz) 0) (take (strlen p) p)), h)
     }"

subsection \<open>Board commands\<close>

text \<open>
  The result of the first exchange is not looked at. The second component is what was stored
  to the response buffer, the third one the new value of \<open>*response_size\<close>.
\<close>

definition pb_api_board_command ::
  "'h pb_context \<Rightarrow> u32 \<Rightarrow> u8 list \<Rightarrow> u64 \<Rightarrow> 'h \<Rightarrow> (int \<times> u8 list \<times> u64 \<times> 'h) option" where
  "pb_api_board_command ctx board_command_id req response_size h =
     (if length req > 1024 then Some (- PB_RESULT_NO_MEMORY, [], response_size, h)
      else
        let board_command = \<lparr>bc_command = board_command_id, bc_request_size = of_nat (length req),
              bc_response_buffer_size = ucast response_size, bc_rz = replicate 20 0\<rparr> in
        do {
          (r, h) \<leftarrow> send_command ctx (with_data PB_CMD_BOARD_COMMAND (enc_pb_command_board board_command)) h;
          case r of Inl rc \<Rightarrow> Some (rc, [], response_size, h)
          | Inr _ \<Rightarrow> do {
              (rc, h) \<leftarrow> (if req = [] then Some (PB_RESULT_OK, h) else ctx_write ctx (overlay (replicate 1024 0) req) h);
              if rc \<noteq> PB_RESULT_OK then Some (rc, [], response_size, h)
              else do {
                (r, h) \<leftarrow> read_result ctx h;
                case r of Inl rc \<Rightarrow> Some (rc, [], response_size, h)
                | Inr result \<Rightarrow>
                    let board_result = dec_pb_result_board (take 32 (res_response result)) in
                    if ucast (br_size board_result) > response_size then Some (- PB_RESULT_ERROR, [], response_size, h)
                    else if br_size board_result = 0 then Some (result_code result, [], 0, h)
                    else do {
                      (rc, response, h) \<leftarrow> ctx_read_bytes ctx (unat (br_size board_result)) h;
                      if rc \<noteq> PB_RESULT_OK then Some (rc, [], ucast (br_size board_result), h)
                      else do {
                        (r, h) \<leftarrow> read_result ctx h;
                        Some (returned r, response, ucast (br_size board_result), h)
                      }
                    }
              }
            }
        })"

definition pb_api_board_status :: "'h pb_context \<Rightarrow> u64 \<Rightarrow> 'h \<Rightarrow> (int \<times> u8 list \<times> 'h) option" where
  "pb_api_board_status ctx sz h =
     do {
       (r, h) \<leftarrow> send_command ctx (plain PB_CMD_BOARD_STATUS_READ) h;
       case r of Inl rc \<Rightarrow> Some (rc, [], h)
       | Inr result \<Rightarrow>
           let status_result = dec_pb_result_board_status (take 32 (res_response result)) in
           if result_code result \<noteq> PB_RESULT_OK then Some (result_code result, [], h)
           else if ucast (bs_size status_result) > sz then Some (- PB_RESULT_ERROR, [], h)
           else do {
             (rc, status, h) \<leftarrow> ctx_read_bytes ctx (unat (bs_size status_result)) h;
             if rc \<noteq> PB_RESULT_OK then Some (rc, [], h)
             else do {
               (r, h) \<leftarrow> read_result ctx h;
               Some (returned r, status, h)
             }
           }
     }"

subsection \<open>Booting\<close>

definition pb_api_boot_activate :: "'h pb_context \<Rightarrow> u8 list option \<Rightarrow> 'h \<Rightarrow> (int \<times> 'h) option" where
  "pb_api_boot_activate ctx uuid h =
     (let activate = \<lparr>ap_uuid = (case uuid of None \<Rightarrow> replicate 16 0 | Some uu \<Rightarrow> take 16 uu), ap_rz = replicate 16 0\<rparr>
      in simple_request ctx (with_data PB_CMD_PART_ACTIVATE (enc_pb_command_activate_part activate)) h)"

definition pb_api_boot_part :: "'h pb_context \<Rightarrow> u8 list \<Rightarrow> bool \<Rightarrow> 'h \<Rightarrow> (int \<times> 'h) option" where
  "pb_api_boot_part ctx uuid verbose h =
     (let boot_part_command = \<lparr>bp_uuid = take 16 uuid, bp_verbose = flag verbose, bp_rz = replicate 15 0\<rparr>
      in simple_request ctx (with_data PB_CMD_BOOT_PART (enc_pb_command_boot_part boot_part_command)) h)"

text \<open>
  The loop over the chunks of a part: \<open>partp\<close> is the offset in the image. With a chunk size of
  zero it never ends.
\<close>

partial_function (option) send_chunks ::
  "'h pb_context \<Rightarrow> u8 list \<Rightarrow> u64 \<Rightarrow> u64 \<Rightarrow> u64 \<Rightarrow> 'h \<Rightarrow> (int \<times> 'h) option" where
  "send_chunks ctx img max_bytes partp bytes_to_transfer h =
     (if bytes_to_transfer = 0 then Some (PB_RESULT_OK, h)
      else
        let chunk = (if bytes_to_transfer > max_bytes then max_bytes else bytes_to_transfer) in
        if unat partp + unat chunk > length img then None
        else do {
          (rc, h) \<leftarrow> ctx_write ctx (window (unat partp) (unat chunk) img) h;
          if rc \<noteq> PB_RESULT_OK then Some (rc, h)
          else send_chunks ctx img max_bytes (partp + chunk) (bytes_to_transfer - chunk) h
        })"

fun send_parts ::
  "'h pb_context \<Rightarrow> u8 list \<Rightarrow> bpak_header \<Rightarrow> u64 \<Rightarrow> bpak_part_header list \<Rightarrow> 'h \<Rightarrow> (int \<times> 'h) option" where
  "send_parts ctx img hdr max_bytes [] h = Some (PB_RESULT_OK, h)"
| "send_parts ctx img hdr max_bytes (p # ps) h =
     (if p_id p = 0 then Some (PB_RESULT_OK, h)
      else do {
        (rc, h) \<leftarrow> send_chunks ctx img max_bytes (bpak_part_offset hdr p) (bpak_part_size p) h;
        if rc \<noteq> PB_RESULT_OK then Some (rc, h)
        else do {
          (r, h) \<leftarrow> read_result ctx h;
          case r of Inl rc \<Rightarrow> Some (rc, h) | Inr _ \<Rightarrow> send_parts ctx img hdr max_bytes ps h
        }
      })"

definition pb_api_boot_bpak ::
  "'h pb_context \<Rightarrow> u8 list \<Rightarrow> u8 list option \<Rightarrow> bool \<Rightarrow> 'h \<Rightarrow> (int \<times> 'h) option" where
  "pb_api_boot_bpak ctx img uuid verbose h =
     do {
       (rc, caps, h) \<leftarrow> pb_api_device_read_caps ctx h;
       if rc \<noteq> PB_RESULT_OK then Some (rc, h)
       else if length img < 4096 then None
       else
         let hdr = dec_header (take 4096 img) in
         if bpak_valid_header hdr \<noteq> BPAK_OK then Some (- PB_RESULT_ERROR, h)
         else
           let boot_cmd = \<lparr>bb_verbose = flag verbose,
                 bb_uuid = (case uuid of None \<Rightarrow> replicate 16 0 | Some uu \<Rightarrow> take 16 uu), bb_rz = replicate 15 0\<rparr> in
           do {
             (r, h) \<leftarrow> send_command ctx (with_data PB_CMD_BOOT_BPAK (enc_pb_command_bpak_boot boot_cmd)) h;
             case r of Inl rc \<Rightarrow> Some (rc, h)
             | Inr result \<Rightarrow>
                 if result_code result \<noteq> PB_RESULT_OK then Some (result_code result, h)
                 else do {
                   (rc, h) \<leftarrow> ctx_write ctx (take 4096 img) h;
                   if rc \<noteq> PB_RESULT_OK then Some (rc, h)
                   else do {
                     (r, h) \<leftarrow> read_result ctx h;
                     case r of Inl rc \<Rightarrow> Some (rc, h)
                     | Inr result \<Rightarrow>
                         if result_code result \<noteq> PB_RESULT_OK then Some (result_code result, h)
                         else do {
                           caps \<leftarrow> caps;
                           (rc, h) \<leftarrow> send_parts ctx img hdr (ucast (dc_chunk_transfer_max_bytes caps)) (parts hdr) h;
                           if rc \<noteq> PB_RESULT_OK then Some (rc, h)
                           else map_option (\<lambda>(r, h). (returned r, h)) (read_result ctx h)
                         }
                   }
                 }
           }
     }"

text \<open>The second result is what was stored to \<open>uuid\<close> and to \<open>status_message\<close>.\<close>

definition pb_api_boot_status ::
  "'h pb_context \<Rightarrow> nat \<Rightarrow> 'h \<Rightarrow> (int \<times> (u8 list \<times> u8 list) option \<times> 'h) option" where
  "pb_api_boot_status ctx len h =
     do {
       (r, h) \<leftarrow> send_command ctx (plain PB_CMD_BOOT_STATUS) h;
       case r of Inl rc \<Rightarrow> Some (rc, None, h)
       | Inr result \<Rightarrow>
           let boot_status = dec_pb_result_boot_status (take 32 (res_response result)) in
           Some (result_code result,
             Some (bt_uuid boot_status, if len > 16 then bt_status boot_status else take len (bt_status boot_status)), h)
     }"

subsection \<open>Life cycle and keys\<close>

text \<open>The second result is what was stored to \<open>slc\<close>, \<open>active_keys\<close> and \<open>revoked_keys\<close>.\<close>

definition pb_api_slc_read ::
  "'h pb_context \<Rightarrow> 'h \<Rightarrow> (int \<times> (u8 \<times> (u32 list \<times> u32 list) option) option \<times> 'h) option" where
  "pb_api_slc_read ctx h =
     do {
       (r, h) \<leftarrow> send_command ctx (plain PB_CMD_SLC_READ) h;
       case r of Inl rc \<Rightarrow> Some (rc, None, h)
       | Inr result \<Rightarrow>
           if result_code result \<noteq> PB_RESULT_OK then Some (result_code result, None, h)
           else
             let slc_result = dec_pb_result_slc (take 32 (res_response result)) in
             do {
               (rc, data, h) \<leftarrow> ctx_read_bytes ctx 128 h;
               if rc \<noteq> PB_RESULT_OK then Some (rc, Some (rs_slc slc_result, None), h)
               else
                 let key_status = dec_pb_result_slc_key_status data in
                 do {
                   (r, h) \<leftarrow> read_result ctx h;
                   Some (returned r, Some (rs_slc slc_result, Some (ks_active key_status, ks_revoked key_status)), h)
                 }
             }
     }"

definition pb_api_slc_set_configuration :: "'h pb_context \<Rightarrow> 'h \<Rightarrow> (int \<times> 'h) option" where
  "pb_api_slc_set_configuration ctx h = simple_request ctx (plain PB_CMD_SLC_SET_CONFIGURATION) h"

definition pb_api_slc_set_configuration_lock :: "'h pb_context \<Rightarrow> 'h \<Rightarrow> (int \<times> 'h) option" where
  "pb_api_slc_set_configuration_lock ctx h = simple_request ctx (plain PB_CMD_SLC_SET_CONFIGURATION_LOCK) h"

definition pb_api_slc_set_end_of_life :: "'h pb_context \<Rightarrow> 'h \<Rightarrow> (int \<times> 'h) option" where
  "pb_api_slc_set_end_of_life ctx h = simple_request ctx (plain PB_CMD_SLC_SET_EOL) h"

definition pb_api_slc_revoke_key :: "'h pb_context \<Rightarrow> u32 \<Rightarrow> 'h \<Rightarrow> (int \<times> 'h) option" where
  "pb_api_slc_revoke_key ctx kid h =
     (let revoke = \<lparr>rk_key_id = kid, rk_rz = replicate 28 0\<rparr>
      in simple_request ctx (with_data PB_CMD_SLC_REVOKE_KEY (enc_pb_command_revoke_key revoke)) h)"

subsection \<open>Streams\<close>

definition pb_api_stream_init :: "'h pb_context \<Rightarrow> u8 list \<Rightarrow> 'h \<Rightarrow> (int \<times> 'h) option" where
  "pb_api_stream_init ctx uuid h =
     (let stream_init_command = \<lparr>si_part_uuid = take 16 uuid, si_rz = replicate 16 0\<rparr>
      in simple_request ctx (with_data PB_CMD_STREAM_INITIALIZE (enc_pb_command_stream_initialize stream_init_command)) h)"

text \<open>The data is sent whatever the code of the first result is.\<close>

definition pb_api_stream_prepare_buffer :: "'h pb_context \<Rightarrow> u8 \<Rightarrow> u8 list \<Rightarrow> 'h \<Rightarrow> (int \<times> 'h) option" where
  "pb_api_stream_prepare_buffer ctx buffer_id data h =
     (let buffer_command = \<lparr>pb_size = of_nat (length data), pb_id = buffer_id, pb_rz = replicate 27 0\<rparr> in
      do {
        (r, h) \<leftarrow> send_command ctx (with_data PB_CMD_STREAM_PREPARE_BUFFER (enc_pb_command_stream_prepare_buffer buffer_command)) h;
        case r of Inl rc \<Rightarrow> Some (rc, h)
        | Inr _ \<Rightarrow> do {
            (rc, h) \<leftarrow> ctx_write ctx data h;
            if rc \<noteq> PB_RESULT_OK then Some (rc, h)
            else map_option (\<lambda>(r, h). (returned r, h)) (read_result ctx h)
          }
      })"

definition pb_api_stream_write_buffer :: "'h pb_context \<Rightarrow> u8 \<Rightarrow> u64 \<Rightarrow> u32 \<Rightarrow> 'h \<Rightarrow> (int \<times> 'h) option" where
  "pb_api_stream_write_buffer ctx buffer_id offset sz h =
     (let write_command = \<lparr>wb_size = sz, wb_offset = offset, wb_buffer_id = buffer_id, wb_rz = replicate 19 0\<rparr>
      in simple_request ctx (with_data PB_CMD_STREAM_WRITE_BUFFER (enc_pb_command_stream_write_buffer write_command)) h)"

definition pb_api_stream_read_buffer ::
  "'h pb_context \<Rightarrow> u8 \<Rightarrow> u64 \<Rightarrow> u32 \<Rightarrow> 'h \<Rightarrow> (int \<times> u8 list \<times> 'h) option" where
  "pb_api_stream_read_buffer ctx buffer_id offset sz h =
     (let read_command = \<lparr>rb_size = sz, rb_offset = offset, rb_buffer_id = buffer_id, rb_rz = replicate 19 0\<rparr> in
      do {
        (r, h) \<leftarrow> send_command ctx (with_data PB_CMD_STREAM_READ_BUFFER (enc_pb_command_stream_read_buffer read_command)) h;
        case r of Inl rc \<Rightarrow> Some (rc, [], h)
        | Inr result \<Rightarrow>
            if result_code result \<noteq> PB_RESULT_OK then Some (result_code result, [], h)
            else do {
              (rc, data, h) \<leftarrow> ctx_read_bytes ctx (unat sz) h;
              if rc \<noteq> PB_RESULT_OK then Some (rc, data, h)
              else do {
                (r, h) \<leftarrow> read_result ctx h;
                Some (returned r, data, h)
              }
            }
      })"

definition pb_api_stream_finalize :: "'h pb_context \<Rightarrow> 'h \<Rightarrow> (int \<times> 'h) option" where
  "pb_api_stream_finalize ctx h = simple_request ctx (plain PB_CMD_STREAM_FINALIZE) h"

subsection \<open>Partitions\<close>

record pb_partition_table_entry =
  te_uuid :: "u8 list"
  te_description :: "u8 list"
  te_first_block :: u64
  te_last_block :: u64
  te_block_size :: u16
  te_flags :: u8

definition copy_entry :: "pb_result_part_table_entry \<Rightarrow> pb_partition_table_entry" where
  "copy_entry e = \<lparr>te_uuid = pte_uuid e, te_description = strncpy (c_str (pte_description e)) 36,
     te_first_block = pte_first_block e, te_last_block = pte_last_block e, te_block_size = pte_block_size e,
     te_flags = pte_flags e\<rparr>"

text \<open>
  The second result is the new value of \<open>*entries\<close>, the third one what was stored to the
  table. The result of \<open>malloc\<close> is not checked.
\<close>

definition pb_api_partition_read_table ::
  "'h pb_context \<Rightarrow> int \<Rightarrow> 'h \<Rightarrow> (int \<times> int \<times> pb_partition_table_entry list \<times> 'h) option" where
  "pb_api_partition_read_table ctx entries h =
     do {
       (r, h) \<leftarrow> send_command ctx (plain PB_CMD_PART_TBL_READ) h;
       case r of Inl rc \<Rightarrow> Some (rc, entries, [], h)
       | Inr result \<Rightarrow>
           if result_code result \<noteq> PB_RESULT_OK then Some (result_code result, entries, [], h)
           else
             let n = unat (ptr_no_of_entries (dec_pb_result_part_table_read (take 32 (res_response result)))) in
             if int n > entries then Some (- PB_RESULT_NO_MEMORY, entries, [], h)
             else do {
               (rc, tbl, h) \<leftarrow> (if n = 0 then Some (PB_RESULT_OK, [], h)
                  else if \<not> ctx_malloc ctx (of_nat (n * 128 + 1)) then None
                  else ctx_read_bytes ctx (n * 128) h);
               if rc \<noteq> PB_RESULT_OK then Some (rc, entries, [], h)
               else do {
                 (r, h) \<leftarrow> read_result ctx h;
                 case r of Inl rc \<Rightarrow> Some (rc, int n, [], h)
                 | Inr result \<Rightarrow>
                     Some (result_code result, int n, map copy_entry (dec_array dec_pb_result_part_table_entry 128 n tbl), h)
               }
             }
     }"

definition pb_api_partition_install_table :: "'h pb_context \<Rightarrow> u8 list \<Rightarrow> u8 \<Rightarrow> 'h \<Rightarrow> (int \<times> 'h) option" where
  "pb_api_partition_install_table ctx uu variant h =
     (let install_tbl = \<lparr>it_uu = take 16 uu, it_variant = variant\<rparr>
      in simple_request ctx (with_data PB_CMD_PART_TBL_INSTALL (enc_pb_command_install_part_table install_tbl)) h)"

definition pb_api_partition_verify ::
  "'h pb_context \<Rightarrow> u8 list \<Rightarrow> u8 list \<Rightarrow> u32 \<Rightarrow> bool \<Rightarrow> 'h \<Rightarrow> (int \<times> 'h) option" where
  "pb_api_partition_verify ctx uuid sha256 sz bpak h =
     (let verify = \<lparr>vp_uuid = take 16 uuid, vp_sha256 = take 32 sha256, vp_size = sz, vp_bpak = flag bpak, vp_rz = replicate 2 0\<rparr>
      in simple_request ctx (with_data PB_CMD_PART_VERIFY (enc_pb_command_verify_part verify)) h)"

definition pb_api_partition_read_bpak :: "'h pb_context \<Rightarrow> u8 list \<Rightarrow> 'h \<Rightarrow> (int \<times> bpak_header option \<times> 'h) option" where
  "pb_api_partition_read_bpak ctx uuid h =
     (let read_command = \<lparr>rp_uuid = take 16 uuid, rp_rz = replicate 16 0\<rparr> in
      do {
        (r, h) \<leftarrow> send_command ctx (with_data PB_CMD_PART_BPAK_READ (enc_pb_command_read_bpak read_command)) h;
        case r of Inl rc \<Rightarrow> Some (rc, None, h)
        | Inr result \<Rightarrow>
            if result_code result \<noteq> PB_RESULT_OK then Some (result_code result, None, h)
            else do {
              (rc, data, h) \<leftarrow> ctx_read_bytes ctx 4096 h;
              if rc \<noteq> PB_RESULT_OK then Some (rc, None, h)
              else do {
                (r, h) \<leftarrow> read_result ctx h;
                Some (returned r, Some (dec_header data), h)
              }
            }
      })"

definition pb_api_partition_erase :: "'h pb_context \<Rightarrow> u8 list \<Rightarrow> u32 \<Rightarrow> u32 \<Rightarrow> 'h \<Rightarrow> (int \<times> 'h) option" where
  "pb_api_partition_erase ctx uuid start_lba block_count h =
     (let erase_command = \<lparr>ep_uuid = take 16 uuid, ep_start_lba = start_lba, ep_block_count = block_count, ep_rz = replicate 8 0\<rparr>
      in simple_request ctx (with_data PB_CMD_PART_ERASE (enc_pb_command_erase_part erase_command)) h)"

definition read_part_table :: "'h pb_context \<Rightarrow> 'h \<Rightarrow> (int \<times> pb_partition_table_entry list \<times> 'h) option" where
  "read_part_table ctx h =
     (if \<not> ctx_malloc ctx (256 * 80) then Some (- PB_RESULT_NO_MEMORY, [], h)
      else do {
        (rc, n, tbl, h) \<leftarrow> pb_api_partition_read_table ctx 256 h;
        if rc \<noteq> PB_RESULT_OK then Some (rc, [], h)
        else if n = 0 then Some (- PB_RESULT_ERROR, [], h)
        else Some (0, tbl, h)
      })"

subsection \<open>Transfer of whole partitions\<close>

text \<open>
  A file descriptor: \<open>lseek\<close> to the start, \<open>read\<close> and \<open>write\<close>. \<open>read\<close> returns the bytes it read,
  or \<open>None\<close> for an error; \<open>write\<close> returns the number of bytes it wrote.
\<close>

record 'h host_file =
  f_rewind :: "'h \<Rightarrow> bool \<times> 'h"
  f_read :: "u64 \<Rightarrow> 'h \<Rightarrow> u8 list option \<times> 'h"
  f_write :: "u8 list \<Rightarrow> 'h \<Rightarrow> int \<times> 'h"

definition find_entry :: "u8 list \<Rightarrow> pb_partition_table_entry list \<Rightarrow> pb_partition_table_entry option" where
  "find_entry uuid tbl = find (\<lambda>e. take 16 (te_uuid e) = take 16 uuid) tbl"

definition entry_bytes :: "pb_partition_table_entry \<Rightarrow> u64" where
  "entry_bytes e = (te_last_block e - te_first_block e + 1) * ucast (te_block_size e)"

definition next_buffer :: "u8 \<Rightarrow> pb_device_capabilities \<Rightarrow> u8 option" where
  "next_buffer buffer_id caps =
     (if dc_stream_no_of_buffers caps = 0 then None
      else Some (of_nat ((unat buffer_id + 1) mod unat (dc_stream_no_of_buffers caps))))"

text \<open>One buffer: it is filled, and then written to the partition.\<close>

definition write_chunk :: "'h pb_context \<Rightarrow> u8 \<Rightarrow> u64 \<Rightarrow> u8 list \<Rightarrow> 'h \<Rightarrow> (int \<times> 'h) option" where
  "write_chunk ctx buffer_id offset data h =
     do {
       (rc, h) \<leftarrow> pb_api_stream_prepare_buffer ctx buffer_id data h;
       if rc \<noteq> PB_RESULT_OK then Some (rc, h)
       else pb_api_stream_write_buffer ctx buffer_id offset (of_nat (length data)) h
     }"

partial_function (option) write_chunks ::
  "'h pb_context \<Rightarrow> 'h host_file \<Rightarrow> pb_device_capabilities \<Rightarrow> u8 \<Rightarrow> u64 \<Rightarrow> 'h \<Rightarrow> (int \<times> 'h) option" where
  "write_chunks ctx file caps buffer_id offset h =
     (case f_read file (ucast (dc_chunk_transfer_max_bytes caps)) h of (data, h) \<Rightarrow>
      case data of
        None \<Rightarrow> Some (- PB_RESULT_IO_ERROR, h)
      | Some data \<Rightarrow>
          if data = [] then Some (PB_RESULT_OK, h)
          else do {
            (rc, h) \<leftarrow> write_chunk ctx buffer_id offset data h;
            if rc \<noteq> PB_RESULT_OK then Some (rc, h)
            else do {
              buffer_id \<leftarrow> next_buffer buffer_id caps;
              write_chunks ctx file caps buffer_id (offset + of_nat (length data)) h
            }
          })"

text \<open>The part between \<open>pb_api_stream_init\<close> and the label \<open>err_free_buf\<close>.\<close>

definition write_file ::
  "'h pb_context \<Rightarrow> 'h host_file \<Rightarrow> pb_device_capabilities \<Rightarrow> u64 \<Rightarrow> 'h \<Rightarrow> (int \<times> 'h) option" where
  "write_file ctx file caps part_size h =
     (case f_read file 4096 h of (data, h) \<Rightarrow>
      case data of
        None \<Rightarrow> Some (- PB_RESULT_IO_ERROR, h)
      | Some hdr \<Rightarrow>
          if length hdr = 4096 \<and> bpak_valid_header (dec_header hdr) = BPAK_OK
          then do {
            (rc, h) \<leftarrow> write_chunk ctx 0 (part_size - 4096) hdr h;
            if rc \<noteq> PB_RESULT_OK then Some (rc, h)
            else do {
              buffer_id \<leftarrow> next_buffer 0 caps;
              write_chunks ctx file caps buffer_id 0 h
            }
          }
          else write_chunks ctx file caps 0 0 (snd (f_rewind file h)))"

definition finalized :: "'h pb_context \<Rightarrow> int \<Rightarrow> 'h \<Rightarrow> (int \<times> 'h) option" where
  "finalized ctx rc h = do { (_, h) \<leftarrow> pb_api_stream_finalize ctx h; Some (rc, h) }"

definition pb_api_partition_write :: "'h pb_context \<Rightarrow> 'h host_file \<Rightarrow> u8 list \<Rightarrow> 'h \<Rightarrow> (int \<times> 'h) option" where
  "pb_api_partition_write ctx file uuid h =
     (case f_rewind file h of (ok, h) \<Rightarrow>
      if \<not> ok then Some (- PB_RESULT_IO_ERROR, h)
      else do {
        (rc, caps, h) \<leftarrow> pb_api_device_read_caps ctx h;
        if rc \<noteq> PB_RESULT_OK then Some (rc, h)
        else do {
          caps \<leftarrow> caps;
          if \<not> ctx_malloc ctx (ucast (dc_chunk_transfer_max_bytes caps)) then Some (- PB_RESULT_MEM_ERROR, h)
          else do {
            (rc, tbl, h) \<leftarrow> read_part_table ctx h;
            if rc \<noteq> PB_RESULT_OK then finalized ctx rc h
            else case find_entry uuid tbl of
              None \<Rightarrow> finalized ctx (- PB_RESULT_NOT_FOUND) h
            | Some e \<Rightarrow> do {
                (rc, h) \<leftarrow> pb_api_stream_init ctx uuid h;
                if rc \<noteq> PB_RESULT_OK then finalized ctx rc h
                else do {
                  (rc, h) \<leftarrow> write_file ctx file caps (entry_bytes e) h;
                  finalized ctx rc h
                }
              }
          }
        }
      })"

partial_function (option) read_chunks ::
  "'h pb_context \<Rightarrow> 'h host_file \<Rightarrow> pb_device_capabilities \<Rightarrow> u8 \<Rightarrow> u64 \<Rightarrow> u64 \<Rightarrow> 'h \<Rightarrow> (int \<times> 'h) option" where
  "read_chunks ctx file caps buffer_id offset bytes_left h =
     (let chunk_size = ucast (dc_chunk_transfer_max_bytes caps);
          to_read = (if bytes_left > chunk_size then chunk_size else bytes_left)
      in do {
        (rc, data, h) \<leftarrow> pb_api_stream_read_buffer ctx buffer_id offset (ucast to_read) h;
        if rc \<noteq> PB_RESULT_OK then Some (rc, h)
        else do {
          buffer_id \<leftarrow> next_buffer buffer_id caps;
          case f_write file data h of (bytes_written, h) \<Rightarrow>
            if bytes_written \<noteq> int (unat to_read) then Some (- PB_RESULT_IO_ERROR, h)
            else if bytes_left - to_read > 0
            then read_chunks ctx file caps buffer_id (offset + to_read) (bytes_left - to_read) h
            else Some (rc, h)
        }
      })"

definition pb_api_partition_read :: "'h pb_context \<Rightarrow> 'h host_file \<Rightarrow> u8 list option \<Rightarrow> 'h \<Rightarrow> (int \<times> 'h) option" where
  "pb_api_partition_read ctx file uuid h =
     (case uuid of
        None \<Rightarrow> Some (- PB_RESULT_INVALID_ARGUMENT, h)
      | Some uuid \<Rightarrow> do {
          (rc, caps, h) \<leftarrow> pb_api_device_read_caps ctx (snd (f_rewind file h));
          if rc \<noteq> PB_RESULT_OK then Some (rc, h)
          else do {
            caps \<leftarrow> caps;
            if \<not> ctx_malloc ctx (ucast (dc_chunk_transfer_max_bytes caps)) \<or> \<not> ctx_malloc ctx (128 * 80)
            then Some (- PB_RESULT_NO_MEMORY, h)
            else do {
              (rc, n, tbl, h) \<leftarrow> pb_api_partition_read_table ctx 128 h;
              if rc \<noteq> PB_RESULT_OK \<or> n = 0 then Some (rc, h)
              else case find_entry uuid tbl of
                None \<Rightarrow> Some (- PB_RESULT_NOT_FOUND, h)
              | Some e \<Rightarrow> do {
                  (rc, h) \<leftarrow> pb_api_stream_init ctx uuid h;
                  if rc \<noteq> PB_RESULT_OK then Some (rc, h)
                  else do {
                    (rc, h) \<leftarrow> read_chunks ctx file caps 0 0 (entry_bytes e) h;
                    finalized ctx rc h
                  }
                }
            }
          }
        })"

subsection \<open>The socket transport\<close>

text \<open>
  A stream socket: \<open>recv\<close> returns the bytes it got, at most as many as asked for, \<open>send\<close> how many
  bytes it took; \<open>None\<close> is an error. \<open>pb_socket_read\<close> asks for the whole size again after a short
  read, at the position it has reached, and \<open>pb_socket_write\<close> sends from the start of the buffer
  again after a short write.
\<close>

record 'h socket =
  so_recv :: "u64 \<Rightarrow> 'h \<Rightarrow> u8 list option \<times> 'h"
  so_send :: "u8 list \<Rightarrow> 'h \<Rightarrow> nat option \<times> 'h"

partial_function (option) socket_read_from ::
  "'h socket \<Rightarrow> u64 \<Rightarrow> u8 list \<Rightarrow> 'h \<Rightarrow> (int \<times> u8 list \<times> 'h) option" where
  "socket_read_from so sz got h =
     (if unat sz - length got = 0 then Some (0, got, h)
      else case so_recv so sz h of (data, h) \<Rightarrow>
        case data of
          None \<Rightarrow> Some (- PB_RESULT_ERROR, got, h)
        | Some data \<Rightarrow>
            if length got + length data > unat sz then None
            else socket_read_from so sz (got @ data) h)"

definition pb_socket_read :: "'h socket \<Rightarrow> u64 \<Rightarrow> 'h \<Rightarrow> (int \<times> u8 list \<times> 'h) option" where
  "pb_socket_read so sz h = socket_read_from so sz [] h"

partial_function (option) socket_write_from :: "'h socket \<Rightarrow> u8 list \<Rightarrow> u64 \<Rightarrow> 'h \<Rightarrow> (int \<times> 'h) option" where
  "socket_write_from so bfr bytes_to_xfer h =
     (if bytes_to_xfer = 0 then Some (0, h)
      else case so_send so bfr h of (n, h) \<Rightarrow>
        case n of
          None \<Rightarrow> Some (- PB_RESULT_ERROR, h)
        | Some n \<Rightarrow> socket_write_from so bfr (bytes_to_xfer - of_nat n) h)"

definition pb_socket_write :: "'h socket \<Rightarrow> u8 list \<Rightarrow> 'h \<Rightarrow> (int \<times> 'h) option" where
  "pb_socket_write so bfr h = socket_write_from so bfr (of_nat (length bfr)) h"

definition pb_error_string :: "int \<Rightarrow> string" where
  "pb_error_string r =
     (if r = 0 then ''OK'' else if r = -1 then ''Error'' else if r = -2 then ''Authentication failed''
      else if r = -3 then ''Not authenticated'' else if r = -4 then ''Not supported''
      else if r = -5 then ''Invalid argument'' else if r = -6 then ''Invalid command''
      else if r = -7 then ''Partition verify failed'' else if r = -8 then ''Partition not bootable''
      else if r = -9 then ''Memory error'' else if r = -10 then ''Transfer error'' else if r = -11 then ''Not found''
      else if r = -12 then ''Stream not initialized'' else if r = -13 then ''Timeout error''
      else if r = -14 then ''Invalid key, key is revoked'' else if r = -15 then ''Signature error''
      else if r = -16 then ''Memory error'' else if r = -17 then ''I/O Error'' else '''')"

end
