(* ===== verification/Host_Device.thy ===== *)
theory Host_Device
  imports Cm_Auth Host
begin

text \<open>
  Host and device together. The two sides talk over a reliable link: what one side writes, the
  other side reads, in order. A call of the host API sends messages and consumes replies; the
  command loop of the device consumes these messages and sends these replies. The theorems
  say what such a conversation leads to on both sides.

  \<open>inq\<close> and \<open>outq\<close> are the messages in the world of the device that wait for the device and that
  it has sent; \<open>tx\<close> and \<open>rx\<close> are those of the host. \<open>p\<close> and \<open>q\<close> are what the link leaves alone on
  the two sides.
\<close>

subsection \<open>The link\<close>

definition host_link ::
  "('h \<Rightarrow> 'q) \<Rightarrow> 'h pb_context \<Rightarrow> ('h \<Rightarrow> u8 list list) \<Rightarrow> ('h \<Rightarrow> u8 list list) \<Rightarrow> bool" where
  "host_link q ctx tx rx \<longleftrightarrow>
     (\<forall>b h. \<exists>h'. ctx_write ctx b h = Some (PB_RESULT_OK, h') \<and> tx h' = tx h @ [b] \<and> rx h' = rx h \<and> q h' = q h) \<and>
     (\<forall>n h m ms. rx h = m # ms \<longrightarrow> length m = unat n \<longrightarrow>
        (\<exists>h'. ctx_read ctx n h = Some (PB_RESULT_OK, m, h') \<and> tx h' = tx h \<and> rx h' = ms \<and> q h' = q h))"

definition device_link ::
  "('w \<Rightarrow> 'p) \<Rightarrow> ('w, ('w, 'z) cm_vars_scheme) cm_env \<Rightarrow> ('w \<Rightarrow> u8 list list) \<Rightarrow> ('w \<Rightarrow> u8 list list) \<Rightarrow> bool" where
  "device_link p E inq outq \<longleftrightarrow>
     (\<forall>s m ms. inq (world s) = m # ms \<longrightarrow> length m = 512 \<longrightarrow> wf_pb_command (cmd s) \<longrightarrow>
       (\<exists>w w'. t_read (tops (cm_cfg E)) 512 (world s) = (PB_OK, w') \<and>
        await_command E (s\<lparr>world := w'\<rparr>) = Some (PB_OK, s\<lparr>world := w, cmd := dec_pb_command m\<rparr>) \<and>
        inq w = ms \<and> outq w = outq (world s) \<and> p w = p (world s))) \<and>
     (\<forall>n (s :: ('w, 'z) cm_vars_scheme) m ms. inq (world s) = m # ms \<longrightarrow> length m = unat n \<longrightarrow> (\<exists>w. cm_read E n s = Some (PB_OK, m, s\<lparr>world := w\<rparr>) \<and>
        inq w = ms \<and> outq w = outq (world s) \<and> p w = p (world s))) \<and>
     (\<forall>b (s :: ('w, 'z) cm_vars_scheme). \<exists>w. cm_write E b s = Some (PB_OK, s\<lparr>world := w\<rparr>) \<and>
        outq w = outq (world s) @ [b] \<and> inq w = inq (world s) \<and> p w = p (world s))"

lemma unat_512: "unat (512 :: u64) = 512"
  by simp

lemma host_writes:
  assumes "host_link q ctx tx rx"
  obtains h' where "ctx_write ctx b h = Some (PB_RESULT_OK, h')" "tx h' = tx h @ [b]" "rx h' = rx h" "q h' = q h"
  using assms unfolding host_link_def by metis

text \<open>The results that the device sends.\<close>

abbreviation result_msg :: "int \<Rightarrow> u8 list" where
  "result_msg code \<equiv> enc_pb_result (snd (pb_wire_init_result code))"

lemma result_facts:
  "wf_pb_result (snd (pb_wire_init_result code))" "pb_wire_valid_result (snd (pb_wire_init_result code))"
  "res_result_code (snd (pb_wire_init_result code)) = word_of_int code"
  by (simp_all add: wf_pb_result_def pb_wire_init_result_def pb_wire_valid_result_def)

lemma host_reads_result:
  assumes link: "host_link q ctx tx rx" and rx: "rx h = result_msg code # ms" and "- 128 \<le> code" and "code < 128"
  obtains r h' where "read_result ctx h = Some (Inr r, h')" "result_code r = code" "tx h' = tx h" "rx h' = ms" "q h' = q h"
proof -
  let ?r = "snd (pb_wire_init_result code)"
  have l: "length (result_msg code) = 512" using w_res.length_enc [OF result_facts(1)] .
  then obtain h' where h': "ctx_read ctx 512 h = Some (PB_RESULT_OK, result_msg code, h')" "tx h' = tx h" "rx h' = ms" "q h' = q h"
    using link rx unfolding host_link_def by (metis unat_512)
  then have "read_result ctx h = Some (Inr ?r, h')"
    using l result_facts(2) w_res.dec_enc [OF result_facts(1)] by (simp add: read_result_def ctx_read_bytes_def)
  then show thesis using that h'(2-4) sint_result_code [OF assms(3,4)] by (simp add: result_facts(3))
qed

lemma host_sends_command:
  assumes link: "host_link q ctx tx rx" and "rx h = result_msg code # ms" and "- 128 \<le> code" and "code < 128"
  obtains r h' where "send_command ctx c h = Some (Inr r, h')" "result_code r = code"
    "tx h' = tx h @ [enc_pb_command c]" "rx h' = ms" "q h' = q h"
proof -
  obtain h1 where h1: "ctx_write ctx (enc_pb_command c) h = Some (PB_RESULT_OK, h1)" "tx h1 = tx h @ [enc_pb_command c]"
      "rx h1 = rx h" "q h1 = q h"
    using host_writes [OF link] .
  then obtain r h' where "read_result ctx h1 = Some (Inr r, h')" "result_code r = code" "tx h' = tx h1" "rx h' = ms" "q h' = q h1"
    using host_reads_result [OF link _ assms(3,4), of h1] assms(2) by metis
  then show thesis using that h1 by (simp add: send_command_def)
qed

subsection \<open>Rounds of the device\<close>

lemma device_receives:
  fixes E :: "('w, ('w, 'z) cm_vars_scheme) cm_env" and s :: "('w, 'z) cm_vars_scheme"
  assumes "device_link p E inq outq" and "inq (world s) = m # ms" and "length m = unat n"
  obtains w where "cm_read E n s = Some (PB_OK, m, s\<lparr>world := w\<rparr>)" "inq w = ms" "outq w = outq (world s)" "p w = p (world s)"
  using assms unfolding device_link_def by blast

lemma device_sends:
  fixes E :: "('w, ('w, 'z) cm_vars_scheme) cm_env" and s :: "('w, 'z) cm_vars_scheme"
  assumes "device_link p E inq outq"
  obtains w where "cm_write E b s = Some (PB_OK, s\<lparr>world := w\<rparr>)" "outq w = outq (world s) @ [b]" "inq w = inq (world s)"
    "p w = p (world s)"
  using assms unfolding device_link_def by blast

lemma device_round:
  assumes "device_link p E inq outq" and "inq (world s) = enc_pb_command c # ms" and "wf_pb_command c" and "wf_pb_command (cmd s)"
  obtains w where "inq w = ms" "outq w = outq (world s)" "p w = p (world s)"
    "\<forall>rc j u. pb_command_parse E (s\<lparr>world := w, cmd := c\<rparr>) = Some (rc, j, u) \<longrightarrow> cm_step E s j u"
proof -
  have "length (enc_pb_command c) = 512" using w_cmd.length_enc [OF assms(3)] .
  then obtain w w' where w: "t_read (tops (cm_cfg E)) 512 (world s) = (PB_OK, w')"
      "await_command E (s\<lparr>world := w'\<rparr>) = Some (PB_OK, s\<lparr>world := w, cmd := dec_pb_command (enc_pb_command c)\<rparr>)"
      "inq w = ms" "outq w = outq (world s)" "p w = p (world s)"
    using assms(1,2,4) unfolding device_link_def by blast
  then show thesis using that [of w] cm_step.command [OF w(1)] w_cmd.dec_enc [OF assms(3)] by simp
qed

text \<open>A command that the guards let through and that a handler answers.\<close>

lemma device_answers:
  assumes link: "device_link p E inq outq" and "pb_wire_valid_command (cmd s)"
    and "pb_wire_requires_auth (cmd s) \<longrightarrow> authenticated s \<or> slc s \<noteq> SLC_CONFIGURATION_LOCKED"
    and d: "dispatch E (set_result (- PB_RESULT_NOT_SUPPORTED) s) = Some (Reply rc u)"
  obtains rc' w b where "pb_command_parse E s = Some (rc', None, u\<lparr>world := w, reboot_requested := b\<rparr>)"
    "outq w = outq (world u) @ [enc_pb_result (cm_result u)]" "inq w = inq (world u)" "p w = p (world u)"
    "reboot_requested u = False \<longrightarrow> b = False"
proof -
  obtain w where w: "send_result E u = Some (PB_OK, u\<lparr>world := w\<rparr>)" "outq w = outq (world u) @ [enc_pb_result (cm_result u)]"
      "inq w = inq (world u)" "p w = p (world u)"
    using device_sends [OF link] .
  obtain rc' b where e: "err_out E rc u = Some (rc', None, u\<lparr>world := w, reboot_requested := b\<rparr>)"
      "reboot_requested u = False \<longrightarrow> b = False"
  proof (cases "reboot_requested u \<and> rc = 0")
    case True
    then show thesis using that [of _ False] w(1) by (simp add: err_out_def)
  next
    case False
    then show thesis using that [of rc "reboot_requested u"] w(1) by (simp add: err_out_def)
  qed
  then have "pb_command_parse E s = Some (rc', None, u\<lparr>world := w, reboot_requested := b\<rparr>)"
    using assms(2,3) d unfolding pb_command_parse_def by auto
  then show thesis using that [OF _ w(2-4) e(2)] by blast
qed

subsection \<open>Commands\<close>

lemma pb_command_of_code [simp]: "pb_command_of (pb_command_code c) = Some c"
  by (cases c) (simp_all add: pb_command_of_def pb_command_code_def pb_command_list_def)

lemma command_valid: "c \<noteq> PB_CMD_INVALID \<Longrightarrow> c \<noteq> PB_CMD_END \<Longrightarrow>
    pb_command_code c > pb_command_code PB_CMD_INVALID \<and> pb_command_code c < pb_command_code PB_CMD_END"
  by (cases c) (simp_all add: pb_command_code_def pb_command_list_def)

lemma with_data_facts:
  assumes "length dat \<le> 504"
  shows "wf_pb_command (with_data c dat)" and "cmd_command (with_data c dat) = pb_command_code c"
    and "take (length dat) (cmd_request (with_data c dat)) = dat"
    and "fst (pb_wire_init_command2 (pb_command_code c) dat) = PB_RESULT_OK"
    and "c \<noteq> PB_CMD_INVALID \<Longrightarrow> c \<noteq> PB_CMD_END \<Longrightarrow> pb_wire_valid_command (with_data c dat)"
  using assms take_overlay [of dat "replicate 504 0"] command_valid [of c]
  by (simp_all add: pb_wire_init_command2_def pb_wire_init_command_def wf_pb_command_def pb_wire_valid_command_def Let_def)

abbreviation auth_request :: "u32 \<Rightarrow> u8 list \<Rightarrow> pb_command_authenticate" where
  "auth_request kid data \<equiv>
     \<lparr>au_method = PB_AUTH_ASYM_TOKEN, au_size = of_nat (length data), au_key_id = kid, au_rz = replicate 25 0\<rparr>"

abbreviation auth_command :: "u32 \<Rightarrow> u8 list \<Rightarrow> pb_command" where
  "auth_command kid data \<equiv> with_data PB_CMD_AUTHENTICATE (enc_pb_command_authenticate (auth_request kid data))"

lemma auth_request_facts:
  "length (enc_pb_command_authenticate (auth_request kid data)) = 32"
  "dec_pb_command_authenticate (enc_pb_command_authenticate (auth_request kid data)) = auth_request kid data"
  using w_au.length_enc [of "auth_request kid data"] w_au.dec_enc [of "auth_request kid data"]
  by (simp_all add: wf_pb_command_authenticate_def)

subsection \<open>Authentication\<close>

text \<open>The device: it answers, reads the data and checks it.\<close>

lemma auth_with_link:
  fixes E :: "('w, ('w, 'z) cm_vars_scheme) cm_env" and s :: "('w, 'z) cm_vars_scheme"
  assumes link: "device_link p E inq outq" and i: "inq (world s) = overlay (replicate 1024 0) data # ms"
    and l: "length data \<le> 1024" "1024 \<le> length (buffer s)"
  obtains w where "inq w = ms" "outq w = outq (world s) @ [result_msg 0]" "p w = p (world s)"
    "\<forall>check. auth_with E check (of_nat (length data)) s =
       map_option (\<lambda>(rc, s). (rc, set_result (error_to_wire rc) (s\<lparr>authenticated := (rc = PB_OK)\<rparr>)))
         (check data ((set_result 0 s)\<lparr>world := w, buffer := blit 0 (overlay (replicate 1024 0) data) (buffer s)\<rparr>))"
proof -
  let ?m = "overlay (replicate 1024 0) data" and ?s = "set_result 0 s"
  obtain w1 where w1: "send_result E ?s = Some (PB_OK, ?s\<lparr>world := w1\<rparr>)" "outq w1 = outq (world s) @ [result_msg 0]"
      "inq w1 = inq (world s)" "p w1 = p (world s)"
    using device_sends [OF link, of "result_msg 0" ?s] by (auto simp: set_result_def)
  obtain w where w: "cm_read E 1024 (?s\<lparr>world := w1\<rparr>) = Some (PB_OK, ?m, ?s\<lparr>world := w\<rparr>)" "inq w = ms" "outq w = outq w1" "p w = p w1"
    using device_receives [OF link, of "?s\<lparr>world := w1\<rparr>" ?m ms 1024] i w1(3) by auto
  have b: "take (length data) (blit 0 ?m (buffer s)) = data"
    using l by (simp add: blit_def overlay_def)
  have n: "unat (of_nat (length data) :: u16) = length data" using l by (simp add: unat_of_nat)
  show thesis
    using that [of w] w w1 b n
    by (simp add: auth_with_def read_to_buffer_def set_result_def map_option_case split: option.split)
qed

lemma auth_token_returns:
  assumes "rot_status_pure (rot_cfg (cm_platform E))"
  obtains rc u where "auth_token E kid sig s = Some (rc, u)"
proof -
  let ?cfg = "rot_cfg (cm_platform E)" and ?ks = "keystore_pb (cm_platform E)"
  obtain rc1 s1 where 1: "rot_read_key_status ?cfg kid s = (rc1, s1)" by (cases "rot_read_key_status ?cfg kid s")
  obtain rc2 key s2 where 2: "rot_get_dsa_key ?ks ?cfg kid s1 = (rc2, key, s2)" by (cases "rot_get_dsa_key ?ks ?cfg kid s1") auto
  have "rc2 = PB_OK \<Longrightarrow> key \<noteq> None" using rot_get_dsa_key_OK [OF _ assms] 2 by blast
  then have "auth_token E kid sig s \<noteq> None"
    unfolding auth_token_def 1 uuid_unparse_text by (auto simp: 2 Let_def split: option.splits prod.splits)
  then show thesis using that by auto
qed

text \<open>The messages of an authentication, and the answers of the device.\<close>

abbreviation auth_messages :: "u32 \<Rightarrow> u8 list \<Rightarrow> u8 list list" where
  "auth_messages kid data \<equiv> [enc_pb_command (auth_command kid data), overlay (replicate 1024 0) data]"

lemma authenticate_device:
  fixes E :: "('w, ('w, 'z) cm_vars_scheme) cm_env" and s :: "('w, 'z) cm_vars_scheme"
  assumes link: "device_link p E inq outq" and keep: "drivers_keep (\<lambda>w. (inq w, outq w)) s"
    and pure: "rot_status_pure (rot_cfg (cm_platform E))" and conf: "conf_auth_token E" and cmd: "wf_pb_command (cmd s)"
    and l: "length data \<le> 1024" "1024 \<le> length (buffer s)" and i: "inq (world s) = auth_messages kid data"
  obtains t rc u s' where "auth_token E kid data t = Some (rc, u)" "quiet p s t" "cm_step E s None s'"
    "inq (world s') = []" "outq (world s') = outq (world s) @ [result_msg 0, result_msg (error_to_wire rc)]"
    "authenticated s' \<longleftrightarrow> rc = PB_OK"
proof -
  let ?m = "overlay (replicate 1024 0) data" and ?b = "enc_pb_command_authenticate (auth_request kid data)"
  have lb: "length ?b \<le> 504" by (simp add: auth_request_facts(1))
  note c = with_data_facts [OF lb, of PB_CMD_AUTHENTICATE]
  obtain w1 where w1: "inq w1 = [?m]" "outq w1 = outq (world s)" "p w1 = p (world s)"
    and step: "\<forall>rc j u. pb_command_parse E (s\<lparr>world := w1, cmd := auth_command kid data\<rparr>) = Some (rc, j, u) \<longrightarrow> cm_step E s j u"
    using device_round [OF link i c(1) cmd] .
  define s1 where "s1 = s\<lparr>world := w1, cmd := auth_command kid data\<rparr>"
  define s2 where "s2 = set_result (- PB_RESULT_NOT_SUPPORTED) s1"
  have s2: "inq (world s2) = [?m]" "buffer s2 = buffer s" "cmd s2 = auth_command kid data" "world s2 = w1"
    by (simp_all add: s1_def s2_def set_result_def w1)
  have l2: "1024 \<le> length (buffer s2)" using l(2) s2(2) by simp
  obtain w where w: "inq w = []" "outq w = outq (world s2) @ [result_msg 0]" "p w = p (world s2)"
    and a: "\<forall>check. auth_with E check (of_nat (length data)) s2 =
       map_option (\<lambda>(rc, s). (rc, set_result (error_to_wire rc) (s\<lparr>authenticated := (rc = PB_OK)\<rparr>)))
         (check data ((set_result 0 s2)\<lparr>world := w, buffer := blit 0 ?m (buffer s2)\<rparr>))"
    using auth_with_link [OF link s2(1) l(1) l2] .
  define t where "t = (set_result 0 s2)\<lparr>world := w, buffer := blit 0 ?m (buffer s2)\<rparr>"
  obtain rc u where u: "auth_token E kid data t = Some (rc, u)" using auth_token_returns [OF pure] .
  have kt: "drivers_keep (\<lambda>w. (inq w, outq w)) t"
    using keep by (simp add: drivers_keep_def t_def s2_def s1_def set_result_def)
  have q: "inq (world u) = inq w" "outq (world u) = outq w"
    using cm_frame_sel(5) [OF quiet_frame [OF auth_token_quiet [OF u pure kt]]] by (simp_all add: t_def)
  define v where "v = set_result (error_to_wire rc) (u\<lparr>authenticated := (rc = PB_OK)\<rparr>)"
  have "request dec_pb_command_authenticate 32 s2 = auth_request kid data"
    using c(3) by (simp add: s2(3) auth_request_facts)
  moreover have "set_result (- PB_RESULT_NOT_SUPPORTED) s2 = s2" by (simp add: s2_def set_result_def)
  ultimately have "cmd_auth E s2 = Some (rc, v)"
    using spec [OF a, of "auth_token E kid"] u conf
    by (simp add: cmd_auth_def t_def [symmetric] v_def [symmetric] Let_def split: option.split)
  then have disp: "dispatch E (set_result (- PB_RESULT_NOT_SUPPORTED) s1) = Some (Reply rc v)"
    using s2(3) c(2) by (simp add: dispatch_def s2_def [symmetric])
  have "pb_wire_valid_command (cmd s1)" "\<not> pb_wire_requires_auth (cmd s1)"
    using c(2,5) by (simp_all add: s1_def pb_wire_requires_auth_def)
  then obtain rc' w' b where r: "pb_command_parse E s1 = Some (rc', None, v\<lparr>world := w', reboot_requested := b\<rparr>)"
      "outq w' = outq (world v) @ [enc_pb_result (cm_result v)]" "inq w' = inq (world v)"
    using device_answers [OF link _ _ disp] by blast
  have "quiet p s t"
    using w w1 by (simp add: t_def s2_def s1_def quiet_def cm_frame_def kept_def set_result_def)
  then show thesis
    using that [OF u _ step [rule_format, OF r(1) [unfolded s1_def]]] r q w w1 s2 by (simp add: v_def set_result_def)
qed

text \<open>The host: it sends the command and then the data.\<close>

lemma authenticate_host:
  assumes link: "host_link q ctx tx rx" and "rx h = [result_msg 0, result_msg code]" and "- 128 \<le> code" and "code < 128"
    and "data \<noteq> []" and "length data \<le> 1024"
  obtains h' where "pb_api_authenticate_key ctx kid data h = Some (code, h')" "tx h' = tx h @ auth_messages kid data"
proof -
  define c where "c = auth_command kid data"
  have i: "pb_wire_init_command2 (pb_command_code PB_CMD_AUTHENTICATE) (enc_pb_command_authenticate (auth_request kid data))
      = (PB_RESULT_OK, c)"
    using with_data_facts(4) [of "enc_pb_command_authenticate (auth_request kid data)" PB_CMD_AUTHENTICATE]
    by (simp add: c_def auth_request_facts(1) prod_eq_iff)
  have z: "- 128 \<le> (0 :: int)" "(0 :: int) < 128" by simp_all
  obtain r h1 where 1: "send_command ctx c h = Some (Inr r, h1)" "result_code r = 0"
      "tx h1 = tx h @ [enc_pb_command c]" "rx h1 = [result_msg code]"
    using host_sends_command [OF link assms(2) z, of c] by blast
  obtain h2 where 2: "ctx_write ctx (overlay (replicate 1024 0) data) h1 = Some (PB_RESULT_OK, h2)"
      "tx h2 = tx h1 @ [overlay (replicate 1024 0) data]" "rx h2 = rx h1"
    using host_writes [OF link] by blast
  have 24: "rx h2 = [result_msg code]" using 1(4) 2(3) by simp
  obtain r' h3 where 3: "read_result ctx h2 = Some (Inr r', h3)" "result_code r' = code" "tx h3 = tx h2"
    using host_reads_result [OF link 24 assms(3,4)] by blast
  have "pb_api_authenticate_key ctx kid data h = Some (code, h3)"
    using 1 2 3 assms(5,6) i unfolding pb_api_authenticate_key_def internal_pb_api_authenticate_def
    by (simp add: returned_def Let_def)
  then show thesis using that 1(3) 2(2) 3(3) by (simp add: c_def)
qed

text \<open>
  C4: host and device agree about an authentication. When the host calls
  \<open>pb_api_authenticate_key\<close> with a token of at most 1024 bytes, the device that receives the
  messages of this call runs the token check on exactly this token and this key number, with the
  rest of its state as it was; the host that receives its answers has sent exactly these messages
  and returns zero if and only if the device is authenticated now.
\<close>

theorem authenticate_end_to_end:
  fixes E :: "('w, ('w, 'z) cm_vars_scheme) cm_env" and s :: "('w, 'z) cm_vars_scheme"
  assumes "host_link q ctx tx rx" and "device_link p E inq outq" and "drivers_keep (\<lambda>w. (inq w, outq w)) s"
    and "rot_status_pure (rot_cfg (cm_platform E))" and "conf_auth_token E" and "wf_pb_command (cmd s)"
    and "data \<noteq> []" and "length data \<le> 1024" and "1024 \<le> length (buffer s)"
    and "inq (world s) = auth_messages kid data" and "outq (world s) = []"
  shows "\<exists>t rc u s'. quiet p s t \<and> auth_token E kid data t = Some (rc, u) \<and> cm_step E s None s' \<and> inq (world s') = [] \<and>
    (\<forall>h. rx h = outq (world s') \<longrightarrow> (\<exists>ret h'. pb_api_authenticate_key ctx kid data h = Some (ret, h') \<and>
       tx h' = tx h @ inq (world s) \<and> ret = error_to_wire rc \<and> (ret = PB_RESULT_OK \<longleftrightarrow> authenticated s')))"
proof -
  obtain t rc u s' where d: "auth_token E kid data t = Some (rc, u)" "quiet p s t" "cm_step E s None s'"
    "inq (world s') = []" "outq (world s') = outq (world s) @ [result_msg 0, result_msg (error_to_wire rc)]"
    "authenticated s' \<longleftrightarrow> rc = PB_OK"
    using authenticate_device [OF assms(2-6,8,9,10)] .
  have b: "- 128 \<le> error_to_wire rc" "error_to_wire rc < 128" using error_to_wire_bounds(1,2) [of rc] by linarith+
  have "\<exists>h'. pb_api_authenticate_key ctx kid data h = Some (error_to_wire rc, h') \<and> tx h' = tx h @ inq (world s)"
    if "rx h = outq (world s')" for h
    using authenticate_host [OF assms(1) _ b assms(7,8), of h] that d(5) assms(10,11) by auto
  then show ?thesis using d error_to_wire_bounds(3) [of rc] by blast
qed

subsection \<open>A link of two queues\<close>

text \<open>
  The world of the device: the rest, the messages that wait, those that were sent, and whether
  a transfer to the device is under way. The world of the host: the rest, and the messages that
  were sent and that wait.
\<close>

type_synonym 'r device_queues = "'r \<times> u8 list list \<times> u8 list list \<times> bool"

abbreviation (input) queue_in :: "'r device_queues \<Rightarrow> u8 list list" where "queue_in \<equiv> \<lambda>w. fst (snd w)"

abbreviation (input) queue_out :: "'r device_queues \<Rightarrow> u8 list list" where "queue_out \<equiv> \<lambda>w. fst (snd (snd w))"

definition queue_tops :: "'r device_queues cm_transport_ops" where
  "queue_tops = \<lparr>t_init = None, t_connect = None, t_disconnect = None,
     t_read = (\<lambda>_ (d, i, out, _). (PB_OK, (d, i, out, True))),
     t_write = (\<lambda>b (d, i, out, _). (PB_OK, (d, i, out @ [b], False))),
     t_complete = (\<lambda>(d, i, out, r).
       if r \<and> i \<noteq> [] then (PB_OK, hd i, (d, tl i, out, False)) else (PB_OK, [], (d, i, out, False)))\<rparr>"

definition queue_ctx :: "('r \<times> u8 list list \<times> u8 list list) pb_context" where
  "queue_ctx = \<lparr>ctx_write = (\<lambda>b (d, t, r). Some (PB_RESULT_OK, (d, t @ [b], r))),
     ctx_read = (\<lambda>_ (d, t, r). case r of [] \<Rightarrow> None | m # ms \<Rightarrow> Some (PB_RESULT_OK, m, (d, t, ms))),
     ctx_malloc = (\<lambda>_. True)\<rparr>"

lemma queue_host_link: "host_link fst queue_ctx (fst \<circ> snd) (snd \<circ> snd)"
  by (auto simp: host_link_def queue_ctx_def)

lemma queue_device_link: "device_link fst (demo_cm_env queue_tops token) queue_in queue_out"
proof -
  let ?E = "demo_cm_env queue_tops token :: ('r device_queues, ('r device_queues, 'z) cm_vars_scheme) cm_env"
  have 1: "\<exists>w w'. t_read (tops (cm_cfg ?E)) 512 (world s) = (PB_OK, w') \<and>
      await_command ?E (s\<lparr>world := w'\<rparr>) = Some (PB_OK, s\<lparr>world := w, cmd := dec_pb_command m\<rparr>) \<and>
      queue_in w = ms \<and> queue_out w = queue_out (world s) \<and> fst w = fst (world s)"
    if "queue_in (world s) = m # ms" "length m = 512" "wf_pb_command (cmd s)" for s :: "('r device_queues, 'z) cm_vars_scheme" and m ms
    using that w_cmd.length_enc [OF that(3)]
    by (cases "world s") (auto simp: queue_tops_def await_command.simps Let_def)
  have 2: "\<exists>w. cm_read ?E n s = Some (PB_OK, m, s\<lparr>world := w\<rparr>) \<and> queue_in w = ms \<and> queue_out w = queue_out (world s) \<and> fst w = fst (world s)"
    if "queue_in (world s) = m # ms" "length m = unat n" for n and s :: "('r device_queues, 'z) cm_vars_scheme" and m ms
    using that by (cases "world s") (auto simp: queue_tops_def await.simps Let_def cm_read_def)
  have 3: "\<exists>w. cm_write ?E b s = Some (PB_OK, s\<lparr>world := w\<rparr>) \<and> queue_out w = queue_out (world s) @ [b] \<and> queue_in w = queue_in (world s) \<and>
      fst w = fst (world s)" for b and s :: "('r device_queues, 'z) cm_vars_scheme"
    by (cases "world s") (auto simp: queue_tops_def await.simps Let_def cm_write_def)
  show ?thesis unfolding device_link_def using 1 2 3 by blast
qed

definition link_hash_ops :: "(hash_t \<times> u8 list) device_queues hash_ops" where
  "link_hash_ops =
     \<lparr>ho_name = ''sum'', ho_alg_bits = 31, ho_init = (\<lambda>alg w. (PB_OK, ((alg, []), snd w))),
      ho_update = (\<lambda>buf w. (PB_OK, ((fst (fst w), snd (fst w) @ buf), snd w))), ho_update_async = None, ho_copy_update = None,
      ho_final = (\<lambda>len w. (PB_OK, sum_hash (fst (fst w)) (snd (fst w)), w))\<rparr>"

abbreviation demo_token_data :: "u8 list" where
  "demo_token_data \<equiv> sum_hash HASH_SHA256 (uuid_text (replicate 16 5))"

abbreviation link_start :: "(hash_t \<times> u8 list) device_queues cm_vars" where
  "link_start \<equiv> demo_locked ((0, []), auth_messages 0xa90f9680 demo_token_data, [], False) [Some link_hash_ops] [Some eq_dsa_ops]"

theorem authenticate_end_to_end_witness:
  "\<exists>s' ret h'. cm_step (demo_cm_env queue_tops True) link_start None s' \<and>
     pb_api_authenticate_key queue_ctx 0xa90f9680 demo_token_data ((), [], queue_out (world s')) = Some (ret, h') \<and>
     (fst \<circ> snd) h' = auth_messages 0xa90f9680 demo_token_data \<and> (ret = PB_RESULT_OK \<longleftrightarrow> authenticated s')"
proof -
  have l: "demo_token_data \<noteq> []" "length demo_token_data \<le> 1024" by (simp_all add: sum_hash_def digest_len_of_def)
  have wf: "wf_pb_command (cmd link_start)" using demo_erase_facts(1) by simp
  have k: "drivers_keep (\<lambda>w. (queue_in w, queue_out w)) link_start"
    by (simp add: drivers_keep_def hash_keeps_world_def link_hash_ops_def eq_dsa_ops_def)
  have b: "1024 \<le> length (buffer link_start)" by (simp add: demo_locked_def)
  have r: "rot_status_pure (rot_cfg (cm_platform (demo_cm_env queue_tops True)))" "conf_auth_token (demo_cm_env queue_tops True)"
    by (simp_all add: demo_platform_def rot_status_pure_test)
  have i: "queue_in (world link_start) = auth_messages 0xa90f9680 demo_token_data" "queue_out (world link_start) = []" by simp_all
  obtain s' where s': "cm_step (demo_cm_env queue_tops True) link_start None s'"
    "\<forall>h :: unit \<times> u8 list list \<times> u8 list list. (snd \<circ> snd) h = queue_out (world s') \<longrightarrow>
       (\<exists>ret h'. pb_api_authenticate_key queue_ctx 0xa90f9680 demo_token_data h = Some (ret, h') \<and>
          (fst \<circ> snd) h' = (fst \<circ> snd) h @ queue_in (world link_start) \<and> (ret = PB_RESULT_OK \<longleftrightarrow> authenticated s'))"
    using authenticate_end_to_end [OF queue_host_link queue_device_link k r wf l b i] by blast
  then show ?thesis using spec [OF s'(2), of "((), [], queue_out (world s'))"] i(1) by auto
qed

end
