(* ===== verification/Pbstate.thy ===== *)
theory Pbstate
  imports Ab_State "HOL-Library.Monad_Syntax"
begin

text \<open>
  The tool library \<open>tools/pbstate/src/pbstate.c\<close>, by which the running system reads and changes the
  A/B record that the boot loader uses at the next start: it marks a new system for a trial, and
  confirms it when it works.

  The operating system is a record of functions on the type \<open>'o\<close>. A call that fails returns the
  negated \<open>errno\<close>. Log output is left out; a loop that never ends is \<open>None\<close>.
\<close>

subsection \<open>The operating system\<close>

datatype open_mode = RDONLY | RDWR | RDWR_DSYNC | WRONLY_DSYNC

record 'o os =
  os_open :: "string \<Rightarrow> open_mode \<Rightarrow> 'o \<Rightarrow> int \<times> 'o"
  os_flock :: "int \<Rightarrow> bool \<Rightarrow> 'o \<Rightarrow> int \<times> 'o"
  os_unlock :: "int \<Rightarrow> 'o \<Rightarrow> 'o"
  os_rewind :: "int \<Rightarrow> 'o \<Rightarrow> int \<times> 'o"
  os_read :: "int \<Rightarrow> nat \<Rightarrow> 'o \<Rightarrow> (int + u8 list) \<times> 'o"
  os_write :: "int \<Rightarrow> u8 list \<Rightarrow> 'o \<Rightarrow> int \<times> 'o"
  os_close :: "int \<Rightarrow> 'o \<Rightarrow> 'o"
  os_sync :: "'o \<Rightarrow> 'o"

abbreviation (input) EPERM :: int where "EPERM \<equiv> 1"
abbreviation (input) EINTR :: int where "EINTR \<equiv> 4"
abbreviation (input) EIO :: int where "EIO \<equiv> 5"
abbreviation (input) EINVAL :: int where "EINVAL \<equiv> 22"

text \<open>The static variables of the file, and the operating system.\<close>

record 'o pbstate_vars =
  ps_state :: pb_boot_state
  primary_device :: string
  backup_device :: string
  ps_os :: 'o

text \<open>\<open>pbstate_system_t\<close>; the functions get it as an integer.\<close>

abbreviation (input) PBSTATE_SYSTEM_NONE :: int where "PBSTATE_SYSTEM_NONE \<equiv> 0"
abbreviation (input) PBSTATE_SYSTEM_A :: int where "PBSTATE_SYSTEM_A \<equiv> 1"
abbreviation (input) PBSTATE_SYSTEM_B :: int where "PBSTATE_SYSTEM_B \<equiv> 2"

subsection \<open>Loading and saving\<close>

definition verify_state :: "pb_boot_state \<Rightarrow> int \<times> pb_boot_state" where
  "verify_state state =
     (let crc = bs_crc state; state = state\<lparr>bs_crc := 0\<rparr> in
      if bs_magic state \<noteq> PB_STATE_MAGIC then (- EIO, state)
      else if crc \<noteq> crc32 0 (enc_state state) then (- EIO, state)
      else (0, state))"

text \<open>The loop of \<open>write_state\<close>; the argument is what remains to be written.\<close>

partial_function (option) write_from :: "'o os \<Rightarrow> int \<Rightarrow> u8 list \<Rightarrow> 'o \<Rightarrow> (int \<times> 'o) option" where
  "write_from os fd buf w =
     (case os_write os fd buf w of (write_now, w) \<Rightarrow>
      if write_now < 0 then Some (write_now, w)
      else if nat write_now < length buf then write_from os fd (drop (nat write_now) buf) w
      else Some (0, w))"

definition write_state :: "'o os \<Rightarrow> int \<Rightarrow> 'o pbstate_vars \<Rightarrow> (int \<times> 'o pbstate_vars) option" where
  "write_state os fd s =
     do {
       (rc, w) \<leftarrow> write_from os fd (enc_state (ps_state s)) (ps_os s);
       Some (rc, s\<lparr>ps_os := w\<rparr>)
     }"

text \<open>The loop of \<open>read_state\<close>; \<open>got\<close> is what has been stored to \<open>state\<close> so far.\<close>

partial_function (option) read_from :: "'o os \<Rightarrow> int \<Rightarrow> u8 list \<Rightarrow> 'o \<Rightarrow> (int \<times> u8 list \<times> 'o) option" where
  "read_from os fd got w =
     (case os_read os fd (512 - length got) w of (r, w) \<Rightarrow>
      case r of
        Inl e \<Rightarrow> Some (e, got, w)
      | Inr bs \<Rightarrow>
          if bs = [] then Some (- EIO, got, w)
          else if length (got @ bs) < 512 then read_from os fd (got @ bs) w
          else Some (0, got @ bs, w))"

definition read_state :: "'o os \<Rightarrow> int \<Rightarrow> 'o pbstate_vars \<Rightarrow> (int \<times> 'o pbstate_vars) option" where
  "read_state os fd s =
     do {
       (rc, got, w) \<leftarrow> read_from os fd [] (ps_os s);
       Some (rc, s\<lparr>ps_state := dec_state (overlay (enc_state (ps_state s)) got), ps_os := w\<rparr>)
     }"

partial_function (option) lock_device :: "'o os \<Rightarrow> int \<Rightarrow> bool \<Rightarrow> 'o \<Rightarrow> (int \<times> 'o) option" where
  "lock_device os fd wr w =
     (case os_flock os fd wr w of (rc, w) \<Rightarrow> if rc = - EINTR then lock_device os fd wr w else Some (rc, w))"

text \<open>The labels \<open>err_close_and_release_out\<close> and \<open>err_close_backup_out\<close> of \<open>open_and_load_state\<close>.\<close>

definition release :: "'o os \<Rightarrow> int \<Rightarrow> 'o pbstate_vars \<Rightarrow> 'o pbstate_vars" where
  "release os fd s = s\<lparr>ps_os := os_close os fd (os_unlock os fd (ps_os s))\<rparr>"

definition close_fd :: "'o os \<Rightarrow> int \<Rightarrow> 'o pbstate_vars \<Rightarrow> 'o pbstate_vars" where
  "close_fd os fd s = s\<lparr>ps_os := os_close os fd (ps_os s)\<rparr>"

definition open_and_load_state :: "'o os \<Rightarrow> bool \<Rightarrow> 'o pbstate_vars \<Rightarrow> (int \<times> 'o pbstate_vars) option" where
  "open_and_load_state os wr s =
     (case os_open os (primary_device s) (if wr then RDWR_DSYNC else RDONLY) (ps_os s) of (fd, w) \<Rightarrow>
      if fd < 0 then Some (fd, s\<lparr>ps_os := w\<rparr>)
      else do {
        (rc, w) \<leftarrow> lock_device os fd wr w;
        let s = s\<lparr>ps_os := w\<rparr>;
        if rc \<noteq> 0 then Some (rc, close_fd os fd s)
        else do {
          (rc, s) \<leftarrow> read_state os fd s;
          if rc \<noteq> 0 then Some (rc, release os fd s)
          else case verify_state (ps_state s) of (rc, st) \<Rightarrow>
            let s = s\<lparr>ps_state := st\<rparr> in
            if rc = 0 then Some (fd, s)
            else case os_open os (backup_device s) (if wr then RDWR else RDONLY) (ps_os s) of (backup_fd, w) \<Rightarrow>
              let s = s\<lparr>ps_os := w\<rparr> in
              if backup_fd < 0 then Some (backup_fd, release os fd s)
              else do {
                (rc, s) \<leftarrow> read_state os backup_fd s;
                if rc \<noteq> 0 then Some (rc, release os fd (close_fd os backup_fd s))
                else case verify_state (ps_state s) of (rc, st) \<Rightarrow>
                  let s = s\<lparr>ps_state := st\<rparr> in
                  if rc \<noteq> 0 then Some (rc, release os fd (close_fd os backup_fd s))
                  else Some (fd, close_fd os backup_fd s)
              }
        }
      })"

text \<open>The label \<open>err_close_and_release_out\<close> of \<open>close_and_save_state\<close>.\<close>

definition release_and_sync :: "'o os \<Rightarrow> int \<Rightarrow> 'o pbstate_vars \<Rightarrow> 'o pbstate_vars" where
  "release_and_sync os fd s = (release os fd s)\<lparr>ps_os := os_sync os (ps_os (release os fd s))\<rparr>"

definition close_and_save_state :: "'o os \<Rightarrow> int \<Rightarrow> bool \<Rightarrow> 'o pbstate_vars \<Rightarrow> (int \<times> 'o pbstate_vars) option" where
  "close_and_save_state os fd wr s =
     (if \<not> wr then Some (0, release_and_sync os fd s)
      else case os_rewind os fd (ps_os s) of (rc, w) \<Rightarrow>
        let s = s\<lparr>ps_os := w\<rparr> in
        if rc < 0 then Some (rc, release_and_sync os fd s)
        else
          let st = (ps_state s)\<lparr>bs_crc := 0\<rparr>;
              st = st\<lparr>bs_crc := crc32 0 (enc_state st)\<rparr>;
              s = s\<lparr>ps_state := st\<rparr>
          in do {
            (rc, s) \<leftarrow> write_state os fd s;
            if rc \<noteq> 0 then Some (rc, release_and_sync os fd s)
            else case os_open os (backup_device s) WRONLY_DSYNC (ps_os s) of (backup_fd, w) \<Rightarrow>
              let s = s\<lparr>ps_os := w\<rparr> in
              if backup_fd < 0 then Some (backup_fd, release_and_sync os fd s)
              else do {
                (rc, s) \<leftarrow> write_state os backup_fd s;
                Some (rc, release_and_sync os fd (close_fd os backup_fd s))
              }
          })"

subsection \<open>The functions of the library\<close>

definition pbstate_init :: "string \<Rightarrow> string \<Rightarrow> 'o pbstate_vars \<Rightarrow> int \<times> 'o pbstate_vars" where
  "pbstate_init p_device b_device s = (0, s\<lparr>primary_device := p_device, backup_device := b_device\<rparr>)"

text \<open>
  The frame of a function that only reads the record, with the value it takes from it, and of
  one that changes the record by \<open>f\<close>, which may refuse with an error.
\<close>

definition pbstate_query ::
  "'o os \<Rightarrow> (pb_boot_state \<Rightarrow> 'a) \<Rightarrow> 'o pbstate_vars \<Rightarrow> (int \<times> 'a option \<times> 'o pbstate_vars) option" where
  "pbstate_query os f s =
     do {
       (fd, s) \<leftarrow> open_and_load_state os False s;
       if fd < 0 then Some (fd, None, s)
       else do {
         (_, s') \<leftarrow> close_and_save_state os fd False s;
         Some (0, Some (f (ps_state s)), s')
       }
     }"

definition pbstate_change ::
  "'o os \<Rightarrow> (pb_boot_state \<Rightarrow> int + pb_boot_state) \<Rightarrow> 'o pbstate_vars \<Rightarrow> (int \<times> 'o pbstate_vars) option" where
  "pbstate_change os f s =
     do {
       (fd, s) \<leftarrow> open_and_load_state os True s;
       if fd < 0 then Some (fd, s)
       else case f (ps_state s) of
         Inl rc \<Rightarrow> do { (_, s) \<leftarrow> close_and_save_state os fd False s; Some (rc, s) }
       | Inr st \<Rightarrow> close_and_save_state os fd True (s\<lparr>ps_state := st\<rparr>)
     }"

abbreviation truth :: "bool \<Rightarrow> int" where
  "truth b \<equiv> (if b then 1 else 0)"

text \<open>The value that was computed, or the error.\<close>

definition value_or_error :: "(int \<times> int option \<times> 'o pbstate_vars) option \<Rightarrow> (int \<times> 'o pbstate_vars) option" where
  "value_or_error r = map_option (\<lambda>(rc, v, s). (case v of None \<Rightarrow> rc | Some v \<Rightarrow> v, s)) r"

definition pbstate_is_system_active :: "'o os \<Rightarrow> int \<Rightarrow> 'o pbstate_vars \<Rightarrow> (int \<times> 'o pbstate_vars) option" where
  "pbstate_is_system_active os system s =
     value_or_error (pbstate_query os (\<lambda>state.
       if system = PBSTATE_SYSTEM_A then truth (enable state AND PB_STATE_A_ENABLED \<noteq> 0)
       else if system = PBSTATE_SYSTEM_B then truth (enable state AND PB_STATE_B_ENABLED \<noteq> 0)
       else if system = PBSTATE_SYSTEM_NONE then truth (enable state \<noteq> 0)
       else 0) s)"

definition pbstate_is_system_verified :: "'o os \<Rightarrow> int \<Rightarrow> 'o pbstate_vars \<Rightarrow> (int \<times> 'o pbstate_vars) option" where
  "pbstate_is_system_verified os system s =
     value_or_error (pbstate_query os (\<lambda>state.
       if system = PBSTATE_SYSTEM_A then truth (verified state AND PB_STATE_A_VERIFIED \<noteq> 0)
       else if system = PBSTATE_SYSTEM_B then truth (verified state AND PB_STATE_B_VERIFIED \<noteq> 0)
       else if system = PBSTATE_SYSTEM_NONE then truth (enable state \<noteq> 0)
       else 0) s)"

text \<open>The first argument says whether the pointer to the result is \<open>NULL\<close>.\<close>

definition pbstate_get_remaining_boot_attempts ::
  "'o os \<Rightarrow> bool \<Rightarrow> 'o pbstate_vars \<Rightarrow> (int \<times> u32 option \<times> 'o pbstate_vars) option" where
  "pbstate_get_remaining_boot_attempts os null s =
     (if null then Some (- EINVAL, None, s) else pbstate_query os remaining_boot_attempts s)"

definition pbstate_force_rollback :: "'o os \<Rightarrow> 'o pbstate_vars \<Rightarrow> (int \<times> 'o pbstate_vars) option" where
  "pbstate_force_rollback os s =
     map_option (\<lambda>(rc, s). (if rc < 0 then rc else 0, s)) (pbstate_change os (\<lambda>state.
       if enable state AND PB_STATE_A_ENABLED \<noteq> 0 \<and> verified state AND PB_STATE_A_VERIFIED \<noteq> 0 then Inl (- EPERM)
       else if enable state AND PB_STATE_B_ENABLED \<noteq> 0 \<and> verified state AND PB_STATE_B_VERIFIED \<noteq> 0 then Inl (- EPERM)
       else Inr (state\<lparr>remaining_boot_attempts := 0\<rparr>)) s)"

definition pbstate_get_errors :: "'o os \<Rightarrow> 'o pbstate_vars \<Rightarrow> (int \<times> u32 option \<times> 'o pbstate_vars) option" where
  "pbstate_get_errors os s = pbstate_query os bs_error s"

definition pbstate_clear_error :: "'o os \<Rightarrow> u32 \<Rightarrow> 'o pbstate_vars \<Rightarrow> (int \<times> 'o pbstate_vars) option" where
  "pbstate_clear_error os errors s = pbstate_change os (\<lambda>state. Inr (state\<lparr>bs_error := bs_error state AND NOT errors\<rparr>)) s"

definition switched :: "u32 \<Rightarrow> u32 \<Rightarrow> u32 \<Rightarrow> pb_boot_state \<Rightarrow> pb_boot_state" where
  "switched enabled_flag verified_flag boot_attempts state =
     (let state = state\<lparr>enable := enabled_flag\<rparr> in
      if boot_attempts > 0 then
        state\<lparr>remaining_boot_attempts := boot_attempts, verified := verified state AND NOT verified_flag, bs_error := 0\<rparr>
      else state\<lparr>verified := verified state OR verified_flag, remaining_boot_attempts := 0, bs_error := 0\<rparr>)"

definition pbstate_switch_system :: "'o os \<Rightarrow> int \<Rightarrow> u32 \<Rightarrow> 'o pbstate_vars \<Rightarrow> (int \<times> 'o pbstate_vars) option" where
  "pbstate_switch_system os system boot_attempts s =
     pbstate_change os (\<lambda>state.
       if system = PBSTATE_SYSTEM_A then Inr (switched PB_STATE_A_ENABLED PB_STATE_A_VERIFIED boot_attempts state)
       else if system = PBSTATE_SYSTEM_B then Inr (switched PB_STATE_B_ENABLED PB_STATE_B_VERIFIED boot_attempts state)
       else if system = PBSTATE_SYSTEM_NONE then Inr (state\<lparr>enable := 0, remaining_boot_attempts := 0\<rparr>)
       else Inl (- EINVAL)) s"

definition pbstate_invalidate_system :: "'o os \<Rightarrow> int \<Rightarrow> 'o pbstate_vars \<Rightarrow> (int \<times> 'o pbstate_vars) option" where
  "pbstate_invalidate_system os system s =
     pbstate_change os (\<lambda>state.
       if system = PBSTATE_SYSTEM_A then
         Inr (state\<lparr>enable := enable state AND NOT PB_STATE_A_ENABLED, verified := verified state AND NOT PB_STATE_A_VERIFIED\<rparr>)
       else if system = PBSTATE_SYSTEM_B then
         Inr (state\<lparr>enable := enable state AND NOT PB_STATE_B_ENABLED, verified := verified state AND NOT PB_STATE_B_VERIFIED\<rparr>)
       else Inl (- EINVAL)) s"

definition pbstate_set_system_verified :: "'o os \<Rightarrow> int \<Rightarrow> 'o pbstate_vars \<Rightarrow> (int \<times> 'o pbstate_vars) option" where
  "pbstate_set_system_verified os system s =
     pbstate_change os (\<lambda>state.
       if system = PBSTATE_SYSTEM_A then
         Inr (state\<lparr>verified := verified state OR PB_STATE_A_VERIFIED, remaining_boot_attempts := 0\<rparr>)
       else if system = PBSTATE_SYSTEM_B then
         Inr (state\<lparr>verified := verified state OR PB_STATE_B_VERIFIED, remaining_boot_attempts := 0\<rparr>)
       else if system = PBSTATE_SYSTEM_NONE then Inr state
       else Inl (- EINVAL)) s"

text \<open>The registers are stored in reverse order.\<close>

abbreviation reg_slot :: "u32 \<Rightarrow> nat" where
  "reg_slot index \<equiv> unat (PB_STATE_NO_OF_BOARD_REGS - index - 1)"

definition pbstate_read_board_reg ::
  "'o os \<Rightarrow> u32 \<Rightarrow> 'o pbstate_vars \<Rightarrow> (int \<times> u32 option \<times> 'o pbstate_vars) option" where
  "pbstate_read_board_reg os index s =
     (if index > PB_STATE_NO_OF_BOARD_REGS - 1 then Some (- EINVAL, None, s)
      else pbstate_query os (\<lambda>state. board_regs state ! reg_slot index) s)"

definition pbstate_write_board_reg :: "'o os \<Rightarrow> u32 \<Rightarrow> u32 \<Rightarrow> 'o pbstate_vars \<Rightarrow> (int \<times> 'o pbstate_vars) option" where
  "pbstate_write_board_reg os index value s =
     (if index > PB_STATE_NO_OF_BOARD_REGS - 1 then Some (- EINVAL, s)
      else pbstate_change os (\<lambda>state. Inr (state\<lparr>board_regs := (board_regs state)[reg_slot index := value]\<rparr>)) s)"

definition pbstate_clear_set_board_reg ::
  "'o os \<Rightarrow> u32 \<Rightarrow> u32 \<Rightarrow> u32 \<Rightarrow> 'o pbstate_vars \<Rightarrow> (int \<times> 'o pbstate_vars) option" where
  "pbstate_clear_set_board_reg os index clear set_bits s =
     (if index > PB_STATE_NO_OF_BOARD_REGS - 1 then Some (- EINVAL, s)
      else pbstate_change os (\<lambda>state.
        Inr (state\<lparr>board_regs := (board_regs state)[reg_slot index :=
          board_regs state ! reg_slot index AND NOT clear OR set_bits]\<rparr>)) s)"

subsection \<open>Device files\<close>

text \<open>
  The contract of the operating system: \<open>view\<close> is the table of open files, with their devices and
  positions, and the first 512 bytes of each device. Calls on the two devices succeed; reads and
  writes may transfer fewer bytes than asked for, but at least one.
\<close>

type_synonym os_view = "(int \<rightharpoonup> string \<times> nat) \<times> (string \<Rightarrow> u8 list)"

definition device_files :: "string set \<Rightarrow> ('o \<Rightarrow> os_view) \<Rightarrow> 'o os \<Rightarrow> bool" where
  "device_files D view os \<longleftrightarrow>
     (\<forall>d m w. d \<in> D \<longrightarrow> (\<exists>fd w'. os_open os d m w = (fd, w') \<and> 0 \<le> fd \<and> fst (view w) fd = None \<and>
        view w' = ((fst (view w))(fd \<mapsto> (d, 0)), snd (view w)))) \<and>
     (\<forall>fd x w. \<exists>w'. os_flock os fd x w = (0, w') \<and> view w' = view w) \<and>
     (\<forall>fd w. view (os_unlock os fd w) = view w) \<and>
     (\<forall>fd d i w. fst (view w) fd = Some (d, i) \<longrightarrow>
        (\<exists>w'. os_rewind os fd w = (0, w') \<and> view w' = ((fst (view w))(fd \<mapsto> (d, 0)), snd (view w)))) \<and>
     (\<forall>fd d i n w. fst (view w) fd = Some (d, i) \<longrightarrow> d \<in> D \<longrightarrow> 0 < n \<longrightarrow> i + n \<le> 512 \<longrightarrow>
        (\<exists>k w'. 0 < k \<and> k \<le> n \<and> os_read os fd n w = (Inr (window i k (snd (view w) d)), w') \<and>
           view w' = ((fst (view w))(fd \<mapsto> (d, i + k)), snd (view w)))) \<and>
     (\<forall>fd d i bs w. fst (view w) fd = Some (d, i) \<longrightarrow> d \<in> D \<longrightarrow> bs \<noteq> [] \<longrightarrow> i + length bs \<le> 512 \<longrightarrow>
        (\<exists>k w'. 0 < k \<and> k \<le> length bs \<and> os_write os fd bs w = (int k, w') \<and>
           view w' = ((fst (view w))(fd \<mapsto> (d, i + k)), (snd (view w))(d := blit i (take k bs) (snd (view w) d))))) \<and>
     (\<forall>fd w. view (os_close os fd w) = ((fst (view w))(fd := None), snd (view w))) \<and>
     (\<forall>w. view (os_sync os w) = view w)"

lemma device_filesD:
  assumes "device_files D view os"
  shows "d \<in> D \<Longrightarrow> \<exists>fd w'. os_open os d m w = (fd, w') \<and> 0 \<le> fd \<and> fst (view w) fd = None \<and>
      view w' = ((fst (view w))(fd \<mapsto> (d, 0)), snd (view w))"
    and "\<exists>w'. os_flock os fd x w = (0, w') \<and> view w' = view w"
    and "view (os_unlock os fd w) = view w"
    and "fst (view w) fd = Some (d, i) \<Longrightarrow>
      \<exists>w'. os_rewind os fd w = (0, w') \<and> view w' = ((fst (view w))(fd \<mapsto> (d, 0)), snd (view w))"
    and "fst (view w) fd = Some (d, i) \<Longrightarrow> d \<in> D \<Longrightarrow> 0 < n \<Longrightarrow> i + n \<le> 512 \<Longrightarrow>
      \<exists>k w'. 0 < k \<and> k \<le> n \<and> os_read os fd n w = (Inr (window i k (snd (view w) d)), w') \<and>
        view w' = ((fst (view w))(fd \<mapsto> (d, i + k)), snd (view w))"
    and "fst (view w) fd = Some (d, i) \<Longrightarrow> d \<in> D \<Longrightarrow> bs \<noteq> [] \<Longrightarrow> i + length bs \<le> 512 \<Longrightarrow>
      \<exists>k w'. 0 < k \<and> k \<le> length bs \<and> os_write os fd bs w = (int k, w') \<and>
        view w' = ((fst (view w))(fd \<mapsto> (d, i + k)), (snd (view w))(d := blit i (take k bs) (snd (view w) d)))"
    and "view (os_close os fd w) = ((fst (view w))(fd := None), snd (view w))"
    and "view (os_sync os w) = view w"
  using assms unfolding device_files_def by (blast | simp)+

text \<open>The loops transfer everything, however the calls divide it.\<close>

lemma read_from_file:
  assumes os: "device_files D view os" and d: "d \<in> D" "length (snd (view w) d) = 512"
    and "fst (view w) fd = Some (d, length got)" and "got = take (length got) (snd (view w) d)" and "length got < 512"
  shows "\<exists>w'. read_from os fd got w = Some (0, snd (view w) d, w') \<and>
    view w' = ((fst (view w))(fd \<mapsto> (d, 512)), snd (view w))"
  using d(2) assms(4-6)
proof (induction "512 - length got" arbitrary: got w rule: less_induct)
  case less
  let ?f = "snd (view w) d"
  obtain k w' where k: "0 < k" "k \<le> 512 - length got" "os_read os fd (512 - length got) w = (Inr (window (length got) k ?f), w')"
      "view w' = ((fst (view w))(fd \<mapsto> (d, length got + k)), snd (view w))"
    using device_filesD(5) [OF os less.prems(2) d(1), of "512 - length got"] less.prems(4) by auto
  let ?g = "got @ window (length got) k ?f"
  have g: "length ?g = length got + k" "?g = take (length got + k) ?f" "window (length got) k ?f \<noteq> []"
    using less.prems k(1,2) by (auto simp: window_def take_add [of "length got"] simp flip: length_greater_0_conv)
  show ?case
  proof (cases "length ?g < 512")
    case True
    have "\<exists>w''. read_from os fd ?g w' = Some (0, snd (view w') d, w'') \<and>
        view w'' = ((fst (view w'))(fd \<mapsto> (d, 512)), snd (view w'))"
      using less.prems k g True by (intro less.hyps) simp_all
    then show ?thesis using k(3,4) g True by (subst (1) read_from.simps) simp
  next
    case False
    then have "length got + k = 512" "?g = ?f" using g k(2) less.prems by simp_all
    then show ?thesis using k(3,4) g by (subst (1) read_from.simps) simp
  qed
qed

lemma write_from_file:
  assumes os: "device_files D view os" and d: "d \<in> D" "length (snd (view w) d) = 512"
    and "fst (view w) fd = Some (d, i)" and "buf \<noteq> []" and "i + length buf = 512"
  shows "\<exists>w'. write_from os fd buf w = Some (0, w') \<and>
    view w' = ((fst (view w))(fd \<mapsto> (d, 512)), (snd (view w))(d := take i (snd (view w) d) @ buf))"
  using d(2) assms(4-6)
proof (induction "length buf" arbitrary: buf i w rule: less_induct)
  case less
  let ?f = "snd (view w) d"
  obtain k w' where k: "0 < k" "k \<le> length buf" "os_write os fd buf w = (int k, w')"
      "view w' = ((fst (view w))(fd \<mapsto> (d, i + k)), (snd (view w))(d := blit i (take k buf) ?f))"
    using device_filesD(6) [OF os less.prems(2) d(1) less.prems(3)] less.prems(4) by auto
  have b: "take (i + k) (blit i (take k buf) ?f) = take i ?f @ take k buf"
    using less.prems k(2) by (simp add: blit_def overlay_def)
  show ?case
  proof (cases "k < length buf")
    case True
    have "\<exists>w''. write_from os fd (drop k buf) w' = Some (0, w'') \<and>
        view w'' = ((fst (view w'))(fd \<mapsto> (d, 512)), (snd (view w'))(d := take (i + k) (snd (view w') d) @ drop k buf))"
      using less.prems k True by (intro less.hyps) simp_all
    then show ?thesis using k(3,4) b True by (subst (1) write_from.simps) simp
  next
    case False
    then have "blit i (take k buf) ?f = take i ?f @ buf" "i + k = 512"
      using b k(2) less.prems by simp_all
    then show ?thesis using k(3,4) False by (subst (1) write_from.simps) simp
  qed
qed

text \<open>The library between two calls: the two devices and their first 512 bytes.\<close>

definition state_devices :: "('o \<Rightarrow> os_view) \<Rightarrow> 'o os \<Rightarrow> 'o pbstate_vars \<Rightarrow> bool" where
  "state_devices view os s \<longleftrightarrow> device_files {primary_device s, backup_device s} view os \<and> state_ok (ps_state s) \<and>
     length (snd (view (ps_os s)) (primary_device s)) = 512 \<and> length (snd (view (ps_os s)) (backup_device s)) = 512"

abbreviation primary_bytes :: "('o \<Rightarrow> os_view) \<Rightarrow> 'o pbstate_vars \<Rightarrow> u8 list" where
  "primary_bytes view s \<equiv> snd (view (ps_os s)) (primary_device s)"

abbreviation backup_bytes :: "('o \<Rightarrow> os_view) \<Rightarrow> 'o pbstate_vars \<Rightarrow> u8 list" where
  "backup_bytes view s \<equiv> snd (view (ps_os s)) (backup_device s)"

lemma state_devices_cong:
  "state_devices view os s \<Longrightarrow> primary_device t = primary_device s \<Longrightarrow> backup_device t = backup_device s \<Longrightarrow>
   snd (view (ps_os t)) = snd (view (ps_os s)) \<Longrightarrow> state_ok (ps_state t) \<Longrightarrow> state_devices view os t"
  by (simp add: state_devices_def)

lemma verify_state_eq:
  "verify_state st = (if state_valid st then 0 else - EIO, st\<lparr>bs_crc := 0\<rparr>)"
  by (simp add: verify_state_def state_valid_def Let_def)

lemma read_state_device:
  assumes "state_devices view os s" and "d = primary_device s \<or> d = backup_device s" and "fst (view (ps_os s)) fd = Some (d, 0)"
  obtains w where "read_state os fd s = Some (0, s\<lparr>ps_state := dec_state (snd (view (ps_os s)) d), ps_os := w\<rparr>)"
    "view w = ((fst (view (ps_os s)))(fd \<mapsto> (d, 512)), snd (view (ps_os s)))"
proof -
  have l: "length (snd (view (ps_os s)) d) = 512" "length (enc_state (ps_state s)) = 512"
    using assms(1,2) by (auto simp: state_devices_def state.length_enc)
  have "device_files {primary_device s, backup_device s} view os" "d \<in> {primary_device s, backup_device s}"
    using assms(1,2) by (auto simp: state_devices_def)
  from read_from_file [OF this l(1), of fd "[]"] assms(3) obtain w where
    "read_from os fd [] (ps_os s) = Some (0, snd (view (ps_os s)) d, w)"
    "view w = ((fst (view (ps_os s)))(fd \<mapsto> (d, 512)), snd (view (ps_os s)))" by auto
  then show thesis using that l by (simp add: read_state_def)
qed

lemma write_state_device:
  assumes "state_devices view os s" and "d = primary_device s \<or> d = backup_device s" and "fst (view (ps_os s)) fd = Some (d, 0)"
  obtains w where "write_state os fd s = Some (0, s\<lparr>ps_os := w\<rparr>)"
    "view w = ((fst (view (ps_os s)))(fd \<mapsto> (d, 512)), (snd (view (ps_os s)))(d := enc_state (ps_state s)))"
proof -
  have l: "length (snd (view (ps_os s)) d) = 512" "length (enc_state (ps_state s)) = 512"
    using assms(1,2) by (auto simp: state_devices_def state.length_enc)
  then have "enc_state (ps_state s) \<noteq> []" by auto
  have "device_files {primary_device s, backup_device s} view os" "d \<in> {primary_device s, backup_device s}"
    using assms(1,2) by (auto simp: state_devices_def)
  from write_from_file [OF this l(1) assms(3) \<open>enc_state (ps_state s) \<noteq> []\<close>] l(2) obtain w where
    "write_from os fd (enc_state (ps_state s)) (ps_os s) = Some (0, w)"
    "view w = ((fst (view (ps_os s)))(fd \<mapsto> (d, 512)), (snd (view (ps_os s)))(d := enc_state (ps_state s)))" by auto
  then show thesis using that by (simp add: write_state_def)
qed

lemma open_second:
  assumes "device_files D view os" and "d \<in> D" and "view w = (tab(fd \<mapsto> x), F)"
  obtains fd' w' where "os_open os d m w = (fd', w')" "0 \<le> fd'" "fd' \<noteq> fd" "tab fd' = None"
    "view w' = (tab(fd \<mapsto> x, fd' \<mapsto> (d, 0)), F)"
proof -
  obtain fd' w' where o: "os_open os d m w = (fd', w')" "0 \<le> fd'" "(tab(fd \<mapsto> x)) fd' = None"
      "view w' = (tab(fd \<mapsto> x, fd' \<mapsto> (d, 0)), F)"
    using device_filesD(1) [OF assms(1,2), of m w] assms(3) by auto
  then have "fd' \<noteq> fd" by auto
  then have "tab fd' = None" using o(3) by simp
  then show thesis using that o \<open>fd' \<noteq> fd\<close> by blast
qed

lemma open_and_load_device:
  assumes s: "state_devices view os s" and v: "view (ps_os s) = (tab, F)"
    and P: "P = dec_state (F (primary_device s))" and B: "B = dec_state (F (backup_device s))"
    and ok: "state_valid P \<or> state_valid B"
  obtains fd s' where "open_and_load_state os wr s = Some (fd, s')" "0 \<le> fd" "tab fd = None"
    "view (ps_os s') = (tab(fd \<mapsto> (primary_device s, 512)), F)" "primary_device s' = primary_device s"
    "backup_device s' = backup_device s" "ps_state s' = (if state_valid P then P else B)\<lparr>bs_crc := 0\<rparr>"
proof -
  have os: "device_files {primary_device s, backup_device s} view os" using s by (simp add: state_devices_def)
  note os_D = device_filesD [OF os]
  obtain fd w1 where 1: "os_open os (primary_device s) (if wr then RDWR_DSYNC else RDONLY) (ps_os s) = (fd, w1)" "0 \<le> fd"
      "tab fd = None" "view w1 = (tab(fd \<mapsto> (primary_device s, 0)), F)"
    using os_D(1) [of "primary_device s" "if wr then RDWR_DSYNC else RDONLY" "ps_os s"] v by auto
  obtain w2 where 2: "os_flock os fd wr w1 = (0, w2)" "view w2 = view w1" using os_D(2) by blast
  have 3: "lock_device os fd wr w1 = Some (0, w2)" using 2 by (subst lock_device.simps) simp
  let ?s2 = "s\<lparr>ps_os := w2\<rparr>"
  have d2: "state_devices view os ?s2" using state_devices_cong [OF s, of ?s2] s 1(4) 2(2) v by (simp add: state_devices_def)
  have fd2: "fst (view (ps_os ?s2)) fd = Some (primary_device s, 0)" using 1(4) 2(2) by simp
  obtain w3 where 4: "read_state os fd ?s2 = Some (0, s\<lparr>ps_state := P, ps_os := w3\<rparr>)"
      "view w3 = (tab(fd \<mapsto> (primary_device s, 512)), F)"
    using read_state_device [OF d2 _ fd2] 1(4) 2(2) P by auto
  have P_ok: "state_ok P" "state_ok B" using s v P B by (simp_all add: state_devices_def state.wf_dec)
  show thesis
  proof (cases "state_valid P")
    case True
    then have "open_and_load_state os wr s = Some (fd, s\<lparr>ps_state := P\<lparr>bs_crc := 0\<rparr>, ps_os := w3\<rparr>)"
      using 1(1,2) 3 4(1) by (simp add: open_and_load_state_def verify_state_eq)
    then show thesis using that [OF _ 1(2,3)] 4(2) True by simp
  next
    case False
    let ?s3 = "s\<lparr>ps_state := P\<lparr>bs_crc := 0\<rparr>, ps_os := w3\<rparr>"
    obtain bfd w4 where 5: "os_open os (backup_device s) (if wr then RDWR else RDONLY) w3 = (bfd, w4)" "0 \<le> bfd"
        "bfd \<noteq> fd" "tab bfd = None" "view w4 = (tab(fd \<mapsto> (primary_device s, 512), bfd \<mapsto> (backup_device s, 0)), F)"
      by (rule open_second [OF os _ 4(2), of "backup_device s"]) simp_all
    let ?s4 = "?s3\<lparr>ps_os := w4\<rparr>"
    have d4: "state_devices view os ?s4" using state_devices_cong [OF s, of ?s4] 5(5) v P_ok(1) by simp
    have fd4: "fst (view (ps_os ?s4)) bfd = Some (backup_device s, 0)" using 5(5) by simp
    obtain w5 where 6: "read_state os bfd ?s4 = Some (0, s\<lparr>ps_state := B, ps_os := w5\<rparr>)"
        "view w5 = (tab(fd \<mapsto> (primary_device s, 512), bfd \<mapsto> (backup_device s, 512)), F)"
      using read_state_device [OF d4 _ fd4] 5(5) B by auto
    have "open_and_load_state os wr s = Some (fd, close_fd os bfd (s\<lparr>ps_os := w5, ps_state := B\<lparr>bs_crc := 0\<rparr>\<rparr>))"
      using 1(1,2) 3 4(1) 5(1,2) 6(1) False ok by (simp add: open_and_load_state_def verify_state_eq)
    moreover have "tab(fd \<mapsto> (primary_device s, 512), bfd := None) = tab(fd \<mapsto> (primary_device s, 512))"
      using 5(3,4) by auto
    ultimately show thesis using that [OF _ 1(2,3)] os_D(7) [of bfd w5] 6(2) False by (simp add: close_fd_def)
  qed
qed

lemma close_and_save_device:
  assumes s: "state_devices view os s" and v: "view (ps_os s) = (tab(fd \<mapsto> (primary_device s, i)), F)" and "tab fd = None"
  obtains s' where "close_and_save_state os fd True s = Some (0, s')"
    "view (ps_os s') = (tab, F(primary_device s := enc_state (state_seal (ps_state s)), backup_device s := enc_state (state_seal (ps_state s))))"
    "primary_device s' = primary_device s" "backup_device s' = backup_device s" "ps_state s' = state_seal (ps_state s)"
proof -
  have os: "device_files {primary_device s, backup_device s} view os" using s by (simp add: state_devices_def)
  note os_D = device_filesD [OF os]
  let ?st = "state_seal (ps_state s)"
  obtain w1 where 1: "os_rewind os fd (ps_os s) = (0, w1)" "view w1 = (tab(fd \<mapsto> (primary_device s, 0)), F)"
    using os_D(4) [of "ps_os s" fd "primary_device s" i] v by auto
  let ?s1 = "s\<lparr>ps_os := w1, ps_state := ?st\<rparr>"
  have d1: "state_devices view os ?s1" using state_devices_cong [OF s, of ?s1] s 1(2) v by (simp add: state_devices_def)
  have fd1: "fst (view (ps_os ?s1)) fd = Some (primary_device s, 0)" using 1(2) by simp
  obtain w2 where 2: "write_state os fd ?s1 = Some (0, ?s1\<lparr>ps_os := w2\<rparr>)"
      "view w2 = (tab(fd \<mapsto> (primary_device s, 512)), F(primary_device s := enc_state ?st))"
    using write_state_device [OF d1 _ fd1] 1(2) by auto
  obtain bfd w3 where 3: "os_open os (backup_device s) WRONLY_DSYNC w2 = (bfd, w3)" "0 \<le> bfd" "bfd \<noteq> fd" "tab bfd = None"
      "view w3 = (tab(fd \<mapsto> (primary_device s, 512), bfd \<mapsto> (backup_device s, 0)), F(primary_device s := enc_state ?st))"
    using open_second [OF os _ 2(2), of "backup_device s" WRONLY_DSYNC] by blast
  let ?s3 = "?s1\<lparr>ps_os := w3\<rparr>"
  have "length (enc_state ?st) = 512" using s by (simp add: state_devices_def state.length_enc)
  then have d3: "state_devices view os ?s3" using s 3(5) v by (simp add: state_devices_def)
  have fd3: "fst (view (ps_os ?s3)) bfd = Some (backup_device s, 0)" using 3(5) by simp
  obtain w4 where 4: "write_state os bfd ?s3 = Some (0, ?s1\<lparr>ps_os := w4\<rparr>)"
      "view w4 = (tab(fd \<mapsto> (primary_device s, 512), bfd \<mapsto> (backup_device s, 512)),
         F(primary_device s := enc_state ?st, backup_device s := enc_state ?st))"
    using write_state_device [OF d3 _ fd3] 3(5) by auto
  have "close_and_save_state os fd True s = Some (0, release_and_sync os fd (close_fd os bfd (?s1\<lparr>ps_os := w4\<rparr>)))"
    using 1(1) 2(1) 3(1,2) 4(1) by (simp add: close_and_save_state_def state_seal_def)
  moreover have "tab(fd \<mapsto> (primary_device s, 512), bfd := None, fd := None) = tab"
    using 3(3,4) assms(3) by auto
  ultimately show thesis
    using that os_D(3,7,8) 4(2) 3(3) by (simp add: release_and_sync_def release_def close_fd_def)
qed

lemma change_device:
  assumes s: "state_devices view os s" and P: "P = dec_state (primary_bytes view s)" and B: "B = dec_state (backup_bytes view s)"
    and ok: "state_valid P \<or> state_valid B" and f: "f ((if state_valid P then P else B)\<lparr>bs_crc := 0\<rparr>) = Inr st" "state_ok st"
  obtains s' where "pbstate_change os f s = Some (0, s')" "state_devices view os s'"
    "fst (view (ps_os s')) = fst (view (ps_os s))" "primary_device s' = primary_device s" "backup_device s' = backup_device s"
    "primary_bytes view s' = enc_state (state_seal st)" "backup_bytes view s' = enc_state (state_seal st)"
    "\<forall>d. d \<noteq> primary_device s \<longrightarrow> d \<noteq> backup_device s \<longrightarrow> snd (view (ps_os s')) d = snd (view (ps_os s)) d"
proof -
  obtain tab F where v: "view (ps_os s) = (tab, F)" by fastforce
  obtain fd s1 where 1: "open_and_load_state os True s = Some (fd, s1)" "0 \<le> fd" "tab fd = None"
      "view (ps_os s1) = (tab(fd \<mapsto> (primary_device s, 512)), F)" "primary_device s1 = primary_device s"
      "backup_device s1 = backup_device s" "ps_state s1 = (if state_valid P then P else B)\<lparr>bs_crc := 0\<rparr>"
    by (rule open_and_load_device [OF s v _ _ ok]) (simp_all add: P B v)
  let ?s1 = "s1\<lparr>ps_state := st\<rparr>"
  have d1: "state_devices view os ?s1" using s 1(4-6) v f(2) by (simp add: state_devices_def)
  have v1: "view (ps_os ?s1) = (tab(fd \<mapsto> (primary_device ?s1, 512)), F)" using 1(4,5) by simp
  obtain s' where 2: "close_and_save_state os fd True ?s1 = Some (0, s')"
      "view (ps_os s') = (tab, F(primary_device s := enc_state (state_seal st), backup_device s := enc_state (state_seal st)))"
      "primary_device s' = primary_device s" "backup_device s' = backup_device s" "ps_state s' = state_seal st"
    by (rule close_and_save_device [OF d1 v1 1(3)]) (simp add: 1(5,6))
  have "length (enc_state (state_seal st)) = 512" using f(2) by (simp add: state.length_enc)
  then have "state_devices view os s'" using s 2(2-5) f(2) by (simp add: state_devices_def)
  moreover have "pbstate_change os f s = Some (0, s')" using 1(1,2,7) 2(1) f(1) by (simp add: pbstate_change_def)
  ultimately show thesis using that 2(2-4) v by simp
qed

lemma change_stores:
  assumes "state_devices view os s" and "P = dec_state (primary_bytes view s)" and "B = dec_state (backup_bytes view s)"
    and "state_valid P \<or> state_valid B" and "f ((if state_valid P then P else B)\<lparr>bs_crc := 0\<rparr>) = Inr st" and "state_ok st"
  shows "\<exists>s'. pbstate_change os f s = Some (0, s') \<and> state_devices view os s' \<and> primary_bytes view s' = enc_state (state_seal st) \<and>
    backup_bytes view s' = enc_state (state_seal st)"
  by (rule change_device [where f = f, OF assms]) simp

subsection \<open>From the tool to the next start\<close>

fun sys_code :: "ab_sys \<Rightarrow> int" where
  "sys_code Sys_A = PBSTATE_SYSTEM_A"
| "sys_code Sys_B = PBSTATE_SYSTEM_B"

fun sys_flags :: "ab_sys \<Rightarrow> u32 \<times> u32" where
  "sys_flags Sys_A = (PB_STATE_A_ENABLED, PB_STATE_A_VERIFIED)"
| "sys_flags Sys_B = (PB_STATE_B_ENABLED, PB_STATE_B_VERIFIED)"

lemma switch_is_change:
  "pbstate_switch_system os (sys_code x) n u =
     pbstate_change os (\<lambda>state. Inr (switched (fst (sys_flags x)) (snd (sys_flags x)) n state)) u"
  by (cases x) (simp_all add: pbstate_switch_system_def)

lemma confirm_is_change:
  "pbstate_set_system_verified os (sys_code x) u =
     pbstate_change os (\<lambda>state. Inr (state\<lparr>verified := verified state OR snd (sys_flags x), remaining_boot_attempts := 0\<rparr>)) u"
  by (cases x) (simp_all add: pbstate_set_system_verified_def)

lemma abs_switched:
  "0 < n \<Longrightarrow> abs_state (switched (fst (sys_flags x)) (snd (sys_flags x)) n st) =
     \<lparr>active = Some x, is_verified = (is_verified (abs_state st))(x := False), attempts = unat n\<rparr>"
  by (cases x) (auto simp: switched_def abs_state_def bit_and_iff bit_not_iff Let_def fun_eq_iff split: ab_sys.split)

text \<open>The devices that the tool works on are the two state partitions of the boot loader.\<close>

definition same_partitions ::
  "('o \<Rightarrow> os_view) \<Rightarrow> 'o pbstate_vars \<Rightarrow> ('w \<Rightarrow> nat \<Rightarrow> u8) \<Rightarrow> ('w, 'z) bio_scheme \<Rightarrow> int \<Rightarrow> int \<Rightarrow> bool" where
  "same_partitions view u content s p b \<longleftrightarrow>
     state_bytes content s p = primary_bytes view u \<and> state_bytes content s b = backup_bytes view u"

lemma stored_by_tool:
  assumes "ab_setup cfg content s p b" and "same_partitions view u content s p b" and "state_ok st" and "bs_magic st = PB_STATE_MAGIC"
    and "primary_bytes view u = enc_state (state_seal st)" and "backup_bytes view u = enc_state (state_seal st)"
  shows "ab_stored cfg content p b st s"
  using assms by (simp add: ab_stored_def same_partitions_def state.dec_enc)

text \<open>
  C9: an update that is tried out and never confirmed is given up. Let one copy of the record on the
  two devices be intact and the other system be verified. \<open>pbstate_switch_system\<close> with \<open>n > 0\<close> attempts
  succeeds, even when reads and writes are short or one copy is damaged, and leaves a record with
  which the boot loader chooses the new system at the next \<open>n\<close> starts and the other system at every
  start after these.
\<close>

theorem trial_update_falls_back:
  assumes "state_devices view os u" and "P = dec_state (primary_bytes view u)" and "B = dec_state (backup_bytes view u)"
    and "state_valid P \<or> state_valid B" and "st = (if state_valid P then P else B)"
    and "is_verified (abs_state st) (other_sys x)" and "0 < n"
  shows "\<exists>u'. pbstate_switch_system os (sys_code x) n u = Some (0, u') \<and> state_devices view os u' \<and>
    (\<forall>cfg content s p b k. ab_setup cfg content s p b \<longrightarrow> same_partitions view u' content s p b \<longrightarrow>
       fst (ab_power_cycle cfg (((\<lambda>s. snd (ab_power_cycle cfg s)) ^^ k) s)) =
         bio_get_part_by_uu (Some (sys_uu cfg (if k < unat n then x else other_sys x))) s)"
proof -
  let ?st = "switched (fst (sys_flags x)) (snd (sys_flags x)) n (st\<lparr>bs_crc := 0\<rparr>)"
  have "state_ok P" "state_ok B" using assms(1-3) by (simp_all add: state_devices_def state.wf_dec)
  then have ok: "state_ok ?st" "bs_magic ?st = PB_STATE_MAGIC"
    using assms(4,5) by (auto simp: switched_def state_ok_def state_valid_def Let_def)
  have "other_sys x \<noteq> x" by (cases x) simp_all
  then have a: "active (abs_state ?st) = Some x" "\<not> is_verified (abs_state ?st) x" "is_verified (abs_state ?st) (other_sys x)"
      "attempts (abs_state ?st) = unat n"
    using assms(6) by (simp_all add: abs_switched [OF assms(7)])
  obtain u' where u': "pbstate_switch_system os (sys_code x) n u = Some (0, u')" "primary_bytes view u' = enc_state (state_seal ?st)"
      "backup_bytes view u' = enc_state (state_seal ?st)" "state_devices view os u'"
    using change_stores [OF assms(1-4), of "\<lambda>state. Inr (switched (fst (sys_flags x)) (snd (sys_flags x)) n state)" ?st] ok(1)
    by (auto simp: switch_is_change assms(5))
  have "fst (ab_power_cycle cfg (((\<lambda>s. snd (ab_power_cycle cfg s)) ^^ k) s)) =
      bio_get_part_by_uu (Some (sys_uu cfg (if k < unat n then x else other_sys x))) s"
    if "ab_setup cfg content s p b" "same_partitions view u' content s p b" for cfg content s p b k
    using rollback_cycles [OF stored_by_tool [OF that ok u'(2,3)], of x "unat n" k] a by simp
  then show ?thesis using u'(1,4) by blast
qed

text \<open>
  C10: an update that the running system confirms stays. When the active system calls
  \<open>pbstate_set_system_verified\<close> for itself, the boot loader chooses this system at every later start,
  however many attempts were left.
\<close>

theorem confirmed_update_stays:
  assumes "state_devices view os u" and "P = dec_state (primary_bytes view u)" and "B = dec_state (backup_bytes view u)"
    and "state_valid P \<or> state_valid B" and "st = (if state_valid P then P else B)" and "active (abs_state st) = Some x"
  shows "\<exists>u'. pbstate_set_system_verified os (sys_code x) u = Some (0, u') \<and> state_devices view os u' \<and>
    (\<forall>cfg content s p b k. ab_setup cfg content s p b \<longrightarrow> same_partitions view u' content s p b \<longrightarrow>
       fst (ab_power_cycle cfg (((\<lambda>s. snd (ab_power_cycle cfg s)) ^^ k) s)) = bio_get_part_by_uu (Some (sys_uu cfg x)) s)"
proof -
  let ?st = "st\<lparr>bs_crc := 0, verified := verified st OR snd (sys_flags x), remaining_boot_attempts := 0\<rparr>"
  have "state_ok P" "state_ok B" using assms(1-3) by (simp_all add: state_devices_def state.wf_dec)
  then have "state_ok st" "state_valid st" using assms(4,5) by auto
  then have ok: "state_ok ?st" "bs_magic ?st = PB_STATE_MAGIC" by (simp_all add: state_ok_def state_valid_def)
  have "active (abs_state ?st) = active (abs_state st)" by (simp add: abs_state_def)
  then have abs: "active (abs_state ?st) = Some x" using assms(6) by (rule trans)
  have abs': "is_verified (abs_state ?st) x" by (cases x) (simp_all add: abs_state_def bit_or_iff)
  obtain u' where u': "pbstate_set_system_verified os (sys_code x) u = Some (0, u')" "primary_bytes view u' = enc_state (state_seal ?st)"
      "backup_bytes view u' = enc_state (state_seal ?st)" "state_devices view os u'"
    using change_stores [OF assms(1-4),
        of "\<lambda>state. Inr (state\<lparr>verified := verified state OR snd (sys_flags x), remaining_boot_attempts := 0\<rparr>)" ?st] ok(1)
    by (auto simp: confirm_is_change assms(5))
  have "fst (ab_power_cycle cfg (((\<lambda>s. snd (ab_power_cycle cfg s)) ^^ k) s)) = bio_get_part_by_uu (Some (sys_uu cfg x)) s"
    if "ab_setup cfg content s p b" "same_partitions view u' content s p b" for cfg content s p b k
    using verified_cycles [OF stored_by_tool [OF that ok u'(2,3)] abs abs'] .
  then show ?thesis using u'(1,4) by blast
qed

subsection \<open>Files in memory\<close>

text \<open>
  The table of open files is a list, and every call transfers at most 100 bytes. The primary device
  is damaged; the backup holds a record with system A active, one attempt left, and system B
  verified.
\<close>

type_synonym ram_files = "(string \<times> nat) option list \<times> (string \<Rightarrow> u8 list)"

definition ram_view :: "ram_files \<Rightarrow> os_view" where
  "ram_view w = (\<lambda>fd. if 0 \<le> fd \<and> nat fd < length (fst w) then fst w ! nat fd else None, snd w)"

definition ram_os :: "ram_files os" where
  "ram_os = \<lparr>os_open = (\<lambda>d m w. (int (length (fst w)), (fst w @ [Some (d, 0)], snd w))),
     os_flock = (\<lambda>fd x w. (0, w)), os_unlock = (\<lambda>fd w. w),
     os_rewind = (\<lambda>fd w. case fst (ram_view w) fd of None \<Rightarrow> (-9, w) | Some (d, i) \<Rightarrow> (0, ((fst w)[nat fd := Some (d, 0)], snd w))),
     os_read = (\<lambda>fd n w. case fst (ram_view w) fd of None \<Rightarrow> (Inl (-9), w)
       | Some (d, i) \<Rightarrow> (Inr (window i (min 100 n) (snd w d)), ((fst w)[nat fd := Some (d, i + min 100 n)], snd w))),
     os_write = (\<lambda>fd bs w. case fst (ram_view w) fd of None \<Rightarrow> (-9, w)
       | Some (d, i) \<Rightarrow> (int (min 100 (length bs)), ((fst w)[nat fd := Some (d, i + min 100 (length bs))],
            (snd w)(d := blit i (take (min 100 (length bs)) bs) (snd w d))))),
     os_close = (\<lambda>fd w. if 0 \<le> fd then ((fst w)[nat fd := None], snd w) else w), os_sync = (\<lambda>w. w)\<rparr>"

lemma ram_view_update:
  assumes "fst (ram_view w) fd = Some x"
  shows "ram_view ((fst w)[nat fd := Some y], F) = ((fst (ram_view w))(fd \<mapsto> y), F)"
  using assms by (auto simp: ram_view_def fun_eq_iff nth_list_update split: if_splits)

lemma ram_device_files: "device_files D ram_view ram_os"
proof -
  have op: "ram_view (l @ [Some (d, 0)], F) = ((fst (ram_view (l, F)))(int (length l) \<mapsto> (d, 0)), F)" for l d F
    by (auto simp: ram_view_def fun_eq_iff nth_append)
  have cl: "ram_view ((fst w)[nat fd := None], snd w) = ((fst (ram_view w))(fd := None), snd (ram_view w))" if "0 \<le> fd" for fd w
    using that by (auto simp: ram_view_def fun_eq_iff nth_list_update)
  have cl': "fst (ram_view w) fd = None" if "\<not> 0 \<le> fd" for fd w using that by (simp add: ram_view_def)
  have sn: "snd (ram_view w) = snd w" for w by (simp add: ram_view_def)
  have fresh: "fst (ram_view (l, F)) (int (length l)) = None" for l F by (simp add: ram_view_def)
  have pair: "ram_view (l, F) = (fst (ram_view (l, F)), F)" for l F by (simp add: ram_view_def)
  show ?thesis
    unfolding device_files_def
    by (intro conjI allI impI)
       (auto simp: ram_os_def ram_view_update op cl cl' fresh sn fun_upd_idem intro: exI [of _ "min 100 _"] pair)
qed

definition demo_tool :: "ram_files pbstate_vars" where
  "demo_tool = \<lparr>ps_state = pb_boot_state_zero, primary_device = ''/dev/p'', backup_device = ''/dev/b'',
     ps_os = ([], (\<lambda>_. replicate 512 0)(''/dev/b'' := enc_state (state_seal demo_record)))\<rparr>"

lemma demo_tool_devices: "state_devices ram_view ram_os demo_tool"
  by (simp add: state_devices_def demo_tool_def ram_view_def ram_device_files state.length_enc)

lemma demo_tool_copies:
  "dec_state (backup_bytes ram_view demo_tool) = state_seal demo_record" "\<not> state_valid (dec_state (primary_bytes ram_view demo_tool))"
proof -
  show "dec_state (backup_bytes ram_view demo_tool) = state_seal demo_record"
    by (simp add: demo_tool_def ram_view_def state.dec_enc)
  have "bs_magic (dec_state (replicate 512 0)) = 0" by (simp add: dec_state_def le_word_def window_def numeral_eq_Suc)
  then show "\<not> state_valid (dec_state (primary_bytes ram_view demo_tool))"
    by (simp add: demo_tool_def ram_view_def state_valid_def PB_STATE_MAGIC_def)
qed

text \<open>The device that is started with the partitions that the tool has left.\<close>

definition demo_next :: "ram_files pbstate_vars \<Rightarrow> (nat \<Rightarrow> u8) ab" where
  "demo_next u = demo_ab\<lparr>world := (\<lambda>i. if i < 512 then primary_bytes ram_view u ! i else backup_bytes ram_view u ! (i - 512))\<rparr>"

lemma demo_next_device:
  assumes "state_devices ram_view ram_os u"
  shows "ab_setup demo_ab_cfg id (demo_next u) 0 1" and "same_partitions ram_view u id (demo_next u) 0 1"
    and "bio_get_part_by_uu uu (demo_next u) = bio_get_part_by_uu uu demo_ab"
proof -
  have g: "geometry (demo_next u) = geometry demo_ab" by (simp add: demo_next_def)
  show "ab_setup demo_ab_cfg id (demo_next u) 0 1" using demo_setup ab_setup_cong [OF g] by simp
  show "bio_get_part_by_uu uu (demo_next u) = bio_get_part_by_uu uu demo_ab" using bio_get_part_by_uu_cong [OF g] .
  have l: "length (primary_bytes ram_view u) = 512" "length (backup_bytes ram_view u) = 512"
    using assms by (simp_all add: state_devices_def)
  then show "same_partitions ram_view u id (demo_next u) 0 1"
    by (auto simp: same_partitions_def dev_content_def demo_next_def intro!: nth_equalityI)
qed

lemma demo_record_abs:
  "active (abs_state demo_record) = Some Sys_A" "is_verified (abs_state demo_record) (other_sys Sys_A)"
  by (simp_all add: abs_state_def demo_record_def)

theorem trial_update_falls_back_witness:
  "\<exists>u'. pbstate_switch_system ram_os 1 2 demo_tool = Some (0, u') \<and>
     (\<forall>k. fst (ab_power_cycle demo_ab_cfg (((\<lambda>s. snd (ab_power_cycle demo_ab_cfg s)) ^^ k) (demo_next u'))) = (if k < 2 then 2 else 3))"
proof -
  obtain u' where u': "pbstate_switch_system ram_os (sys_code Sys_A) 2 demo_tool = Some (0, u')" "state_devices ram_view ram_os u'"
    "\<forall>cfg content s p b k. ab_setup cfg content s p b \<longrightarrow> same_partitions ram_view u' content s p b \<longrightarrow>
       fst (ab_power_cycle cfg (((\<lambda>s. snd (ab_power_cycle cfg s)) ^^ k) (s :: (nat \<Rightarrow> u8) ab))) =
         bio_get_part_by_uu (Some (sys_uu cfg (if k < unat (2 :: u32) then Sys_A else other_sys Sys_A))) s"
    using trial_update_falls_back [OF demo_tool_devices refl refl _ refl, of Sys_A 2] demo_tool_copies demo_record_abs by auto
  note d = demo_next_device [OF u'(2)]
  have "fst (ab_power_cycle demo_ab_cfg (((\<lambda>s. snd (ab_power_cycle demo_ab_cfg s)) ^^ k) (demo_next u'))) = (if k < 2 then 2 else 3)" for k
    using u'(3) d by (simp add: demo_ab_cfg_def)
  then show ?thesis using u'(1) by auto
qed

theorem confirmed_update_stays_witness:
  "\<exists>u'. pbstate_set_system_verified ram_os 1 demo_tool = Some (0, u') \<and>
     (\<forall>k. fst (ab_power_cycle demo_ab_cfg (((\<lambda>s. snd (ab_power_cycle demo_ab_cfg s)) ^^ k) (demo_next u'))) = 2)"
proof -
  obtain u' where u': "pbstate_set_system_verified ram_os (sys_code Sys_A) demo_tool = Some (0, u')" "state_devices ram_view ram_os u'"
    "\<forall>cfg content s p b k. ab_setup cfg content s p b \<longrightarrow> same_partitions ram_view u' content s p b \<longrightarrow>
       fst (ab_power_cycle cfg (((\<lambda>s. snd (ab_power_cycle cfg s)) ^^ k) (s :: (nat \<Rightarrow> u8) ab))) =
         bio_get_part_by_uu (Some (sys_uu cfg Sys_A)) s"
    using confirmed_update_stays [OF demo_tool_devices refl refl _ refl, of Sys_A] demo_tool_copies demo_record_abs by auto
  then show ?thesis using demo_next_device [OF u'(2)] by (auto simp: demo_ab_cfg_def)
qed

end
