(* ===== verification/Spec2Isabelle.thy ===== *)
theory Spec2Isabelle
  imports Gpt_Table Host_Device Pbstate
begin

text \<open>
  Verification of Punchboot, a secure boot loader for embedded systems: the boot loader under
  \<open>src/src\<close> and \<open>src/include\<close>, the host library under \<open>src/tools/punchboot\<close> and the tool library
  \<open>src/tools/pbstate\<close>. File names
  below are relative to \<open>src/\<close>.

  \<^bold>\<open>The program.\<close> At power-up the boot loader registers its storage, reads the partition table,
  chooses one of two systems by the A/B boot state, loads its image, checks the signature of the
  header and the digest of the payload and jumps to it. If no image can be booted, or the board
  asks for it, it enters the command mode, in which a host can write partitions, install partition
  tables, change the life cycle of the device or boot an image over the link. On a locked device
  the host must first authenticate with a signed token.

  \<^bold>\<open>The model.\<close> The code is modelled for an LP64 little-endian target. Integers keep their width
  (\<open>u8\<close>, \<open>u16\<close>, \<open>u32\<close>, \<open>u64\<close> are words and wrap), except for the C type \<open>int\<close>, which holds results
  and device numbers and is modelled as \<open>int\<close>. A result is \<open>PB_OK\<close> or a negated member of
  \<open>pb_errors\<close>. Buffers are lists of bytes, packed structs are records with an encoder and a decoder.
  The static variables of the C files form one extensible record that grows from component to
  component: \<open>machine\<close> (the world and the memory), \<open>bio\<close>, \<open>fuse\<close>, \<open>crypto\<close>, \<open>ab\<close>, \<open>boot_vars\<close>, \<open>gpt\<close>,
  \<open>devid\<close>, \<open>cm_vars\<close>. An operation is a function on this record; it works on every extension of the
  record that its component needs. Drivers act on the type \<open>'w\<close> of the world, about which nothing
  is assumed; the pointers to configurations and callbacks of a board are arguments. Undefined
  behaviour (a null pointer, an access past an array, a division by zero) and a loop that does not
  end are the value \<open>None\<close> where the code can run into them. Log output, timestamps and the hardware
  watchdog, apart from its kick in the command mode, are left out.

  \<^bold>\<open>Theories.\<close>
  \<^item> \<open>Pb_Prelude\<close>: integer types, result codes (\<open>include/pb/errors.h\<close>), byte lists with \<open>window\<close>,
    \<open>overlay\<close> and \<open>blit\<close>, little-endian numbers, and the locale \<open>codec\<close>, the contract between an
    encoder and a decoder of a fixed size, which is interpreted for every packed struct.
  \<^item> \<open>Crc\<close>: \<open>src/lib/crc.c\<close>; the table driven loop is the bitwise shift register. The locale
    \<open>checksummed\<close> is the contract of a record that carries its checksum.
  \<^item> \<open>Libc\<close>, \<open>Cstring\<close>, \<open>Printf\<close>: \<open>src/lib/libc\<close>, memory and string routines on byte lists and on the
    memory, \<open>snprintf\<close>, \<open>strtoul\<close>, and the text form of UUIDs (\<open>src/lib/uuid/parse.c\<close>, \<open>unparse.c\<close>).
  \<^item> \<open>Uuid\<close>: \<open>src/lib/uuid\<close>; packing, comparison, GUIDs. \<open>Device_Uuid\<close>: \<open>src/device_uuid.c\<close> and
    \<open>src/lib/uuid/uuid3.c\<close>, the identity of the device, computed once.
  \<^item> \<open>Bio\<close>: \<open>src/bio.c\<close>; the invariant of the device pool over every sequence of operations, lookup,
    the range check, and what reads and writes do to a medium.
  \<^item> \<open>Fuse\<close>: \<open>src/drivers/fuse/test_fuse_bio.c\<close>; write-once bits that survive a restart.
  \<^item> \<open>Crypto\<close>: \<open>src/crypto.c\<close>; the driver tables and a hash session.
  \<^item> \<open>Rot\<close>: \<open>src/rot.c\<close> and the key revocation of \<open>src/plat/qemu\<close>; the locale \<open>revocation\<close> is the
    contract of the platform. \<open>Slc\<close>: \<open>src/slc.c\<close> and \<open>src/plat/qemu/slc_helpers.c\<close>; the locale
    \<open>life_cycle\<close> is the contract of a life cycle that only moves forward.
  \<^item> \<open>Bpak\<close>: \<open>src/lib/bpak.c\<close>, \<open>include/bpak\<close>; the image header, its metadata and its parts.
  \<^item> \<open>Image\<close>: \<open>src/boot/image_helpers.c\<close>; header authentication, placement of the parts, loading and
    hashing with its termination, the check of the payload.
  \<^item> \<open>Ab_State\<close>: \<open>src/boot/ab_state.c\<close>; the choice of the system as a refinement of an abstract
    choice, the number of attempts before the other system is booted, commits that can lose power at
    any write, recovery of the two copies.
  \<^item> \<open>Pbstate\<close>: \<open>tools/pbstate/src/pbstate.c\<close>, the library by which the running system changes this record;
    what the boot loader does after an update was tried out or confirmed.
  \<^item> \<open>Boot\<close>: \<open>src/boot/boot.c\<close>; the whole flow up to the jump.
  \<^item> \<open>Gpt\<close>, \<open>Gpt_Table\<close>: \<open>src/drivers/partition/gpt.c\<close>, \<open>static.c\<close>; the tables on disk, their recovery from
    one good copy, and the partitions that an installed table leads to after the next start.
  \<^item> \<open>Wire\<close>: \<open>include/pb-tools/wire.h\<close>, \<open>src/wire.c\<close>. \<open>Cm\<close>: \<open>src/cm/cm_main.c\<close>, all handlers and loops.
    \<open>Cm_Auth\<close>: the command loop as a step relation, the guard of a locked device, tokens, result codes.
  \<^item> \<open>Host\<close>: \<open>tools/punchboot/api_*.c\<close>, \<open>socket.c\<close>, \<open>error.c\<close>. \<open>Host_Device\<close>: host and device over a
    reliable link.

  \<^bold>\<open>Contracts.\<close> What the theorems assume about code that is not part of the repository, or that is
  hardware, is stated by named predicates: \<open>medium_read\<close>, \<open>medium_write\<close> and \<open>medium_dev\<close> (a block driver
  reads and writes the bytes of a medium), \<open>hash_drivers\<close> and \<open>dsa_drivers\<close> (a hash driver computes a
  function, a signature driver decides a relation), \<open>rot_status_pure\<close> (asking for the status of a key
  changes nothing), \<open>transport_keeps\<close>, \<open>drivers_keep\<close>, \<open>board_keeps\<close> (what drivers and callbacks leave
  alone), \<open>host_link\<close> and \<open>device_link\<close> (the two ends of the link), \<open>device_files\<close> (the calls of the operating
  system that \<open>pbstate\<close> makes). Each is shown to hold for a concrete
  instance where a theorem is applied to a concrete input. The key store that the build generates
  is a list of keys, an argument.

  \<^bold>\<open>Loops.\<close> No fuel is used. Loops over a buffer, a table or the remaining number of bytes are
  recursive functions with a termination proof; a loop that waits for hardware, or that the code
  can enter with a chunk size of zero, is a \<open>partial_function\<close> in the option monad, and where a theorem
  says that the code returns it proves that the value is not \<open>None\<close>.

  \<^bold>\<open>Not modelled.\<close> Register level code has no specification in the repository to check it against
  and acts on hardware whose behaviour would have to be invented: \<open>src/arch\<close> (assembly, exception
  vectors, caches), \<open>src/plat\<close> apart from the fuse based helpers of \<open>src/plat/qemu\<close>, \<open>src/board\<close> apart
  from the key map of \<open>src/board/test\<close>, and the drivers below \<open>src/drivers\<close> for crypto engines, GPIO, flash,
  MMC, timers, UARTs, USB, virtio and watchdogs. They reach the model as drivers on the world.
  \<open>src/lib/fdt\<close>, \<open>src/lib/xlat_tables_v2\<close>, \<open>src/drivers/fs\<close> (littlefs) and the mbedtls glue are copies of,
  or bindings to, third-party code. \<open>src/boot/linux.c\<close> and \<open>src/boot/armv7m_baremetal.c\<close> patch a device tree
  and jump; \<open>boot\<close> calls them as callbacks. \<open>src/lib/der_helpers.c\<close> is called by the drivers of crypto
  engines only. \<open>src/main.c\<close>, \<open>src/console.c\<close>, \<open>src/delay.c\<close>, \<open>src/timestamp.c\<close> and \<open>src/self_test.c\<close> start the
  platform, print or wait. Of the host tools, the USB transport, the Python binding and the command
  lines are not modelled.
\<close>

end
